(* ===== verification/Badge_Prelude.thy ===== *)
theory Badge_Prelude
  imports Main "HOL-Library.Word" "HOL-Library.While_Combinator"
begin

text \<open>
  What every component of the development shares: names for the C integer types, the
  outcome of a C call, and lemmas on lists and bits that several components use.

  A C function of the firmware either returns a value, returns a negative error code,
  touches memory outside its objects, or does not return.  The four outcomes are the
  constructors of \<open>cres\<close>; a theorem that excludes \<open>Oob\<close> is a memory-safety theorem and
  a theorem that excludes \<open>Spin\<close> is a termination theorem.
\<close>

unbundle bit_operations_syntax

section \<open>Integer types\<close>

type_synonym u8 = "8 word"
type_synonym u16 = "16 word"
type_synonym u32 = "32 word"

section \<open>Outcomes of C calls\<close>

datatype 'a cres =
    Ret 'a        \<comment> \<open>normal return\<close>
  | Err int       \<comment> \<open>return of a (negative) error code\<close>
  | Oob           \<comment> \<open>access outside an object\<close>
  | Spin          \<comment> \<open>no return: the loop runs forever\<close>

fun is_ret :: "'a cres \<Rightarrow> bool" where
  "is_ret (Ret _) = True"
| "is_ret _ = False"

text \<open>
  A call whose error return the caller passes on (\<open>if (res < 0) return res;\<close>): the rest \<open>f\<close> runs on
  the value and the new state.
\<close>

definition cbind :: "'a cres \<times> 's \<Rightarrow> ('a \<Rightarrow> 's \<Rightarrow> 'b cres \<times> 's) \<Rightarrow> 'b cres \<times> 's" where
  "cbind m f = (case m of (Ret a, s) \<Rightarrow> f a s | (Err e, s) \<Rightarrow> (Err e, s) | (Oob, s) \<Rightarrow> (Oob, s)
                 | (Spin, s) \<Rightarrow> (Spin, s))"

lemma cbind_simps [simp]:
  "cbind (Ret a, s) f = f a s"
  "cbind (Err e, s) f = (Err e, s)"
  "cbind (Oob, s) f = (Oob, s)"
  "cbind (Spin, s) f = (Spin, s)"
  by (simp_all add: cbind_def)

lemma cbind_cong [fundef_cong]:
  assumes "m = m'" and "\<And>a s. m' = (Ret a, s) \<Longrightarrow> f a s = f' a s"
  shows "cbind m f = cbind m' f'"
  using assms by (auto simp: cbind_def split: prod.splits cres.splits)

text \<open>
  Weakest preconditions of calls: \<open>Q\<close> for the normal return, \<open>E\<close> for the error return; the other
  outcomes are excluded.
\<close>

definition wpc :: "'a cres \<times> 's \<Rightarrow> ('a \<Rightarrow> 's \<Rightarrow> bool) \<Rightarrow> (int \<Rightarrow> 's \<Rightarrow> bool) \<Rightarrow> bool" where
  "wpc m Q E = (case m of (Ret a, s) \<Rightarrow> Q a s | (Err e, s) \<Rightarrow> E e s | _ \<Rightarrow> False)"

lemma wpc_simps [simp]:
  "wpc (Ret a, s) Q E = Q a s"
  "wpc (Err e, s) Q E = E e s"
  "wpc (Oob, s) Q E = False"
  "wpc (Spin, s) Q E = False"
  by (simp_all add: wpc_def)

lemma wpc_cbind [simp]: "wpc (cbind m f) Q E = wpc m (\<lambda>a s. wpc (f a s) Q E) E"
  by (auto simp: wpc_def cbind_def split: prod.splits cres.splits)

lemma wpc_mono:
  assumes "wpc m Q E" and "\<And>a s. Q a s \<Longrightarrow> Q' a s" and "\<And>e s. E e s \<Longrightarrow> E' e s"
  shows "wpc m Q' E'"
  using assms by (auto simp: wpc_def split: prod.splits cres.splits)

lemma wpc_cases:
  assumes "wpc m Q E"
  obtains (ret) a s where "m = (Ret a, s)" and "Q a s" | (err) e s where "m = (Err e, s)" and "E e s"
  using assms by (auto simp: wpc_def split: prod.splits cres.splits)

text \<open>Counting loops whose body may fail.\<close>

fun for_c :: "('i \<Rightarrow> 's \<Rightarrow> unit cres \<times> 's) \<Rightarrow> 'i list \<Rightarrow> 's \<Rightarrow> unit cres \<times> 's" where
  "for_c f [] s = (Ret (), s)"
| "for_c f (i # is) s = cbind (f i s) (\<lambda>_ s. for_c f is s)"

lemma for_c_wp:
  assumes "I [] s" and "\<And>is i js s. xs = is @ i # js \<Longrightarrow> I is s \<Longrightarrow> wpc (f i s) (\<lambda>_ s'. I (is @ [i]) s') E"
  shows "wpc (for_c f xs s) (\<lambda>_ s'. I xs s') E"
proof -
  have "wpc (for_c f ys s) (\<lambda>_ s'. I xs s') E" if "xs = zs @ ys" "I zs s" for ys zs s
    using that
  proof (induction ys arbitrary: zs s)
    case Nil
    then show ?case by simp
  next
    case (Cons y ys)
    then have "wpc (f y s) (\<lambda>_ s'. I (zs @ [y]) s') E" using assms(2) by blast
    then show ?case
      using Cons by (auto elim!: wpc_mono)
  qed
  from this [of "[]" xs s] assms(1) show ?thesis by simp
qed

text \<open>
  A loop that may not end: the body says whether to go round again (\<open>More\<close>) or to leave with a
  result (\<open>Done\<close>).  A loop that never leaves is \<open>Spin\<close>.
\<close>

datatype ('a, 'b) step = More 'a | Done 'b

fun is_more :: "('a, 'b) step cres \<times> 's \<Rightarrow> bool" where
  "is_more (Ret (More a), s) = True"
| "is_more r = False"

fun loop_step :: "('a \<Rightarrow> 's \<Rightarrow> ('a, 'b) step cres \<times> 's) \<Rightarrow> ('a, 'b) step cres \<times> 's \<Rightarrow> ('a, 'b) step cres \<times> 's" where
  "loop_step body (Ret (More a), s) = body a s"
| "loop_step body r = r"

fun loop_exit :: "('a, 'b) step cres \<times> 's \<Rightarrow> 'b cres \<times> 's" where
  "loop_exit (Ret (Done b), s) = (Ret b, s)"
| "loop_exit (Ret (More a), s) = (Spin, s)"
| "loop_exit (Err e, s) = (Err e, s)"
| "loop_exit (Oob, s) = (Oob, s)"
| "loop_exit (Spin, s) = (Spin, s)"

definition loop_c :: "('a \<Rightarrow> 's \<Rightarrow> ('a, 'b) step cres \<times> 's) \<Rightarrow> 'a \<Rightarrow> 's \<Rightarrow> 'b cres \<times> 's" where
  "loop_c body a s = (case while_option is_more (loop_step body) (Ret (More a), s) of
     None \<Rightarrow> (Spin, s) | Some r \<Rightarrow> loop_exit r)"

lemma loop_c_unfold:
  "fst (loop_c body a s) \<noteq> Spin \<or> fst (cbind (body a s) (\<lambda>st s. case st of More a \<Rightarrow> loop_c body a s | Done b \<Rightarrow> (Ret b, s))) \<noteq> Spin \<Longrightarrow>
   loop_c body a s = cbind (body a s) (\<lambda>st s. case st of More a \<Rightarrow> loop_c body a s | Done b \<Rightarrow> (Ret b, s))"
proof -
  have w: "while_option is_more (loop_step body) (Ret (More a), s) = while_option is_more (loop_step body) (body a s)"
    by (subst while_option_unfold) simp
  have stop: "\<not> is_more r \<Longrightarrow> while_option is_more (loop_step body) r = Some r" for r
    by (subst while_option_unfold) simp
  assume "fst (loop_c body a s) \<noteq> Spin \<or> fst (cbind (body a s) (\<lambda>st s. case st of More a \<Rightarrow> loop_c body a s | Done b \<Rightarrow> (Ret b, s))) \<noteq> Spin"
  then show ?thesis
    using stop [of "body a s"]
    by (cases "body a s" rule: is_more.cases) (auto simp: loop_c_def w cbind_def split: option.splits)
qed

text \<open>Total correctness of such a loop: an invariant and a measure.\<close>

lemma loop_c_wp:
  fixes m :: "'a \<Rightarrow> 's \<Rightarrow> nat"
  assumes "I a s"
    and body: "\<And>a s. I a s \<Longrightarrow> wpc (body a s)
      (\<lambda>st s'. case st of More a' \<Rightarrow> I a' s' \<and> m a' s' < m a s | Done b \<Rightarrow> Q b s') E"
  shows "wpc (loop_c body a s) Q E"
  using assms(1)
proof (induction "m a s" arbitrary: a s rule: less_induct)
  case less
  have "wpc (cbind (body a s) (\<lambda>st s. case st of More a \<Rightarrow> loop_c body a s | Done b \<Rightarrow> (Ret b, s))) Q E"
    unfolding wpc_cbind
    by (rule wpc_mono [OF body [OF less.prems]]) (auto split: step.splits intro: less.hyps)
  moreover from this have "fst (cbind (body a s) (\<lambda>st s. case st of More a \<Rightarrow> loop_c body a s | Done b \<Rightarrow> (Ret b, s))) \<noteq> Spin"
    by (auto elim!: wpc_cases)
  ultimately show ?case
    using loop_c_unfold [of body a s] by simp
qed

text \<open>Array access with the bounds check C leaves out.\<close>

definition nth_opt :: "'a list \<Rightarrow> nat \<Rightarrow> 'a option" where
  "nth_opt xs i = (if i < length xs then Some (xs ! i) else None)"

lemma nth_opt_Some [simp]: "i < length xs \<Longrightarrow> nth_opt xs i = Some (xs ! i)"
  by (simp add: nth_opt_def)

lemma nth_opt_None [simp]: "length xs \<le> i \<Longrightarrow> nth_opt xs i = None"
  by (simp add: nth_opt_def)

lemma nth_opt_eq_Some: "nth_opt xs i = Some x \<longleftrightarrow> i < length xs \<and> xs ! i = x"
  by (simp add: nth_opt_def)

lemma take_split: "m \<le> n \<Longrightarrow> take n xs = take m xs @ take (n - m) (drop m xs)"
  by (metis le_add_diff_inverse take_add)

lemma take_append_ge: "length xs \<le> n \<Longrightarrow> take n (xs @ ys) = xs @ take (n - length xs) ys"
  by simp

lemma drop_append_ge: "length xs \<le> n \<Longrightarrow> drop n (xs @ ys) = drop (n - length xs) ys"
  by simp

lemma min_add_diff: "m \<le> n \<Longrightarrow> m + min (n - m) c = min n (m + c)" for m n c :: nat
  by simp

lemma upt_split: "i \<le> j \<Longrightarrow> j \<le> k \<Longrightarrow> [i..<k] = [i..<j] @ [j..<k]"
  by (metis le_add_diff_inverse upt_add_eq_append)

section \<open>Big-endian and little-endian byte sequences\<close>

definition be32 :: "u8 list \<Rightarrow> nat" where
  "be32 bs = foldl (\<lambda>v b. v * 256 + unat b) 0 bs"

definition le_bytes :: "u8 list \<Rightarrow> nat" where
  "le_bytes bs = foldr (\<lambda>b v. unat b + 256 * v) bs 0"

lemma unat_u8_less: "unat (b :: u8) < 256"
  using unsigned_less [of b, where 'a = nat] by simp

lemma unat_u8_le: "unat (b :: u8) \<le> 255"
  using unat_u8_less [of b] by linarith

lemma foldl_be_less:
  "foldl (\<lambda>v b. v * 256 + unat (b :: u8)) v bs < (v + 1) * 256 ^ length bs"
proof (induction bs arbitrary: v)
  case Nil
  then show ?case by simp
next
  case (Cons b bs)
  have "foldl (\<lambda>v b. v * 256 + unat b) (v * 256 + unat b) bs
      < (v * 256 + unat b + 1) * 256 ^ length bs"
    by (rule Cons.IH)
  also have "\<dots> \<le> ((v + 1) * 256) * 256 ^ length bs"
    using unat_u8_less [of b] by (intro mult_le_mono1) (simp add: algebra_simps)
  finally show ?case by (simp add: algebra_simps)
qed

lemma be32_less: "length bs = n \<Longrightarrow> be32 bs < 256 ^ n"
  using foldl_be_less [of 0 bs] by (simp add: be32_def)

section \<open>Setting and clearing one bit\<close>

lemma bit_push_1: "bit (push_bit n 1 :: 'a::len word) k \<longleftrightarrow> k = n \<and> n < LENGTH('a)"
proof -
  have "bit (push_bit n 1 :: 'a word) k \<longleftrightarrow> n \<le> k \<and> k < LENGTH('a) \<and> k - n = 0"
    by (simp only: bit_push_bit_iff bit_1_iff possible_bit_word)
  then show ?thesis by auto
qed

definition put_bit :: "nat \<Rightarrow> bool \<Rightarrow> 'a::len word \<Rightarrow> 'a word" where
  "put_bit n b x = (if b then x OR push_bit n 1 else x AND NOT (push_bit n 1))"

lemma bit_put_bit:
  "bit (put_bit n b (x :: 'a::len word)) k \<longleftrightarrow> (if k = n \<and> n < LENGTH('a) then b else bit x k)"
  using bit_imp_le_length [of x k]
  by (auto simp only: put_bit_def bit_or_iff bit_and_iff bit_not_iff bit_push_1 possible_bit_word split: if_splits)

section \<open>Splitting a 32-bit word into halves\<close>

lemma unat_ucast_u8_u32 [simp]: "unat (ucast (x :: u8) :: u32) = unat x"
proof -
  have "unat x < 2 ^ 32"
    by (rule less_trans [OF unat_u8_less]) simp
  then show ?thesis by (simp add: unsigned_ucast_eq take_bit_nat_eq_self)
qed

lemma unat_low16: "unat ((x :: u32) AND 0xffff) = unat x mod 65536"
proof -
  have "x AND 0xffff = take_bit 16 x"
    by (simp add: take_bit_eq_mask mask_eq_exp_minus_1)
  then show ?thesis by (simp add: take_bit_eq_mod unat_mod)
qed

lemma unat_high16: "unat (drop_bit 16 (x :: u32)) = unat x div 65536"
  by (simp add: drop_bit_eq_div unat_div)

lemma unat_join16:
  assumes "unat a < 65536" and "unat b < 65536"
  shows "unat (push_bit 16 b OR (a :: u32)) = unat b * 65536 + unat a"
proof -
  have a: "take_bit 16 a = a"
    using assms(1) by (simp add: word_unat_eq_iff unsigned_take_bit_eq take_bit_nat_eq_self)
  have "push_bit 16 b OR a = push_bit 16 b + a"
  proof (rule disjunctive_add [symmetric])
    fix n
    show "\<not> bit (push_bit 16 b) n \<or> \<not> bit a n"
      using a by (metis bit_push_bit_iff bit_take_bit_iff not_le)
  qed
  moreover have "unat (push_bit 16 b) = unat b * 65536"
    using assms(2) by (simp add: push_bit_eq_mult unat_word_ariths)
  ultimately show ?thesis
    using assms by (simp add: unat_word_ariths)
qed

end
