(* ===== verification/Checksums.thy ===== *)
theory Checksums
  imports Badge_Prelude
begin

text \<open>
  The two checksums of the PNG library: \<open>lib_adler32\<close> (components/png/adler32.c) and the
  table-driven \<open>lib_crc32\<close> (the software branch of components/png/crc32.c).  The
  specifications are the step-by-step definitions of RFC 1950 and of the CRC-32 polynomial.
\<close>

section \<open>Adler-32\<close>

text \<open>
  The inner loops add bytes to two 32-bit accumulators without reducing them; the outer
  loop reduces modulo 65521 after every 5552 bytes.
\<close>

fun adler_sum :: "u32 \<Rightarrow> u32 \<Rightarrow> u8 list \<Rightarrow> u32 \<times> u32" where
  "adler_sum a b [] = (a, b)"
| "adler_sum a b (x # xs) = (let a' = a + ucast x in adler_sum a' (b + a') xs)"

function adler_blocks :: "u32 \<Rightarrow> u32 \<Rightarrow> u8 list \<Rightarrow> u32 \<times> u32 \<times> u8 list" where
  "adler_blocks a b buf =
     (if 5552 < length buf
      then let (a', b') = adler_sum a b (take 5552 buf)
           in adler_blocks (a' mod 65521) (b' mod 65521) (drop 5552 buf)
      else (a, b, buf))"
  by pat_completeness auto
termination
  by (relation "measure (\<lambda>(a, b, buf). length buf)") auto

declare adler_blocks.simps [simp del]

definition lib_adler32 :: "u8 list \<Rightarrow> u32 \<Rightarrow> u32" where
  "lib_adler32 buf adler =
     (let (a, b, rest) = adler_blocks (adler AND 0xffff) (drop_bit 16 adler) buf;
          (a', b') = adler_sum a b rest;
          a'' = a' mod 65521;
          b'' = b' mod 65521
      in push_bit 16 b'' OR a'')"

text \<open>RFC 1950, section 8.2: both sums are reduced after every byte.\<close>

fun rfc1950_adler :: "nat \<times> nat \<Rightarrow> u8 list \<Rightarrow> nat \<times> nat" where
  "rfc1950_adler (a, b) [] = (a, b)"
| "rfc1950_adler (a, b) (x # xs) =
     (let a' = (a + unat x) mod 65521 in rfc1950_adler (a', (b + a') mod 65521) xs)"

text \<open>The sums the loops would compute without a word size.\<close>

fun adler_nat :: "nat \<Rightarrow> nat \<Rightarrow> u8 list \<Rightarrow> nat \<times> nat" where
  "adler_nat a b [] = (a, b)"
| "adler_nat a b (x # xs) = adler_nat (a + unat x) (b + (a + unat x)) xs"

lemma adler_sum_no_overflow:
  assumes "unat a + 255 * length xs < 2 ^ 32"
    and "unat b + length xs * unat a + 255 * (length xs * Suc (length xs) div 2) < 2 ^ 32"
  shows "map_prod unat unat (adler_sum a b xs) = adler_nat (unat a) (unat b) xs"
  using assms
proof (induction xs arbitrary: a b)
  case Nil
  then show ?case by simp
next
  case (Cons x xs)
  define n where "n = length xs"
  have x: "unat x \<le> 255" by (rule unat_u8_le)
  then have nx: "n * unat x \<le> n * 255" by (rule mult_le_mono2)
  define t where "t = n * Suc n div 2"
  have tri: "Suc n * Suc (Suc n) div 2 = t + Suc n"
    by (simp add: t_def)
  let ?a = "a + ucast x"
  have "unat a + unat x < 2 ^ 32"
    using Cons.prems(1) x by simp
  then have a': "unat ?a = unat a + unat x"
    by (simp add: unat_word_ariths)
  have "unat b + (unat a + unat x) < 2 ^ 32"
    using Cons.prems(2) x tri by (simp add: n_def [symmetric])
  then have b': "unat (b + ?a) = unat b + (unat a + unat x)"
    by (simp add: unat_word_ariths(1) [of b] a')
  have "unat ?a + 255 * length xs < 2 ^ 32"
    using Cons.prems(1) x by (simp add: a')
  moreover have "unat (b + ?a) + length xs * unat ?a + 255 * (length xs * Suc (length xs) div 2) < 2 ^ 32"
  proof -
    have "unat b + (unat a + n * unat a) + 255 * (t + Suc n) < 2 ^ 32"
      using Cons.prems(2) unfolding tri [symmetric] by (simp add: n_def)
    moreover have "B + (A + P) + 255 * (T + Suc n) < M \<Longrightarrow> X \<le> 255 \<Longrightarrow> Q \<le> n * 255 \<Longrightarrow>
        B + (A + X) + (P + Q) + 255 * T < M" for A B P Q T X M :: nat
      by simp
    ultimately show ?thesis
      unfolding a' b' n_def [symmetric] t_def [symmetric] distrib_left using x nx by blast
  qed
  ultimately show ?case
    using Cons.IH [of ?a "b + ?a"] by (simp add: a' b' Let_def)
qed

lemma adler_nat_mod:
  "rfc1950_adler (a mod 65521, b mod 65521) xs =
     (fst (adler_nat a b xs) mod 65521, snd (adler_nat a b xs) mod 65521)"
proof (induction xs arbitrary: a b)
  case Nil
  then show ?case by simp
next
  case (Cons x xs)
  have "(a mod 65521 + unat x) mod 65521 = (a + unat x) mod 65521"
    by (simp add: mod_add_left_eq)
  moreover have "(b mod 65521 + (a + unat x) mod 65521) mod 65521 = (b + (a + unat x)) mod 65521"
    by (simp add: mod_add_eq)
  ultimately show ?case
    by (simp add: Let_def Cons.IH)
qed

lemma rfc1950_adler_append:
  "rfc1950_adler s (xs @ ys) = rfc1950_adler (rfc1950_adler s xs) ys"
  by (induction s xs rule: rfc1950_adler.induct) (simp_all add: Let_def)

text \<open>5552 is the largest block for which the second accumulator cannot wrap.\<close>

lemma adler_sum_block:
  assumes "length xs \<le> 5552" and "unat a < 65536" and "unat b < 65536"
  shows "map_prod (\<lambda>w. unat w mod 65521) (\<lambda>w. unat w mod 65521) (adler_sum a b xs)
       = rfc1950_adler (unat a mod 65521, unat b mod 65521) xs"
proof -
  let ?n = "length xs"
  have "?n * unat a \<le> 5552 * 65535"
    using assms by (intro mult_le_mono) auto
  moreover have "?n * Suc ?n div 2 \<le> 5552 * 5553 div 2"
    using assms(1) by (intro div_le_mono mult_le_mono) auto
  ultimately have "unat b + ?n * unat a + 255 * (?n * Suc ?n div 2) < 2 ^ 32"
    using assms(3) by simp
  moreover have "unat a + 255 * ?n < 2 ^ 32"
    using assms by simp
  ultimately have "map_prod unat unat (adler_sum a b xs) = adler_nat (unat a) (unat b) xs"
    by (simp add: adler_sum_no_overflow)
  then show ?thesis
    by (cases "adler_sum a b xs") (metis adler_nat_mod fst_conv map_prod_simp snd_conv)
qed

lemma adler_blocks_rfc1950:
  assumes "unat a < 65536" and "unat b < 65536" and "adler_blocks a b buf = (a', b', rest)"
  shows "length rest \<le> 5552 \<and> unat a' < 65536 \<and> unat b' < 65536 \<and>
     rfc1950_adler (unat a mod 65521, unat b mod 65521) buf =
     rfc1950_adler (unat a' mod 65521, unat b' mod 65521) rest"
  using assms
proof (induction a b buf rule: adler_blocks.induct)
  case (1 a b buf)
  show ?case
  proof (cases "5552 < length buf")
    case False
    with "1.prems" show ?thesis by (simp add: adler_blocks.simps)
  next
    case True
    obtain c d where cd: "adler_sum a b (take 5552 buf) = (c, d)" by fastforce
    let ?c = "c mod 65521" and ?d = "d mod 65521"
    have *: "unat ?c = unat c mod 65521" "unat ?d = unat d mod 65521"
      by (simp_all add: unat_mod)
    have "length (take 5552 buf) \<le> 5552" by simp
    from adler_sum_block [OF this "1.prems"(1,2)] cd
    have blk: "(unat c mod 65521, unat d mod 65521) =
        rfc1950_adler (unat a mod 65521, unat b mod 65521) (take 5552 buf)" by simp
    have rec: "adler_blocks ?c ?d (drop 5552 buf) = (a', b', rest)"
      using "1.prems"(3) True cd by (subst (asm) adler_blocks.simps) simp
    have lt: "unat ?c < 65536" "unat ?d < 65536"
      unfolding * by (simp_all add: order_less_trans [OF mod_less_divisor])
    have "rfc1950_adler (unat a mod 65521, unat b mod 65521) (take 5552 buf @ drop 5552 buf)
        = rfc1950_adler (unat ?c mod 65521, unat ?d mod 65521) (drop 5552 buf)"
      by (simp only: rfc1950_adler_append blk [symmetric] * mod_mod_trivial)
    with "1.IH" [OF True cd [symmetric] refl lt rec] show ?thesis by simp
  qed
qed

lemma lib_adler32_rfc1950:
  "unat (lib_adler32 buf adler) =
     (let (a, b) = rfc1950_adler (unat adler mod 65536 mod 65521, unat adler div 65536 mod 65521) buf
      in b * 65536 + a)"
proof -
  let ?a = "adler AND 0xffff" and ?b = "drop_bit 16 adler"
  have lt: "unat ?a < 65536" "unat ?b < 65536"
    using unsigned_less [of adler, where 'a = nat]
    by (simp_all add: unat_low16 unat_high16 less_mult_imp_div_less)
  obtain a b rest where blk: "adler_blocks ?a ?b buf = (a, b, rest)"
    by (metis prod_cases3)
  note B = adler_blocks_rfc1950 [OF lt blk]
  obtain c d where cd: "adler_sum a b rest = (c, d)" by fastforce
  have "(unat c mod 65521, unat d mod 65521) = rfc1950_adler (unat a mod 65521, unat b mod 65521) rest"
    using adler_sum_block [of rest a b] B cd by simp
  then have eq: "rfc1950_adler (unat adler mod 65536 mod 65521, unat adler div 65536 mod 65521) buf
      = (unat c mod 65521, unat d mod 65521)"
    using B by (simp add: unat_low16 unat_high16)
  have "unat (push_bit 16 (d mod 65521) OR c mod 65521) = unat d mod 65521 * 65536 + unat c mod 65521"
    by (subst unat_join16) (simp_all add: unat_mod order_less_trans [OF mod_less_divisor])
  then show ?thesis
    by (simp add: lib_adler32_def blk cd eq Let_def)
qed

lemma adler_nat_closed:
  "adler_nat a b xs = (a + (\<Sum>i<length xs. unat (xs ! i)),
     b + length xs * a + (\<Sum>i<length xs. (length xs - i) * unat (xs ! i)))"
proof (induction xs arbitrary: a b)
  case Nil
  then show ?case by simp
next
  case (Cons x xs)
  then show ?case
    by (simp add: sum.lessThan_Suc_shift algebra_simps del: sum.lessThan_Suc)
qed

lemma lib_adler32_append:
  "lib_adler32 (xs @ ys) a = lib_adler32 ys (lib_adler32 xs a)"
proof -
  obtain s t where st: "rfc1950_adler (unat a mod 65536 mod 65521, unat a div 65536 mod 65521) xs = (s, t)"
    by fastforce
  have lt: "s < 65521" "t < 65521"
    using st adler_nat_mod [of "unat a mod 65536" "unat a div 65536" xs] by auto
  have eq: "unat (lib_adler32 xs a) = t * 65536 + s"
    by (simp add: lib_adler32_rfc1950 st)
  have "unat (lib_adler32 xs a) mod 65536 = s" "unat (lib_adler32 xs a) div 65536 = t"
    unfolding eq using lt by simp_all
  then have "unat (lib_adler32 (xs @ ys) a) = unat (lib_adler32 ys (lib_adler32 xs a))"
    using lt by (simp add: lib_adler32_rfc1950 [of "xs @ ys"] lib_adler32_rfc1950 [of ys] rfc1950_adler_append st)
  then show ?thesis by (simp add: word_unat_eq_iff)
qed

section \<open>CRC-32\<close>

definition lib_crc32_lookup :: "u32 list" where
  "lib_crc32_lookup =
    [0x00000000, 0x77073096, 0xee0e612c, 0x990951ba, 0x076dc419, 0x706af48f, 0xe963a535, 0x9e6495a3,
     0x0edb8832, 0x79dcb8a4, 0xe0d5e91e, 0x97d2d988, 0x09b64c2b, 0x7eb17cbd, 0xe7b82d07, 0x90bf1d91,
     0x1db71064, 0x6ab020f2, 0xf3b97148, 0x84be41de, 0x1adad47d, 0x6ddde4eb, 0xf4d4b551, 0x83d385c7,
     0x136c9856, 0x646ba8c0, 0xfd62f97a, 0x8a65c9ec, 0x14015c4f, 0x63066cd9, 0xfa0f3d63, 0x8d080df5,
     0x3b6e20c8, 0x4c69105e, 0xd56041e4, 0xa2677172, 0x3c03e4d1, 0x4b04d447, 0xd20d85fd, 0xa50ab56b,
     0x35b5a8fa, 0x42b2986c, 0xdbbbc9d6, 0xacbcf940, 0x32d86ce3, 0x45df5c75, 0xdcd60dcf, 0xabd13d59,
     0x26d930ac, 0x51de003a, 0xc8d75180, 0xbfd06116, 0x21b4f4b5, 0x56b3c423, 0xcfba9599, 0xb8bda50f,
     0x2802b89e, 0x5f058808, 0xc60cd9b2, 0xb10be924, 0x2f6f7c87, 0x58684c11, 0xc1611dab, 0xb6662d3d,
     0x76dc4190, 0x01db7106, 0x98d220bc, 0xefd5102a, 0x71b18589, 0x06b6b51f, 0x9fbfe4a5, 0xe8b8d433,
     0x7807c9a2, 0x0f00f934, 0x9609a88e, 0xe10e9818, 0x7f6a0dbb, 0x086d3d2d, 0x91646c97, 0xe6635c01,
     0x6b6b51f4, 0x1c6c6162, 0x856530d8, 0xf262004e, 0x6c0695ed, 0x1b01a57b, 0x8208f4c1, 0xf50fc457,
     0x65b0d9c6, 0x12b7e950, 0x8bbeb8ea, 0xfcb9887c, 0x62dd1ddf, 0x15da2d49, 0x8cd37cf3, 0xfbd44c65,
     0x4db26158, 0x3ab551ce, 0xa3bc0074, 0xd4bb30e2, 0x4adfa541, 0x3dd895d7, 0xa4d1c46d, 0xd3d6f4fb,
     0x4369e96a, 0x346ed9fc, 0xad678846, 0xda60b8d0, 0x44042d73, 0x33031de5, 0xaa0a4c5f, 0xdd0d7cc9,
     0x5005713c, 0x270241aa, 0xbe0b1010, 0xc90c2086, 0x5768b525, 0x206f85b3, 0xb966d409, 0xce61e49f,
     0x5edef90e, 0x29d9c998, 0xb0d09822, 0xc7d7a8b4, 0x59b33d17, 0x2eb40d81, 0xb7bd5c3b, 0xc0ba6cad,
     0xedb88320, 0x9abfb3b6, 0x03b6e20c, 0x74b1d29a, 0xead54739, 0x9dd277af, 0x04db2615, 0x73dc1683,
     0xe3630b12, 0x94643b84, 0x0d6d6a3e, 0x7a6a5aa8, 0xe40ecf0b, 0x9309ff9d, 0x0a00ae27, 0x7d079eb1,
     0xf00f9344, 0x8708a3d2, 0x1e01f268, 0x6906c2fe, 0xf762575d, 0x806567cb, 0x196c3671, 0x6e6b06e7,
     0xfed41b76, 0x89d32be0, 0x10da7a5a, 0x67dd4acc, 0xf9b9df6f, 0x8ebeeff9, 0x17b7be43, 0x60b08ed5,
     0xd6d6a3e8, 0xa1d1937e, 0x38d8c2c4, 0x4fdff252, 0xd1bb67f1, 0xa6bc5767, 0x3fb506dd, 0x48b2364b,
     0xd80d2bda, 0xaf0a1b4c, 0x36034af6, 0x41047a60, 0xdf60efc3, 0xa867df55, 0x316e8eef, 0x4669be79,
     0xcb61b38c, 0xbc66831a, 0x256fd2a0, 0x5268e236, 0xcc0c7795, 0xbb0b4703, 0x220216b9, 0x5505262f,
     0xc5ba3bbe, 0xb2bd0b28, 0x2bb45a92, 0x5cb36a04, 0xc2d7ffa7, 0xb5d0cf31, 0x2cd99e8b, 0x5bdeae1d,
     0x9b64c2b0, 0xec63f226, 0x756aa39c, 0x026d930a, 0x9c0906a9, 0xeb0e363f, 0x72076785, 0x05005713,
     0x95bf4a82, 0xe2b87a14, 0x7bb12bae, 0x0cb61b38, 0x92d28e9b, 0xe5d5be0d, 0x7cdcefb7, 0x0bdbdf21,
     0x86d3d2d4, 0xf1d4e242, 0x68ddb3f8, 0x1fda836e, 0x81be16cd, 0xf6b9265b, 0x6fb077e1, 0x18b74777,
     0x88085ae6, 0xff0f6a70, 0x66063bca, 0x11010b5c, 0x8f659eff, 0xf862ae69, 0x616bffd3, 0x166ccf45,
     0xa00ae278, 0xd70dd2ee, 0x4e048354, 0x3903b3c2, 0xa7672661, 0xd06016f7, 0x4969474d, 0x3e6e77db,
     0xaed16a4a, 0xd9d65adc, 0x40df0b66, 0x37d83bf0, 0xa9bcae53, 0xdebb9ec5, 0x47b2cf7f, 0x30b5ffe9,
     0xbdbdf21c, 0xcabac28a, 0x53b39330, 0x24b4a3a6, 0xbad03605, 0xcdd70693, 0x54de5729, 0x23d967bf,
     0xb3667a2e, 0xc4614ab8, 0x5d681b02, 0x2a6f2b94, 0xb40bbe37, 0xc30c8ea1, 0x5a05df1b, 0x2d02ef8d]"

fun crc32_loop :: "u32 \<Rightarrow> u8 list \<Rightarrow> u32" where
  "crc32_loop crc [] = crc"
| "crc32_loop crc (x # xs) =
     crc32_loop (lib_crc32_lookup ! unat ((crc XOR ucast x) AND 0xff) XOR drop_bit 8 crc) xs"

definition lib_crc32 :: "u8 list \<Rightarrow> u32 \<Rightarrow> u32" where
  "lib_crc32 buf crc = crc32_loop (crc XOR 0xffffffff) buf XOR 0xffffffff"

text \<open>The bit-serial register of the CRC-32 polynomial, reflected.\<close>

definition crc32_bit :: "u32 \<Rightarrow> u32" where
  "crc32_bit c = (if bit c 0 then 0xedb88320 XOR drop_bit 1 c else drop_bit 1 c)"

fun crc32_bits :: "nat \<Rightarrow> u32 \<Rightarrow> u32" where
  "crc32_bits 0 c = c"
| "crc32_bits (Suc n) c = crc32_bits n (crc32_bit c)"

fun crc32_serial :: "u32 \<Rightarrow> u8 list \<Rightarrow> u32" where
  "crc32_serial c [] = c"
| "crc32_serial c (x # xs) = crc32_serial (crc32_bits 8 (c XOR ucast x)) xs"

lemma crc32_bit_xor: "crc32_bit (a XOR b) = crc32_bit a XOR crc32_bit b"
  by (auto simp: crc32_bit_def drop_bit_xor bit_xor_iff xor.assoc xor.left_commute)

lemma crc32_bits_xor: "crc32_bits n (a XOR b) = crc32_bits n a XOR crc32_bits n b"
  by (induction n arbitrary: a b) (simp_all add: crc32_bit_xor)

lemma crc32_bits_high:
  "take_bit n c = 0 \<Longrightarrow> crc32_bits n c = drop_bit n c"
proof (induction n arbitrary: c)
  case 0
  then show ?case by simp
next
  case (Suc n)
  have "\<not> bit (take_bit (Suc n) c) 0"
    using Suc.prems by simp
  then have step: "crc32_bit c = drop_bit 1 c"
    by (simp add: crc32_bit_def bit_take_bit_iff)
  have "take_bit n (drop_bit 1 c) = 0"
    using Suc.prems by (simp add: take_bit_drop_bit)
  with step Suc.IH [of "drop_bit 1 c"] show ?case by (simp add: drop_bit_drop_bit)
qed

text \<open>Shifting out a byte: the low byte goes through the table, the rest is shifted.\<close>

lemma crc32_bits_byte:
  "crc32_bits 8 c = crc32_bits 8 (c AND 0xff) XOR drop_bit 8 c"
proof -
  have m: "c AND 0xff = take_bit 8 c"
    by (simp add: take_bit_eq_mask mask_eq_exp_minus_1)
  define h where "h = push_bit 8 (drop_bit 8 c)"
  have c: "c = take_bit 8 c XOR h"
    by (rule bit_word_eqI) (auto simp: h_def bit_xor_iff bit_take_bit_iff bit_push_bit_iff bit_drop_bit_eq)
  have "take_bit 8 h = 0"
    by (rule bit_word_eqI) (auto simp: h_def bit_take_bit_iff bit_push_bit_iff)
  then have "crc32_bits 8 h = drop_bit 8 h"
    by (rule crc32_bits_high)
  also have "\<dots> = drop_bit 8 c"
    by (rule bit_word_eqI)
      (auto simp: h_def bit_push_bit_iff bit_drop_bit_eq dest: bit_imp_le_length)
  finally have "crc32_bits 8 (take_bit 8 c XOR h) = crc32_bits 8 (take_bit 8 c) XOR drop_bit 8 c"
    by (simp only: crc32_bits_xor)
  with c m show ?thesis by simp
qed

text \<open>
  The table is the serial register run for 8 steps.  It is linear over exclusive or, so its
  upper half is the lower half with one entry added, at every power of two.
\<close>

lemma crc32_table_double:
  assumes "\<forall>i<2 ^ k. tab ! i = crc32_bits 8 (of_nat i)"
    and "crc32_bits 8 (2 ^ k) = p"
    and "take (2 ^ k) (drop (2 ^ k) tab) = map (\<lambda>x. x XOR p) (take (2 ^ k) tab)"
    and "2 ^ Suc k \<le> length tab"
  shows "\<forall>i<2 ^ Suc k. tab ! i = crc32_bits 8 (of_nat i :: u32)"
proof (intro allI impI)
  fix i assume i: "i < (2::nat) ^ Suc k"
  show "tab ! i = crc32_bits 8 (of_nat i)"
  proof (cases "i < 2 ^ k")
    case True
    with assms(1) show ?thesis by blast
  next
    case False
    define j where "j = i - 2 ^ k"
    have ij: "i = 2 ^ k + j" and j: "j < 2 ^ k"
      using i False by (auto simp: j_def)
    have "tab ! i = take (2 ^ k) (drop (2 ^ k) tab) ! j"
      using ij j assms(4) by simp
    also have "\<dots> = tab ! j XOR p"
      unfolding assms(3) using j assms(4) by simp
    also have "\<dots> = crc32_bits 8 (of_nat j XOR 2 ^ k)"
      using assms(1,2) j by (simp add: crc32_bits_xor)
    also have "of_nat j XOR 2 ^ k = (of_nat i :: u32)"
    proof -
      have "j = take_bit k j"
        using j by (simp add: take_bit_nat_eq_self)
      then have disj: "\<not> bit j n \<or> \<not> bit ((2::nat) ^ k) n" for n
        by (metis bit_exp_iff bit_take_bit_iff less_irrefl)
      then have "j AND 2 ^ k = 0"
        by (auto intro!: bit_eqI simp: bit_and_iff)
      then have "i = j XOR 2 ^ k"
        using ij by (simp add: disjunctive_add_eq_xor add.commute)
      then show ?thesis by (simp add: of_nat_xor_eq)
    qed
    finally show ?thesis .
  qed
qed

lemma crc32_bits_8:
  "crc32_bits 8 c = crc32_bit (crc32_bit (crc32_bit (crc32_bit
     (crc32_bit (crc32_bit (crc32_bit (crc32_bit c)))))))"
  by (simp add: numeral_eq_Suc)

lemma crc32_bits_unit:
  "crc32_bits 8 (2 ^ 0) = 0x77073096" "crc32_bits 8 (2 ^ 1) = 0xee0e612c"
  "crc32_bits 8 (2 ^ 2) = 0x076dc419" "crc32_bits 8 (2 ^ 3) = 0x0edb8832"
  "crc32_bits 8 (2 ^ 4) = 0x1db71064" "crc32_bits 8 (2 ^ 5) = 0x3b6e20c8"
  "crc32_bits 8 (2 ^ 6) = 0x76dc4190" "crc32_bits 8 (2 ^ 7) = 0xedb88320"
  by (simp_all add: crc32_bits_8 crc32_bit_def)

lemma crc32_lookup_length: "length lib_crc32_lookup = 256"
  by (simp add: lib_crc32_lookup_def)

lemma crc32_lookup_halves:
  "take (2 ^ 0) (drop (2 ^ 0) lib_crc32_lookup) = map (\<lambda>x. x XOR 0x77073096) (take (2 ^ 0) lib_crc32_lookup)"
  "take (2 ^ 1) (drop (2 ^ 1) lib_crc32_lookup) = map (\<lambda>x. x XOR 0xee0e612c) (take (2 ^ 1) lib_crc32_lookup)"
  "take (2 ^ 2) (drop (2 ^ 2) lib_crc32_lookup) = map (\<lambda>x. x XOR 0x076dc419) (take (2 ^ 2) lib_crc32_lookup)"
  "take (2 ^ 3) (drop (2 ^ 3) lib_crc32_lookup) = map (\<lambda>x. x XOR 0x0edb8832) (take (2 ^ 3) lib_crc32_lookup)"
  "take (2 ^ 4) (drop (2 ^ 4) lib_crc32_lookup) = map (\<lambda>x. x XOR 0x1db71064) (take (2 ^ 4) lib_crc32_lookup)"
  "take (2 ^ 5) (drop (2 ^ 5) lib_crc32_lookup) = map (\<lambda>x. x XOR 0x3b6e20c8) (take (2 ^ 5) lib_crc32_lookup)"
  "take (2 ^ 6) (drop (2 ^ 6) lib_crc32_lookup) = map (\<lambda>x. x XOR 0x76dc4190) (take (2 ^ 6) lib_crc32_lookup)"
  "take (2 ^ 7) (drop (2 ^ 7) lib_crc32_lookup) = map (\<lambda>x. x XOR 0xedb88320) (take (2 ^ 7) lib_crc32_lookup)"
  unfolding lib_crc32_lookup_def by simp_all

lemma crc32_lookup_serial:
  assumes "i < 256"
  shows "lib_crc32_lookup ! i = crc32_bits 8 (of_nat i)"
proof -
  have len: "(2::nat) ^ Suc k \<le> length lib_crc32_lookup" if "k < 8" for k
    using that by (simp add: crc32_lookup_length power_increasing [of "Suc k" 8 "2::nat", simplified])
  have 0: "\<forall>i<2 ^ 0. lib_crc32_lookup ! i = crc32_bits 8 (of_nat i)"
    by (simp add: lib_crc32_lookup_def crc32_bits_8 crc32_bit_def)
  note D = crc32_table_double [OF _ crc32_bits_unit(1) crc32_lookup_halves(1) len [of 0]]
    crc32_table_double [OF _ crc32_bits_unit(2) crc32_lookup_halves(2) len [of 1]]
    crc32_table_double [OF _ crc32_bits_unit(3) crc32_lookup_halves(3) len [of 2]]
    crc32_table_double [OF _ crc32_bits_unit(4) crc32_lookup_halves(4) len [of 3]]
    crc32_table_double [OF _ crc32_bits_unit(5) crc32_lookup_halves(5) len [of 4]]
    crc32_table_double [OF _ crc32_bits_unit(6) crc32_lookup_halves(6) len [of 5]]
    crc32_table_double [OF _ crc32_bits_unit(7) crc32_lookup_halves(7) len [of 6]]
    crc32_table_double [OF _ crc32_bits_unit(8) crc32_lookup_halves(8) len [of 7]]
  have "\<forall>i<2 ^ 8. lib_crc32_lookup ! i = crc32_bits 8 (of_nat i)"
    using D(8) [simplified, OF D(7) [simplified, OF D(6) [simplified, OF D(5) [simplified,
      OF D(4) [simplified, OF D(3) [simplified, OF D(2) [simplified, OF D(1) [OF 0, simplified]]]]]]]]
    by simp
  with assms show ?thesis by simp
qed

lemma crc32_loop_serial: "crc32_loop c xs = crc32_serial c xs"
proof (induction c xs rule: crc32_loop.induct)
  case (2 c x xs)
  let ?y = "(c XOR ucast x) AND 0xff"
  have "?y = take_bit 8 (c XOR ucast x)"
    by (simp add: take_bit_eq_mask mask_eq_exp_minus_1)
  then have "unat ?y < 256"
    by (simp add: take_bit_eq_mod unat_mod)
  then have "lib_crc32_lookup ! unat ?y = crc32_bits 8 ?y"
    by (simp add: crc32_lookup_serial)
  moreover have "drop_bit 8 (c XOR ucast x) = drop_bit 8 c"
    by (rule bit_word_eqI)
      (auto simp: bit_drop_bit_eq bit_xor_iff bit_ucast_iff dest: bit_imp_le_length)
  ultimately have "lib_crc32_lookup ! unat ?y XOR drop_bit 8 c = crc32_bits 8 (c XOR ucast x)"
    using crc32_bits_byte [of "c XOR ucast x"] by simp
  with 2 show ?case by simp
qed simp

lemma crc32_serial_append: "crc32_serial c (xs @ ys) = crc32_serial (crc32_serial c xs) ys"
  by (induction c xs rule: crc32_serial.induct) simp_all

lemma lib_crc32_append: "lib_crc32 (xs @ ys) c = lib_crc32 ys (lib_crc32 xs c)"
  by (simp add: lib_crc32_def crc32_loop_serial crc32_serial_append xor.assoc)

section \<open>Properties\<close>

text \<open>C28: For a stream that starts from the initial value 1, \<open>lib_adler32\<close> computes exactly the
  closed form of the Adler-32 sums modulo 65521, although its accumulators are 32 bits wide and
  are reduced only once every 5552 bytes: no accumulator ever wraps around.\<close>

theorem adler32_closed_form:
  "unat (lib_adler32 buf 1) =
     (length buf + (\<Sum>i<length buf. (length buf - i) * unat (buf ! i))) mod 65521 * 65536
     + (1 + (\<Sum>i<length buf. unat (buf ! i))) mod 65521"
  using adler_nat_mod [of 1 0 buf]
  by (simp add: lib_adler32_rfc1950 adler_nat_closed)

text \<open>C35: The PNG reader feeds the checksum piece by piece: checking a stream in two pieces, with the
  checksum of the first piece as the starting value of the second, gives the checksum of the
  whole stream, wherever it is cut and whatever the starting value.\<close>

theorem adler32_incremental:
  "lib_adler32 (xs @ ys) adler = lib_adler32 ys (lib_adler32 xs adler)"
  by (rule lib_adler32_append)

text \<open>C29: The table-driven CRC-32 computes the bit-serial CRC of the reflected polynomial
  0xedb88320 with complemented start and end, for every buffer and starting value; so all 256
  table entries are right.\<close>

theorem crc32_table_correct:
  "lib_crc32 buf crc = crc32_serial (crc XOR 0xffffffff) buf XOR 0xffffffff"
  by (simp add: lib_crc32_def crc32_loop_serial)

end
