(* ===== verification/Readers.thy ===== *)
theory Readers
  imports Badge_Prelude
begin

text \<open>
  The byte sources of the PNG library: the function-pointer type \<open>lib_reader_read_t\<close>
  (components/png/reader.h) and its memory, file and flash instances
  (mem_reader.c, file_reader.c, flash_reader.c).

  A reader takes its state and the number of bytes wanted.  It returns the C return value
  together with the bytes it wrote at the start of the caller's buffer (a reader may have
  written bytes before it failed), and its new state.
\<close>

type_synonym 's reader = "'s \<Rightarrow> nat \<Rightarrow> (int \<times> u8 list) cres \<times> 's"

section \<open>The contract of a byte source\<close>

text \<open>
  What the decoders rely on: from a good state a read delivers the next bytes of the source,
  as many as asked for or as many as are left, and removes them.
\<close>

locale byte_source =
  fixes rd :: "'s reader"
    and content :: "'s \<Rightarrow> u8 list"
    and good :: "'s \<Rightarrow> bool"
  assumes read_result: "good s \<Longrightarrow>
      fst (rd s n) = Ret (int (length (take n (content s))), take n (content s))"
    and read_content: "good s \<Longrightarrow> content (snd (rd s n)) = drop n (content s)"
    and read_good: "good s \<Longrightarrow> good (snd (rd s n))"
begin

lemma read_cases:
  assumes "good s"
  obtains s' where "rd s n = (Ret (int (min n (length (content s))), take n (content s)), s')"
    and "good s'" and "content s' = drop n (content s)"
proof
  show "rd s n = (Ret (int (min n (length (content s))), take n (content s)), snd (rd s n))"
    using read_result [OF assms, of n] by (simp add: prod_eq_iff min.commute)
qed (simp_all add: assms read_content read_good)

lemma read_split:
  assumes "good s"
  shows "content (snd (rd (snd (rd s m)) n)) = content (snd (rd s (m + n)))"
  by (simp add: assms read_content read_good add.commute)

end

section \<open>Memory reader\<close>

record mem_reader =
  mr_data :: "u8 list"   \<comment> \<open>\<open>data\<close> and \<open>len\<close>: what is left of the buffer\<close>

definition lib_mem_new :: "u8 list \<Rightarrow> mem_reader" where
  "lib_mem_new data = \<lparr>mr_data = data\<rparr>"

definition lib_mem_read :: "mem_reader reader" where
  "lib_mem_read mr buf_len =
     (let len = (if buf_len < length (mr_data mr) then buf_len else length (mr_data mr))
      in (Ret (int len, take len (mr_data mr)), mr\<lparr>mr_data := drop len (mr_data mr)\<rparr>))"

interpretation mem: byte_source lib_mem_read mr_data "\<lambda>_. True"
  by unfold_locales (auto simp: lib_mem_read_def Let_def)

section \<open>File reader\<close>

text \<open>
  The state of \<open>lib_file_reader\<close>: the operating system's file is the parameter state \<open>'f\<close>,
  read through the parameter \<open>os_read\<close> (POSIX \<open>read\<close>: the return value and the bytes it
  stored).
\<close>

record 'f file_reader =
  fr_file :: 'f
  fr_bufsize :: nat
  fr_buflen :: nat
  fr_bufpos :: nat
  fr_buf :: "u8 list"

definition lib_file_new :: "'f \<Rightarrow> nat \<Rightarrow> 'f file_reader" where
  "lib_file_new f bufsize =
     \<lparr>fr_file = f, fr_bufsize = bufsize, fr_buflen = 0, fr_bufpos = 0, fr_buf = replicate bufsize 0\<rparr>"

text \<open>Refilling the buffer: the branch \<open>fr->buflen == 0\<close>.  \<open>Inl r\<close> is a return of the loop's function.\<close>

definition file_refill ::
  "('f \<Rightarrow> nat \<Rightarrow> int \<times> u8 list \<times> 'f) \<Rightarrow> 'f file_reader \<Rightarrow> nat \<Rightarrow> (int + unit) \<times> 'f file_reader" where
  "file_refill os_read fr res =
     (if fr_buflen fr = 0
      then (case os_read (fr_file fr) (fr_bufsize fr) of (r, bs, f) \<Rightarrow>
             let fr' = fr\<lparr>fr_file := f, fr_buf := bs @ drop (length bs) (fr_buf fr)\<rparr>
             in if r < 0 then (Inl r, fr')
                else if r = 0 then (Inl (int res), fr')
                else (Inr (), fr'\<lparr>fr_bufpos := 0, fr_buflen := nat r\<rparr>))
      else (Inr (), fr))"

function file_read_loop ::
  "('f \<Rightarrow> nat \<Rightarrow> int \<times> u8 list \<times> 'f) \<Rightarrow> 'f file_reader \<Rightarrow> nat \<Rightarrow> u8 list
    \<Rightarrow> (int \<times> u8 list) cres \<times> 'f file_reader" where
  "file_read_loop os_read fr buf_len out =
     (if buf_len = 0 then (Ret (int (length out), out), fr)
      else case file_refill os_read fr (length out) of
          (Inl r, fr') \<Rightarrow> (Ret (r, out), fr')
        | (Inr _, fr') \<Rightarrow>
            (let maxcopy = min buf_len (fr_buflen fr')
             in if length (fr_buf fr') < fr_bufpos fr' + maxcopy then (Oob, fr')
                else if maxcopy = 0 then (Spin, fr')
                else file_read_loop os_read
                       (fr'\<lparr>fr_bufpos := fr_bufpos fr' + maxcopy, fr_buflen := fr_buflen fr' - maxcopy\<rparr>)
                       (buf_len - maxcopy)
                       (out @ take maxcopy (drop (fr_bufpos fr') (fr_buf fr')))))"
  by pat_completeness auto
termination
  by (relation "measure (\<lambda>(os_read, fr, buf_len, out). buf_len)") auto

declare file_read_loop.simps [simp del]

definition lib_file_read ::
  "('f \<Rightarrow> nat \<Rightarrow> int \<times> u8 list \<times> 'f) \<Rightarrow> 'f file_reader reader" where
  "lib_file_read os_read fr buf_len = file_read_loop os_read fr buf_len []"

text \<open>
  What POSIX promises of \<open>read\<close> on a regular file: between one and \<open>n\<close> bytes of what is
  left, and none only at the end of the file (or when none are asked for).
\<close>

definition posix_read :: "('f \<Rightarrow> nat \<Rightarrow> int \<times> u8 list \<times> 'f) \<Rightarrow> ('f \<Rightarrow> u8 list) \<Rightarrow> bool" where
  "posix_read os_read left \<longleftrightarrow>
     (\<forall>f n. \<exists>k f'. os_read f n = (int k, take k (left f), f') \<and> k \<le> n \<and> k \<le> length (left f) \<and>
        left f' = drop k (left f) \<and> (k = 0 \<longrightarrow> n = 0 \<or> left f = []))"

definition file_content :: "('f \<Rightarrow> u8 list) \<Rightarrow> 'f file_reader \<Rightarrow> u8 list" where
  "file_content left fr =
     take (fr_buflen fr) (drop (fr_bufpos fr) (fr_buf fr)) @ left (fr_file fr)"

definition file_good :: "'f file_reader \<Rightarrow> bool" where
  "file_good fr \<longleftrightarrow> 0 < fr_bufsize fr \<and> length (fr_buf fr) = fr_bufsize fr \<and>
     fr_bufpos fr + fr_buflen fr \<le> fr_bufsize fr"

lemma posix_readE:
  assumes "posix_read os_read left"
  obtains k f' where "os_read f n = (int k, take k (left f), f')" "k \<le> n" "k \<le> length (left f)"
    "left f' = drop k (left f)" "k = 0 \<longrightarrow> n = 0 \<or> left f = []"
  using assms unfolding posix_read_def by metis

lemma file_refill_cases:
  assumes "posix_read os_read left" and "file_good fr"
  obtains (more) fr' where "file_refill os_read fr res = (Inr (), fr')" "file_good fr'"
      "0 < fr_buflen fr'" "file_content left fr' = file_content left fr"
  | (eof) fr' where "file_refill os_read fr res = (Inl (int res), fr')" "file_good fr'"
      "file_content left fr = []" "file_content left fr' = []"
proof (cases "fr_buflen fr = 0")
  case False
  then show ?thesis
    using assms(2) more [of fr] by (simp add: file_refill_def)
next
  case True
  obtain k f' where k: "os_read (fr_file fr) (fr_bufsize fr) = (int k, take k (left (fr_file fr)), f')"
      "k \<le> fr_bufsize fr" "k \<le> length (left (fr_file fr))" "left f' = drop k (left (fr_file fr))"
      "k = 0 \<longrightarrow> fr_bufsize fr = 0 \<or> left (fr_file fr) = []"
    by (rule posix_readE [OF assms(1), of "fr_file fr" "fr_bufsize fr"])
  let ?buf = "take k (left (fr_file fr)) @ drop (length (take k (left (fr_file fr)))) (fr_buf fr)"
  show ?thesis
  proof (cases "k = 0")
    case True
    with \<open>fr_buflen fr = 0\<close> k assms(2) show ?thesis
      by (intro eof [of "fr\<lparr>fr_file := f', fr_buf := ?buf\<rparr>"])
        (auto simp: file_refill_def file_good_def file_content_def)
  next
    case False
    with \<open>fr_buflen fr = 0\<close> k assms(2) show ?thesis
      by (intro more [of "fr\<lparr>fr_file := f', fr_buf := ?buf, fr_bufpos := 0, fr_buflen := k\<rparr>"])
        (auto simp: file_refill_def file_good_def file_content_def)
  qed
qed

lemma file_read_loop_spec:
  assumes "posix_read os_read left" and "file_good fr"
  shows "\<exists>fr'. file_read_loop os_read fr n out =
      (Ret (int (length out + min n (length (file_content left fr))), out @ take n (file_content left fr)), fr') \<and>
      file_good fr' \<and> file_content left fr' = drop n (file_content left fr)"
  using assms(2)
proof (induction n arbitrary: fr out rule: less_induct)
  case (less n)
  show ?case
  proof (cases "n = 0")
    case True
    with less.prems show ?thesis by (simp add: file_read_loop.simps)
  next
    case n: False
    from assms(1) less.prems show ?thesis
    proof (cases rule: file_refill_cases [where res = "length out"])
      case (eof fr')
      with n show ?thesis by (simp add: file_read_loop.simps [of os_read fr])
    next
      case (more fr')
      let ?m = "min n (fr_buflen fr')"
      let ?chunk = "take ?m (drop (fr_bufpos fr') (fr_buf fr'))"
      let ?fr = "fr'\<lparr>fr_bufpos := fr_bufpos fr' + ?m, fr_buflen := fr_buflen fr' - ?m\<rparr>"
      have good: "file_good ?fr" and len: "fr_bufpos fr' + ?m \<le> length (fr_buf fr')"
        using more(2) by (auto simp: file_good_def)
      have m: "0 < ?m" "?m \<le> n" using n more(3) by auto
      have m0: "?m = 0 \<longleftrightarrow> False" using m by simp
      have cont: "file_content left fr' = ?chunk @ file_content left ?fr"
        using take_split [of ?m "fr_buflen fr'" "drop (fr_bufpos fr') (fr_buf fr')"]
        by (simp add: file_content_def add.commute)
      have lc: "length ?chunk = ?m" using len by simp
      have step: "file_read_loop os_read fr n out = file_read_loop os_read ?fr (n - ?m) (out @ ?chunk)"
        using n more(1) len by (subst file_read_loop.simps) (simp add: Let_def m0 del: min_0L min_0R)
      have "n - ?m < n" using m by simp
      from less.IH [OF this good, of "out @ ?chunk"] obtain fr'' where
        fr'': "file_read_loop os_read ?fr (n - ?m) (out @ ?chunk) =
          (Ret (int (length (out @ ?chunk) + min (n - ?m) (length (file_content left ?fr))),
            (out @ ?chunk) @ take (n - ?m) (file_content left ?fr)), fr'')"
          "file_good fr''" "file_content left fr'' = drop (n - ?m) (file_content left ?fr)"
        by blast
      have A: "take n (file_content left fr) = ?chunk @ take (n - ?m) (file_content left ?fr)"
        unfolding more(4) [symmetric] cont using m(2) lc by (simp only: take_append_ge)
      have B: "drop n (file_content left fr) = drop (n - ?m) (file_content left ?fr)"
        unfolding more(4) [symmetric] cont using m(2) lc by (simp only: drop_append_ge)
      have C: "length (out @ ?chunk) + min (n - ?m) (length (file_content left ?fr)) =
          length out + min n (length (file_content left fr))"
      proof -
        have "length (file_content left fr) = ?m + length (file_content left ?fr)"
          unfolding more(4) [symmetric] cont by (simp only: length_append lc)
        then show ?thesis
          unfolding length_append lc add.assoc by (simp only: min_add_diff [OF m(2)])
      qed
      show ?thesis
        by (intro exI [of _ fr'']) (simp only: step fr'' A B C append_assoc simp_thms)
    qed
  qed
qed

lemma file_byte_source:
  assumes "posix_read os_read left"
  shows "byte_source (lib_file_read os_read) (file_content left) file_good"
proof
  fix fr :: "'a file_reader" and n
  assume "file_good fr"
  from file_read_loop_spec [OF assms this, of n "[]"] obtain fr' where
    "lib_file_read os_read fr n =
      (Ret (int (min n (length (file_content left fr))), take n (file_content left fr)), fr')"
    "file_good fr'" "file_content left fr' = drop n (file_content left fr)"
    by (auto simp: lib_file_read_def)
  then show "fst (lib_file_read os_read fr n) =
      Ret (int (length (take n (file_content left fr))), take n (file_content left fr))"
    and "file_content left (snd (lib_file_read os_read fr n)) = drop n (file_content left fr)"
    and "file_good (snd (lib_file_read os_read fr n))"
    by (simp_all add: min.commute)
qed

section \<open>Flash reader\<close>

text \<open>
  \<open>esp_partition_read\<close> is the parameter \<open>part_read\<close>: a byte offset and a length give an
  \<open>esp_err_t\<close> and the bytes stored.  A flash sector has 4096 bytes.
\<close>

definition SPI_FLASH_SEC_SIZE :: nat where
  "SPI_FLASH_SEC_SIZE = 4096"

record flash_reader =
  fl_offset :: nat
  fl_buflen :: nat
  fl_bufpos :: nat
  fl_buf :: "u8 list"

definition lib_flash_new :: "nat \<Rightarrow> flash_reader" where
  "lib_flash_new offset =
     \<lparr>fl_offset = offset, fl_buflen = 0, fl_bufpos = 0, fl_buf = replicate SPI_FLASH_SEC_SIZE 0\<rparr>"

definition flash_refill ::
  "(nat \<Rightarrow> nat \<Rightarrow> int \<times> u8 list) \<Rightarrow> flash_reader \<Rightarrow> (int + unit) \<times> flash_reader" where
  "flash_refill part_read fl =
     (if fl_buflen fl = 0
      then let offset = fl_offset fl mod SPI_FLASH_SEC_SIZE;
               base = fl_offset fl - offset
           in case part_read base SPI_FLASH_SEC_SIZE of (err, bs) \<Rightarrow>
                let fl' = fl\<lparr>fl_offset := base, fl_buf := bs @ drop (length bs) (fl_buf fl)\<rparr>
                in if err \<noteq> 0 then (Inl (-1), fl')
                   else (Inr (), fl'\<lparr>fl_bufpos := offset, fl_buflen := SPI_FLASH_SEC_SIZE - offset,
                                   fl_offset := base + SPI_FLASH_SEC_SIZE\<rparr>)
      else (Inr (), fl))"

function flash_read_loop ::
  "(nat \<Rightarrow> nat \<Rightarrow> int \<times> u8 list) \<Rightarrow> flash_reader \<Rightarrow> nat \<Rightarrow> u8 list
    \<Rightarrow> (int \<times> u8 list) cres \<times> flash_reader" where
  "flash_read_loop part_read fl buf_len out =
     (if buf_len = 0 then (Ret (int (length out), out), fl)
      else case flash_refill part_read fl of
          (Inl r, fl') \<Rightarrow> (Ret (r, out), fl')
        | (Inr _, fl') \<Rightarrow>
            (let maxcopy = min buf_len (fl_buflen fl')
             in if length (fl_buf fl') < fl_bufpos fl' + maxcopy then (Oob, fl')
                else if maxcopy = 0 then (Spin, fl')
                else flash_read_loop part_read
                       (fl'\<lparr>fl_bufpos := fl_bufpos fl' + maxcopy, fl_buflen := fl_buflen fl' - maxcopy\<rparr>)
                       (buf_len - maxcopy)
                       (out @ take maxcopy (drop (fl_bufpos fl') (fl_buf fl')))))"
  by pat_completeness auto
termination
  by (relation "measure (\<lambda>(part_read, fl, buf_len, out). buf_len)") auto

declare flash_read_loop.simps [simp del]

definition lib_flash_read :: "(nat \<Rightarrow> nat \<Rightarrow> int \<times> u8 list) \<Rightarrow> flash_reader reader" where
  "lib_flash_read part_read fl buf_len = flash_read_loop part_read fl buf_len []"

text \<open>
  What \<open>esp_partition_read\<close> promises: a sector inside the partition is read without error and
  delivers the flash contents; a read that starts at or past the end fails.
\<close>

definition flash_partition :: "(nat \<Rightarrow> nat \<Rightarrow> int \<times> u8 list) \<Rightarrow> (nat \<Rightarrow> u8) \<Rightarrow> nat \<Rightarrow> bool" where
  "flash_partition part_read img psize \<longleftrightarrow>
     (\<forall>off n. (off < psize \<and> off + n \<le> psize \<longrightarrow> part_read off n = (0, map img [off..<off + n])) \<and>
        (psize \<le> off \<longrightarrow> fst (part_read off n) \<noteq> 0))"

definition flash_pos :: "flash_reader \<Rightarrow> nat" where
  "flash_pos fl = fl_offset fl - fl_buflen fl"

definition flash_good :: "(nat \<Rightarrow> u8) \<Rightarrow> flash_reader \<Rightarrow> bool" where
  "flash_good img fl \<longleftrightarrow> length (fl_buf fl) = SPI_FLASH_SEC_SIZE \<and>
     (0 < fl_buflen fl \<longrightarrow> fl_bufpos fl + fl_buflen fl = SPI_FLASH_SEC_SIZE \<and>
        SPI_FLASH_SEC_SIZE dvd fl_offset fl \<and> SPI_FLASH_SEC_SIZE \<le> fl_offset fl \<and>
        fl_buf fl = map img [fl_offset fl - SPI_FLASH_SEC_SIZE..<fl_offset fl])"

lemma flash_refill_inside:
  assumes "flash_partition part_read img psize" and "SPI_FLASH_SEC_SIZE dvd psize"
    and "flash_good img fl" and "flash_pos fl < psize"
  obtains fl' where "flash_refill part_read fl = (Inr (), fl')" "flash_good img fl'"
    "0 < fl_buflen fl'" "flash_pos fl' = flash_pos fl" "fl_offset fl' \<le> psize \<or> fl' = fl"
proof (cases "fl_buflen fl = 0")
  case False
  then show ?thesis
    using assms(3) that [of fl] by (simp add: flash_refill_def)
next
  case True
  let ?S = SPI_FLASH_SEC_SIZE
  have S: "0 < ?S" by (simp add: SPI_FLASH_SEC_SIZE_def)
  define o' where "o' = fl_offset fl mod ?S"
  define base where "base = fl_offset fl - o'"
  have o': "o' < ?S" "o' \<le> fl_offset fl" "fl_offset fl = base + o'"
    using S by (simp_all add: o'_def base_def)
  have dvd: "?S dvd base"
    unfolding base_def o'_def by (rule dvd_minus_mod)
  have "base < psize"
    using assms(4) True o'(3) by (simp add: flash_pos_def)
  then have psize: "base + ?S \<le> psize"
    using dvd assms(2) S by (metis add.commute dvd_def mult_Suc_right mult_le_mono2 nat_mult_less_cancel_disj Suc_leI)
  then have "part_read base ?S = (0, map img [base..<base + ?S])"
    using assms(1) \<open>base < psize\<close> by (simp add: flash_partition_def)
  then have "flash_refill part_read fl =
      (Inr (), fl\<lparr>fl_offset := base + ?S, fl_buf := map img [base..<base + ?S],
         fl_bufpos := o', fl_buflen := ?S - o'\<rparr>)"
    using True assms(3)
    by (simp add: flash_refill_def Let_def o'_def [symmetric] base_def [symmetric] flash_good_def)
  then show ?thesis
  proof (rule that)
    show "flash_pos (fl\<lparr>fl_offset := base + ?S, fl_buf := map img [base..<base + ?S],
         fl_bufpos := o', fl_buflen := ?S - o'\<rparr>) = flash_pos fl"
      using o' True by (simp add: flash_pos_def)
  qed (use o' psize dvd S in \<open>auto simp: flash_good_def\<close>)
qed

lemma flash_read_loop_spec:
  assumes "flash_partition part_read img psize" and "SPI_FLASH_SEC_SIZE dvd psize"
    and "flash_good img fl" and "flash_pos fl + n \<le> psize"
  shows "\<exists>fl'. flash_read_loop part_read fl n out =
      (Ret (int (length out + n), out @ map img [flash_pos fl..<flash_pos fl + n]), fl') \<and>
      flash_good img fl' \<and> flash_pos fl' = flash_pos fl + n"
  using assms(3,4)
proof (induction n arbitrary: fl out rule: less_induct)
  case (less n)
  show ?case
  proof (cases "n = 0")
    case True
    with less.prems show ?thesis by (simp add: flash_read_loop.simps)
  next
    case n: False
    then have "flash_pos fl < psize" using less.prems(2) by simp
    from flash_refill_inside [OF assms(1,2) less.prems(1) this] obtain fl' where
      re: "flash_refill part_read fl = (Inr (), fl')" and g: "flash_good img fl'"
      and len: "0 < fl_buflen fl'" and pos: "flash_pos fl' = flash_pos fl" by metis
    let ?m = "min n (fl_buflen fl')"
    let ?chunk = "take ?m (drop (fl_bufpos fl') (fl_buf fl'))"
    let ?fl = "fl'\<lparr>fl_bufpos := fl_bufpos fl' + ?m, fl_buflen := fl_buflen fl' - ?m\<rparr>"
    have m: "0 < ?m" "?m \<le> n" using n len by auto
    have m0: "?m = 0 \<longleftrightarrow> False" using m by simp
    have S: "fl_bufpos fl' + fl_buflen fl' = SPI_FLASH_SEC_SIZE" "SPI_FLASH_SEC_SIZE \<le> fl_offset fl'"
        "fl_buf fl' = map img [fl_offset fl' - SPI_FLASH_SEC_SIZE..<fl_offset fl']"
      using g len by (auto simp: flash_good_def)
    have good: "flash_good img ?fl"
      using g len by (auto simp: flash_good_def)
    have pos': "flash_pos ?fl = flash_pos fl + ?m"
      using S m(1) pos by (auto simp: flash_pos_def)
    have start: "fl_offset fl' - SPI_FLASH_SEC_SIZE + fl_bufpos fl' = flash_pos fl"
      using S pos by (simp add: flash_pos_def)
    have end': "flash_pos fl + ?m \<le> fl_offset fl'"
      using S pos by (auto simp: flash_pos_def)
    have chunk: "?chunk = map img [flash_pos fl..<flash_pos fl + ?m]"
      unfolding S(3) using start end' by (simp add: drop_map take_map add.commute)
    have "fl_bufpos fl' + ?m \<le> length (fl_buf fl')"
      using g S(1) by (simp add: flash_good_def)
    then have step: "flash_read_loop part_read fl n out = flash_read_loop part_read ?fl (n - ?m) (out @ ?chunk)"
      using n re by (subst flash_read_loop.simps) (simp add: Let_def m0 del: min_0L min_0R)
    have "n - ?m < n" and "flash_pos ?fl + (n - ?m) \<le> psize"
      using m less.prems(2) pos' by simp_all
    from less.IH [OF this(1) good this(2), of "out @ ?chunk"] obtain fl'' where
      "flash_read_loop part_read ?fl (n - ?m) (out @ ?chunk) =
         (Ret (int (length (out @ ?chunk) + (n - ?m)),
           (out @ ?chunk) @ map img [flash_pos ?fl..<flash_pos ?fl + (n - ?m)]), fl'')"
      "flash_good img fl''" "flash_pos fl'' = flash_pos ?fl + (n - ?m)" by blast
    moreover have "map img [flash_pos fl..<flash_pos fl + n] =
        ?chunk @ map img [flash_pos ?fl..<flash_pos ?fl + (n - ?m)]"
      unfolding chunk pos' using m(2) upt_split [of "flash_pos fl" "flash_pos fl + ?m" "flash_pos fl + n"] by simp
    ultimately show ?thesis
      using m pos' by (simp add: step chunk)
  qed
qed

section \<open>Properties\<close>

text \<open>C15: The file reader's buffering is invisible: whatever the buffer size and however many bytes
  each system call delivers, two successive reads return consecutive pieces of the file, cut
  short only at its end, without leaving the buffer and without looping.\<close>

theorem file_reader_transparent:
  assumes "posix_read os_read left" and "0 < bufsize"
  shows "\<exists>fr1 fr2.
    lib_file_read os_read (lib_file_new f bufsize) m =
      (Ret (int (min m (length (left f))), take m (left f)), fr1) \<and>
    lib_file_read os_read fr1 n =
      (Ret (int (min n (length (left f) - m)), take n (drop m (left f))), fr2)"
proof -
  let ?fr = "lib_file_new f bufsize"
  note src = byte_source.read_cases [OF file_byte_source [OF assms(1)]]
  have "file_good ?fr" and c: "file_content left ?fr = left f"
    using assms(2) by (simp_all add: file_good_def file_content_def lib_file_new_def)
  then obtain fr1 where 1: "lib_file_read os_read ?fr m =
        (Ret (int (min m (length (left f))), take m (left f)), fr1)"
      "file_good fr1" "file_content left fr1 = drop m (left f)"
    by (metis src)
  then obtain fr2 where "lib_file_read os_read fr1 n =
      (Ret (int (min n (length (left f) - m)), take n (drop m (left f))), fr2)"
    by (metis src length_drop)
  with 1 show ?thesis by blast
qed

lemma file_reader_transparent_witness:
  "\<exists>fr1 fr2.
    lib_file_read (\<lambda>f n. (int (length (take (min n 2) f)), take (min n 2) f, drop (min n 2) f))
      (lib_file_new [1, 2, 3, 4, 5 :: u8] 3) 4 = (Ret (4, [1, 2, 3, 4]), fr1) \<and>
    lib_file_read (\<lambda>f n. (int (length (take (min n 2) f)), take (min n 2) f, drop (min n 2) f))
      fr1 4 = (Ret (1, [5]), fr2)"
proof -
  have "posix_read (\<lambda>f n. (int (length (take (min n 2) f)), take (min n 2) f, drop (min n 2) f))
      (\<lambda>f. f :: u8 list)"
    unfolding posix_read_def
  proof (intro allI)
    fix f :: "u8 list" and n :: nat
    show "\<exists>k f'. (int (length (take (min n 2) f)), take (min n 2) f, drop (min n 2) f) =
        (int k, take k f, f') \<and> k \<le> n \<and> k \<le> length f \<and> f' = drop k f \<and> (k = 0 \<longrightarrow> n = 0 \<or> f = [])"
      by (intro exI [of _ "min (length f) (min n 2)"] exI [of _ "drop (min n 2) f"])
        (auto simp: min_def)
  qed
  from file_reader_transparent [OF this, of 3 "[1, 2, 3, 4, 5]" 4 4] show ?thesis
    by simp
qed

text \<open>C26: A flash reader started anywhere in a partition whose size is a whole number of sectors
  returns exactly the bytes of the partition from there on, in pieces of any length, although it
  always reads aligned sectors; it stays inside its sector buffer.\<close>

theorem flash_reader_reads_partition:
  assumes "flash_partition part_read img psize" and "SPI_FLASH_SEC_SIZE dvd psize"
    and "off + m + n \<le> psize"
  shows "\<exists>fl1 fl2.
    lib_flash_read part_read (lib_flash_new off) m = (Ret (int m, map img [off..<off + m]), fl1) \<and>
    lib_flash_read part_read fl1 n = (Ret (int n, map img [off + m..<off + m + n]), fl2)"
proof -
  have g: "flash_good img (lib_flash_new off)" and p: "flash_pos (lib_flash_new off) = off"
    by (simp_all add: flash_good_def lib_flash_new_def flash_pos_def)
  from flash_read_loop_spec [OF assms(1,2) g, of m "[]"] assms(3) obtain fl1 where
    1: "lib_flash_read part_read (lib_flash_new off) m = (Ret (int m, map img [off..<off + m]), fl1)"
      "flash_good img fl1" "flash_pos fl1 = off + m"
    by (auto simp: lib_flash_read_def p)
  from flash_read_loop_spec [OF assms(1,2) 1(2), of n "[]"] assms(3) 1(3) obtain fl2 where
    "lib_flash_read part_read fl1 n = (Ret (int n, map img [off + m..<off + m + n]), fl2)"
    by (auto simp: lib_flash_read_def)
  with 1 show ?thesis by blast
qed

lemma flash_reader_reads_partition_witness:
  "\<exists>fl1 fl2.
    lib_flash_read (\<lambda>off n. if off < 8192 then (0, map of_nat [off..<off + n]) else (-1, []))
      (lib_flash_new 4094) 3 = (Ret (3, map of_nat [4094..<4097]), fl1) \<and>
    lib_flash_read (\<lambda>off n. if off < 8192 then (0, map of_nat [off..<off + n]) else (-1, []))
      fl1 2 = (Ret (2, map of_nat [4097..<4099]), fl2)"
proof -
  have "flash_partition (\<lambda>off n. if off < 8192 then (0, map of_nat [off..<off + n]) else (-1, []))
      of_nat 8192"
    by (auto simp: flash_partition_def)
  from flash_reader_reads_partition [OF this, of 4094 3 2] show ?thesis
    by (simp add: SPI_FLASH_SEC_SIZE_def)
qed

end
