(* ===== verification/Inflate_Bits.thy ===== *)
theory Inflate_Bits
  imports Readers
begin

text \<open>
  The state of the deflate decoder (\<open>struct lib_deflate_reader\<close>, components/png/deflate_reader.h),
  its bit reader (\<open>lib_deflate_get_bits\<close>, \<open>lib_deflate_get_bits_long\<close>) and the abstract bit stream
  the bit reader implements.
\<close>

section \<open>State and error codes\<close>

datatype lib_deflate_state =
    LIB_DEFLATE_STATE_NEW_BLOCK
  | LIB_DEFLATE_STATE_STORED_BLOCK
  | LIB_DEFLATE_STATE_HUFFMAN
  | LIB_DEFLATE_STATE_HUFFMAN_REPEAT

datatype lib_deflate_error =
    DEFLATE_UNEXPECTED_END_OF_FILE
  | DEFLATE_UNBALANCED_HUFFMAN_TREE
  | DEFLATE_INVALID_COPY_LENGTH
  | DEFLATE_RESERVED_BLOCK_TYPE
  | DEFLATE_DYNAMIC_HUFFMAN_SETUP_ERROR
  | DEFLATE_HUFFMAN_RESERVED_LENGTH
  | DEFLATE_HUFFMAN_INVALID_DISTANCE

text \<open>The C code returns the negated enumeration constant.\<close>

fun deflate_err :: "lib_deflate_error \<Rightarrow> int" where
  "deflate_err DEFLATE_UNEXPECTED_END_OF_FILE = - 0x1001"
| "deflate_err DEFLATE_UNBALANCED_HUFFMAN_TREE = - 0x1002"
| "deflate_err DEFLATE_INVALID_COPY_LENGTH = - 0x1003"
| "deflate_err DEFLATE_RESERVED_BLOCK_TYPE = - 0x1004"
| "deflate_err DEFLATE_DYNAMIC_HUFFMAN_SETUP_ERROR = - 0x1005"
| "deflate_err DEFLATE_HUFFMAN_RESERVED_LENGTH = - 0x1006"
| "deflate_err DEFLATE_HUFFMAN_INVALID_DISTANCE = - 0x1007"

text \<open>
  \<open>read_p\<close> is the reader's state \<open>'s\<close>; \<open>read\<close> is an argument of the operations.  The window
  \<open>look_behind\<close> is a total function used at indices below 32768.  The two Huffman trees are the
  entries written by the last table construction.
\<close>

record 's lib_deflate_reader =
  read_p :: 's
  bitbuf0 :: u8
  bitbuf1 :: u8
  bitlen :: nat
  is_last_block :: bool
  dstate :: lib_deflate_state
  look_behind :: "nat \<Rightarrow> u8"
  lb_size :: nat
  lb_pos :: nat
  copy_dist :: nat
  copy_len :: nat
  huffman_lc_tree :: "nat list"
  huffman_dc_tree :: "nat list"

definition lib_deflate_init :: "'s \<Rightarrow> 's lib_deflate_reader" where
  "lib_deflate_init s =
     \<lparr>read_p = s, bitbuf0 = 0, bitbuf1 = 0, bitlen = 0, is_last_block = False,
      dstate = LIB_DEFLATE_STATE_NEW_BLOCK, look_behind = (\<lambda>_. 0), lb_size = 0, lb_pos = 0,
      copy_dist = 0, copy_len = 0, huffman_lc_tree = [], huffman_dc_tree = []\<rparr>"

section \<open>Reading bits\<close>

text \<open>The return value of a short or failed read: the reader's own error, or end of file.\<close>

definition short_read :: "int \<Rightarrow> 'a cres" where
  "short_read res = Err (if res < 0 then res else deflate_err DEFLATE_UNEXPECTED_END_OF_FILE)"

text \<open>The common tail: shift the consumed bits out, mask, and count.\<close>

definition take_bits :: "'s lib_deflate_reader \<Rightarrow> nat \<Rightarrow> nat \<Rightarrow> nat cres \<times> 's lib_deflate_reader" where
  "take_bits dr num value =
     (Ret (drop_bit (8 - bitlen dr) value mod 2 ^ num),
      dr\<lparr>bitlen := nat ((int (bitlen dr) - int num) mod 8)\<rparr>)"

definition lib_deflate_get_bits ::
  "'s reader \<Rightarrow> 's lib_deflate_reader \<Rightarrow> nat \<Rightarrow> nat cres \<times> 's lib_deflate_reader" where
  "lib_deflate_get_bits rd dr num =
     (let value = unat (bitbuf1 dr)
      in if bitlen dr < num
         then case rd (read_p dr) 1 of
             (Ret (res, bs), s) \<Rightarrow>
               (let dr' = dr\<lparr>read_p := s, bitbuf1 := hd (bs @ [bitbuf1 dr])\<rparr>
                in if res < 1 then (short_read res, dr')
                   else take_bits dr' num (value OR push_bit 8 (unat (bitbuf1 dr'))))
           | (Err e, s) \<Rightarrow> (Err e, dr\<lparr>read_p := s\<rparr>)
           | (Oob, s) \<Rightarrow> (Oob, dr\<lparr>read_p := s\<rparr>)
           | (Spin, s) \<Rightarrow> (Spin, dr\<lparr>read_p := s\<rparr>)
         else take_bits dr num value)"

definition lib_deflate_get_bits_long ::
  "'s reader \<Rightarrow> 's lib_deflate_reader \<Rightarrow> nat \<Rightarrow> nat cres \<times> 's lib_deflate_reader" where
  "lib_deflate_get_bits_long rd dr num =
     (let value = unat (bitbuf1 dr)
      in if bitlen dr + 8 < num
         then case rd (read_p dr) 2 of
             (Ret (res, bs), s) \<Rightarrow>
               (let buf = bs @ drop (length bs) [bitbuf0 dr, bitbuf1 dr];
                    dr' = dr\<lparr>read_p := s, bitbuf0 := buf ! 0, bitbuf1 := buf ! 1\<rparr>
                in if res < 2 then (short_read res, dr')
                   else take_bits dr' num
                          (value OR push_bit 8 (unat (bitbuf0 dr') + 256 * unat (bitbuf1 dr'))))
           | (Err e, s) \<Rightarrow> (Err e, dr\<lparr>read_p := s\<rparr>)
           | (Oob, s) \<Rightarrow> (Oob, dr\<lparr>read_p := s\<rparr>)
           | (Spin, s) \<Rightarrow> (Spin, dr\<lparr>read_p := s\<rparr>)
         else lib_deflate_get_bits rd dr num)"

text \<open>
  The branch \<open>num > dr->bitlen\<close> of \<open>lib_deflate_get_bits_long\<close> and its tail are word for word those
  of \<open>lib_deflate_get_bits\<close>, which the last line shares.
\<close>

section \<open>The bit stream\<close>

definition byte_bits :: "u8 \<Rightarrow> bool list" where
  "byte_bits b = map (bit b) [0..<8]"

definition bytes_bits :: "u8 list \<Rightarrow> bool list" where
  "bytes_bits bs = concat (map byte_bits bs)"

text \<open>A list of bits as a number, first bit least significant; and most significant first.\<close>

fun lsb_val :: "bool list \<Rightarrow> nat" where
  "lsb_val [] = 0"
| "lsb_val (b # bs) = of_bool b + 2 * lsb_val bs"

fun msb_val :: "nat \<Rightarrow> bool list \<Rightarrow> nat" where
  "msb_val v [] = v"
| "msb_val v (b # bs) = msb_val (2 * v + of_bool b) bs"

lemma length_byte_bits [simp]: "length (byte_bits b) = 8"
  by (simp add: byte_bits_def)

lemma bytes_bits_simps [simp]:
  "bytes_bits [] = []" "bytes_bits (b # bs) = byte_bits b @ bytes_bits bs"
  by (simp_all add: bytes_bits_def)

lemma bytes_bits_append [simp]: "bytes_bits (xs @ ys) = bytes_bits xs @ bytes_bits ys"
  by (simp add: bytes_bits_def)

lemma length_bytes_bits [simp]: "length (bytes_bits bs) = 8 * length bs"
  by (induction bs) simp_all

lemma lsb_val_bits: "lsb_val (map (bit a) [m..<m + n]) = drop_bit m a mod 2 ^ n" for a :: nat
proof (induction n arbitrary: m)
  case 0
  then show ?case by simp
next
  case (Suc n)
  have "[m..<m + Suc n] = m # [Suc m..<Suc m + n]"
    by (simp add: upt_conv_Cons)
  then have "lsb_val (map (bit a) [m..<m + Suc n]) = of_bool (bit a m) + 2 * (drop_bit (Suc m) a mod 2 ^ n)"
    by (simp only: list.map lsb_val.simps Suc.IH)
  also have "\<dots> = of_bool (odd (drop_bit m a)) + 2 * take_bit n (drop_bit m a div 2)"
    by (simp add: bit_iff_odd_drop_bit take_bit_eq_mod drop_bit_Suc drop_bit_half)
  also have "\<dots> = take_bit (Suc n) (drop_bit m a)"
    unfolding take_bit_Suc by (simp add: mod_2_eq_odd mult.commute)
  finally show ?case by (simp only: take_bit_eq_mod)
qed

lemma lsb_val_less: "lsb_val bs < 2 ^ length bs"
  by (induction bs) (auto simp: of_bool_def)

lemma msb_val_append: "msb_val v (xs @ ys) = msb_val (msb_val v xs) ys"
  by (induction v xs rule: msb_val.induct) simp_all

section \<open>The bit reader implements the bit stream\<close>

definition bit_stream :: "('s \<Rightarrow> u8 list) \<Rightarrow> 's lib_deflate_reader \<Rightarrow> bool list" where
  "bit_stream content dr =
     map (bit (bitbuf1 dr)) [8 - bitlen dr..<8] @ bytes_bits (content (read_p dr))"

text \<open>A step of the bit reader changes only the reader and the bit buffer.\<close>

definition bits_only :: "'s lib_deflate_reader \<Rightarrow> 's lib_deflate_reader \<Rightarrow> bool" where
  "bits_only dr dr' \<longleftrightarrow> is_last_block dr' = is_last_block dr \<and> dstate dr' = dstate dr \<and>
    look_behind dr' = look_behind dr \<and> lb_size dr' = lb_size dr \<and> lb_pos dr' = lb_pos dr \<and>
    copy_dist dr' = copy_dist dr \<and> copy_len dr' = copy_len dr \<and>
    huffman_lc_tree dr' = huffman_lc_tree dr \<and> huffman_dc_tree dr' = huffman_dc_tree dr"

lemma bits_only_refl [simp]: "bits_only dr dr"
  by (simp add: bits_only_def)

lemma bits_only_trans [trans]: "bits_only a b \<Longrightarrow> bits_only b c \<Longrightarrow> bits_only a c"
  by (simp add: bits_only_def)

lemma bits_only_update [simp]:
  "bits_only dr (dr\<lparr>read_p := s\<rparr>)"
  "bits_only dr (dr\<lparr>read_p := s, bitbuf1 := b1, bitlen := n\<rparr>)"
  "bits_only dr (dr\<lparr>read_p := s, bitbuf1 := b1\<rparr>)"
  "bits_only dr (dr\<lparr>read_p := s, bitbuf0 := b0, bitbuf1 := b1\<rparr>)"
  "bits_only dr (dr\<lparr>read_p := s, bitbuf0 := b0, bitbuf1 := b1, bitlen := n\<rparr>)"
  "bits_only dr (dr\<lparr>bitlen := n\<rparr>)"
  by (simp_all add: bits_only_def)

lemma bit_join8:
  fixes a b :: nat
  assumes "a < 256"
  shows "bit (a OR push_bit 8 b) i \<longleftrightarrow> (if i < 8 then bit a i else bit b (i - 8))"
proof -
  from assms have "a = take_bit 8 a" by (simp add: take_bit_nat_eq_self)
  then have "bit a i \<Longrightarrow> i < 8" by (metis bit_take_bit_iff)
  then show ?thesis by (auto simp: bit_or_iff bit_push_bit_iff)
qed

lemma add_join8:
  fixes a b :: nat
  assumes "a < 256"
  shows "a + 256 * b = a OR push_bit 8 b"
proof -
  from assms have "a = take_bit 8 a" by (simp add: take_bit_nat_eq_self)
  then have "\<not> bit a n \<or> \<not> bit (push_bit 8 b) n" for n
    by (metis bit_push_bit_iff bit_take_bit_iff not_le)
  then have "a + push_bit 8 b = a OR push_bit 8 b"
    by (rule disjunctive_add)
  then show ?thesis by (simp add: push_bit_eq_mult mult.commute)
qed

lemma bit_unat: "bit (unat w) i = bit w i"
  by (simp add: bit_unsigned_iff)

text \<open>
  The bit buffer holds the \<open>bl\<close> top bits of \<open>b1\<close>; the value read so far continues them with
  the bytes \<open>bs\<close> just read.
\<close>

lemma take_bits_value:
  assumes "bl \<le> 8" and "num \<le> bl + 8 * length bs"
    and "\<And>i. i < 8 \<Longrightarrow> bit value i = bit b1 i"
    and "\<And>i. i < 8 * length bs \<Longrightarrow> bit value (8 + i) = bytes_bits bs ! i"
  shows "drop_bit (8 - bl) value mod 2 ^ num =
     lsb_val (take num (map (bit b1) [8 - bl..<8] @ bytes_bits bs))"
proof -
  have "map (bit value) [8 - bl..<8 - bl + num] = take num (map (bit b1) [8 - bl..<8] @ bytes_bits bs)"
  proof (rule nth_equalityI)
    show "length (map (bit value) [8 - bl..<8 - bl + num]) =
        length (take num (map (bit b1) [8 - bl..<8] @ bytes_bits bs))"
      using assms(1,2) by simp
  next
    fix i assume "i < length (map (bit value) [8 - bl..<8 - bl + num])"
    then have i: "i < num" by simp
    show "map (bit value) [8 - bl..<8 - bl + num] ! i =
        take num (map (bit b1) [8 - bl..<8] @ bytes_bits bs) ! i"
    proof (cases "i < bl")
      case True
      then show ?thesis
        using i assms(1) assms(3) [of "8 - bl + i"] by (simp add: nth_append)
    next
      case False
      then have "8 - bl + i = 8 + (i - bl)" using assms(1) by simp
      moreover have "i - bl < 8 * length bs" using assms(2) i False by simp
      ultimately show ?thesis
        using i assms(1) False assms(4) [of "i - bl"] by (simp add: nth_append)
    qed
  qed
  then show ?thesis
    by (simp add: lsb_val_bits [symmetric])
qed

lemma take_bits_rest:
  assumes "bl \<le> 8" and "bl' < 8" and "bl' + num = bl + 8 * length bs" and "bs \<noteq> [] \<or> num \<le> bl"
  shows "drop num (map (bit b1) [8 - bl..<8] @ bytes_bits bs) = map (bit (last (b1 # bs))) [8 - bl'..<8]"
proof (cases bs rule: rev_cases)
  case Nil
  with assms have "8 + num - bl = 8 - bl'" by simp
  with Nil show ?thesis using assms by (simp add: drop_map)
next
  case (snoc bs' x)
  have "8 * length bs' + bl \<le> num"
    using assms snoc by simp
  then have "drop num (map (bit b1) [8 - bl..<8] @ bytes_bits bs) =
      drop (num - bl - 8 * length bs') (byte_bits x)"
    using assms(1) snoc by simp
  also have "num - bl - 8 * length bs' = 8 - bl'"
    using assms snoc by simp
  finally show ?thesis
    using snoc by (simp add: byte_bits_def drop_map)
qed

lemma bitlen_refill:
  assumes "num \<le> bl + 8 * k" and "bl + 8 * k < num + 8"
  shows "nat ((int bl - int num) mod 8) = bl + 8 * k - num"
proof -
  have "(int bl - int num) mod 8 = (int (bl + 8 * k - num) + 8 * (- int k)) mod 8"
    using assms(1) by (simp add: of_nat_diff)
  also have "\<dots> = int (bl + 8 * k - num) mod 8"
    by (rule mod_mult_self2)
  also have "\<dots> = int (bl + 8 * k - num)"
    using assms(2) by (intro mod_pos_pos_trivial) auto
  finally show ?thesis by simp
qed

definition bits_good :: "('s \<Rightarrow> bool) \<Rightarrow> 's lib_deflate_reader \<Rightarrow> bool" where
  "bits_good good dr \<longleftrightarrow> good (read_p dr) \<and> bitlen dr < 8"

context byte_source
begin

lemma get_bits_wide:
  assumes "bits_good good dr" and "num \<le> bitlen dr + 8"
  shows "\<exists>dr'. bits_good good dr' \<and> bits_only dr dr' \<and>
    lib_deflate_get_bits rd dr num =
      (if num \<le> length (bit_stream content dr) then Ret (lsb_val (take num (bit_stream content dr)))
       else Err (deflate_err DEFLATE_UNEXPECTED_END_OF_FILE), dr') \<and>
    (num \<le> length (bit_stream content dr) \<longrightarrow> bit_stream content dr' = drop num (bit_stream content dr))"
proof (cases "bitlen dr < num")
  case False
  let ?bl' = "nat ((int (bitlen dr) - int num) mod 8)"
  have bl: "bitlen dr < 8" using assms(1) by (simp add: bits_good_def)
  have nat: "nat (int (bitlen dr) - int num) = bitlen dr - num"
    by simp
  have bl': "?bl' = bitlen dr - num" "bitlen dr - num + num = bitlen dr + 8 * length ([] :: u8 list)"
    using False bl by simp_all
  have "bit (unat (bitbuf1 dr)) i = bit (bitbuf1 dr) i" for i by (rule bit_unat)
  then have v: "drop_bit (8 - bitlen dr) (unat (bitbuf1 dr)) mod 2 ^ num =
      lsb_val (take num (bit_stream content dr))"
    using False bl take_bits_value [of "bitlen dr" num "[]" "unat (bitbuf1 dr)" "bitbuf1 dr"]
    by (simp add: bit_stream_def)
  moreover have "drop num (bit_stream content dr) =
      map (bit (bitbuf1 dr)) [8 - (bitlen dr - num)..<8] @ bytes_bits (content (read_p dr))"
    using False bl take_bits_rest [OF _ _ bl'(2), of "bitbuf1 dr"] by (simp add: bit_stream_def)
  ultimately show ?thesis
    using False assms(1) bl
    by (intro exI [of _ "dr\<lparr>bitlen := ?bl'\<rparr>"])
      (auto simp: lib_deflate_get_bits_def take_bits_def bits_good_def bit_stream_def bl'(1) nat simp del: nat_minus_as_int)
next
  case True
  from assms(1) have g: "good (read_p dr)" and bl: "bitlen dr < 8" by (simp_all add: bits_good_def)
  obtain s' where rd: "rd (read_p dr) 1 =
      (Ret (int (min 1 (length (content (read_p dr)))), take 1 (content (read_p dr))), s')"
    and s': "good s'" "content s' = drop 1 (content (read_p dr))"
    by (rule read_cases [OF g])
  show ?thesis
  proof (cases "content (read_p dr)")
    case Nil
    then show ?thesis
      using True rd s' bl
      by (intro exI [of _ "dr\<lparr>read_p := s', bitbuf1 := bitbuf1 dr\<rparr>"])
        (auto simp: lib_deflate_get_bits_def Let_def short_read_def bits_good_def bit_stream_def)
  next
    case (Cons x xs)
    let ?bl' = "bitlen dr + 8 * 1 - num"
    have eq: "nat ((int (bitlen dr) - int num) mod 8) = ?bl'"
      by (rule bitlen_refill) (use True bl assms(2) in simp_all)
    have bl': "?bl' < 8" "?bl' + num = bitlen dr + 8 * length [x]"
      using True bl assms(2) by simp_all
    let ?v = "unat (bitbuf1 dr) OR push_bit 8 (unat x)"
    have "drop_bit (8 - bitlen dr) ?v mod 2 ^ num =
        lsb_val (take num (map (bit (bitbuf1 dr)) [8 - bitlen dr..<8] @ bytes_bits [x]))"
      using True bl assms(2) unat_u8_less [of "bitbuf1 dr"]
      by (intro take_bits_value) (auto simp: bit_join8 bit_unat byte_bits_def)
    moreover have "take num (map (bit (bitbuf1 dr)) [8 - bitlen dr..<8] @ bytes_bits [x])
        = take num (bit_stream content dr)"
      using Cons bl assms(2) by (simp add: bit_stream_def)
    moreover have "drop num (bit_stream content dr) =
        map (bit x) [8 - ?bl'..<8] @ bytes_bits xs"
      using take_bits_rest [OF _ bl', of "bitbuf1 dr"] Cons bl assms(2) True by (simp add: bit_stream_def)
    ultimately show ?thesis
      using True rd s' bl' Cons assms(2) bl
      by (intro exI [of _ "dr\<lparr>read_p := s', bitbuf1 := x, bitlen := ?bl'\<rparr>"])
        (simp add: lib_deflate_get_bits_def Let_def take_bits_def bits_good_def bit_stream_def eq)
  qed
qed

lemmas get_bits_spec = get_bits_wide [OF _ trans_le_add2]

lemma get_bits_long_spec:
  assumes "bits_good good dr" and "num \<le> 16"
  shows "\<exists>dr'. bits_good good dr' \<and> bits_only dr dr' \<and>
    lib_deflate_get_bits_long rd dr num =
      (if num \<le> length (bit_stream content dr) then Ret (lsb_val (take num (bit_stream content dr)))
       else Err (deflate_err DEFLATE_UNEXPECTED_END_OF_FILE), dr') \<and>
    (num \<le> length (bit_stream content dr) \<longrightarrow> bit_stream content dr' = drop num (bit_stream content dr))"
proof (cases "bitlen dr + 8 < num")
  case False
  then show ?thesis
    using get_bits_wide [OF assms(1), of num] by (simp add: lib_deflate_get_bits_long_def)
next
  case True
  from assms(1) have g: "good (read_p dr)" and bl: "bitlen dr < 8" by (simp_all add: bits_good_def)
  obtain s' where rd: "rd (read_p dr) 2 =
      (Ret (int (min 2 (length (content (read_p dr)))), take 2 (content (read_p dr))), s')"
    and s': "good s'" "content s' = drop 2 (content (read_p dr))"
    by (rule read_cases [OF g])
  show ?thesis
  proof (cases "length (content (read_p dr)) < 2")
    case short: True
    then have "\<not> num \<le> length (bit_stream content dr)"
      using True bl by (simp add: bit_stream_def)
    moreover have "min 2 (length (content (read_p dr))) < 2" using short by simp
    ultimately show ?thesis
      using True rd s' bl short
      by (intro exI [of _ "snd (lib_deflate_get_bits_long rd dr num)"])
        (simp add: lib_deflate_get_bits_long_def Let_def short_read_def bits_good_def)
  next
    case False
    then obtain x y xs where c: "content (read_p dr) = x # y # xs"
      by (cases "content (read_p dr)"; cases "tl (content (read_p dr))") auto
    let ?bl' = "bitlen dr + 8 * 2 - num"
    have eq: "nat ((int (bitlen dr) - int num) mod 8) = ?bl'"
      by (rule bitlen_refill) (use True bl assms(2) in simp_all)
    have bl': "?bl' < 8" "?bl' + num = bitlen dr + 8 * length [x, y]"
      using True bl assms(2) by simp_all
    let ?v = "unat (bitbuf1 dr) OR push_bit 8 (unat x + 256 * unat y)"
    have xy: "unat x + 256 * unat y = unat x OR push_bit 8 (unat y)"
      by (rule add_join8) (rule unat_u8_less)
    have "drop_bit (8 - bitlen dr) ?v mod 2 ^ num =
        lsb_val (take num (map (bit (bitbuf1 dr)) [8 - bitlen dr..<8] @ bytes_bits [x, y]))"
    proof (rule take_bits_value)
      fix i
      show "bit ?v i = bit (bitbuf1 dr) i" if "i < 8"
        using that by (simp add: bit_join8 bit_unat unat_u8_less)
      show "bit ?v (8 + i) = bytes_bits [x, y] ! i" if "i < 8 * length [x, y]"
        using that unfolding xy
        by (subst bit_join8 [OF unat_u8_less])
          (simp add: bit_join8 [OF unat_u8_less] bit_unat nth_append byte_bits_def del: push_bit_or)
    qed (use True bl assms(2) in auto)
    moreover have "take num (map (bit (bitbuf1 dr)) [8 - bitlen dr..<8] @ bytes_bits [x, y])
        = take num (bit_stream content dr)"
      using c bl assms(2) True by (simp add: bit_stream_def)
    moreover have "drop num (bit_stream content dr) =
        map (bit y) [8 - ?bl'..<8] @ bytes_bits xs"
      using take_bits_rest [OF _ bl', of "bitbuf1 dr"] c bl assms(2) True by (simp add: bit_stream_def)
    ultimately show ?thesis
      using True rd s' bl' c assms(2) bl
      by (intro exI [of _ "dr\<lparr>read_p := s', bitbuf0 := x, bitbuf1 := y, bitlen := ?bl'\<rparr>"])
        (simp add: lib_deflate_get_bits_long_def Let_def take_bits_def bits_good_def bit_stream_def eq)
  qed
qed

end

end
