(* ===== verification/Inflate_Huffman.thy ===== *)
theory Inflate_Huffman
  imports Inflate_Bits
begin

text \<open>
  Huffman tables of the deflate decoder: \<open>lib_deflate_build_huffman\<close> and
  \<open>lib_deflate_get_huffman\<close> (components/png/deflate_reader.c).  The main results: a table built
  from balanced code lengths fits its array, decoding with it never leaves the array, and it
  decodes every canonical code word of RFC 1951.
\<close>

section \<open>Building a table\<close>

text \<open>
  The scan \<open>for (; i<tbl_len; i++) if (tbl[i] == bits) *tree++ = i\<close>: the symbols whose code has
  \<open>bits\<close> bits, in increasing order.
\<close>

fun huff_collect :: "nat list \<Rightarrow> nat \<Rightarrow> nat \<Rightarrow> nat list" where
  "huff_collect [] i bits = []"
| "huff_collect (x # xs) i bits =
     (if x = bits then i # huff_collect xs (Suc i) bits else huff_collect xs (Suc i) bits)"

text \<open>
  One group per code length in use: a head word (number of symbols, number of further bits to
  read) and the symbols; a jump of more than 8 bits needs a head word of its own.  The result is
  the array written and the sum \<open>total\<close> of the code space used.
\<close>

fun huff_levels :: "nat list \<Rightarrow> nat list \<Rightarrow> nat \<Rightarrow> nat \<Rightarrow> nat list \<times> nat" where
  "huff_levels tbl [] bits_prev tot = ([], tot)"
| "huff_levels tbl (bits # rest) bits_prev tot =
     (case huff_collect tbl 0 bits of
        [] \<Rightarrow> huff_levels tbl rest bits_prev tot
      | s # syms \<Rightarrow>
          (let jump = (if bits - bits_prev > 8 then [8] else []);
               bits_prev' = (if bits - bits_prev > 8 then bits_prev + 8 else bits_prev);
               count = length (s # syms);
               base = take_bit 16 (push_bit 4 count OR (bits - bits_prev'));
               (tree, tot') = huff_levels tbl rest bits
                                  (tot + drop_bit bits (0x10000 * count))
           in (jump @ base # s # syms @ tree, tot')))"

text \<open>\<open>cap\<close> is the size of the array \<open>tree\<close> points to.\<close>

definition lib_deflate_build_huffman :: "nat list \<Rightarrow> nat \<Rightarrow> nat list cres \<times> nat list" where
  "lib_deflate_build_huffman tbl cap =
     (let (tree, tot) = huff_levels tbl [1..<16] 0 0
      in (if cap < length tree then Oob
          else if tot \<noteq> 0x10000 then Err (deflate_err DEFLATE_UNBALANCED_HUFFMAN_TREE)
          else Ret tree, tree))"

section \<open>Decoding a symbol\<close>

text \<open>The fall-through \<open>switch\<close> that shifts \<open>res\<close> into \<open>value\<close>, lowest bit first.\<close>

fun huff_shift :: "nat \<Rightarrow> nat \<Rightarrow> nat \<Rightarrow> nat" where
  "huff_shift 0 value res = value"
| "huff_shift (Suc 0) value res = 2 * value + res"
| "huff_shift (Suc (Suc n)) value res = huff_shift (Suc n) (2 * value + res mod 2) (res div 2)"

text \<open>The loop walks the table; \<open>tbl\<close> is what is left of the array, so running off it is \<open>Oob\<close>.\<close>

function huffman_walk ::
  "'s reader \<Rightarrow> 's lib_deflate_reader \<Rightarrow> nat list \<Rightarrow> nat \<Rightarrow> nat cres \<times> 's lib_deflate_reader" where
  "huffman_walk rd dr tbl value =
     (case tbl of
        [] \<Rightarrow> (Oob, dr)
      | h # rest \<Rightarrow>
          (let entries = drop_bit 4 h; bits = h AND 15
           in case lib_deflate_get_bits rd dr bits of
                (Ret res, dr') \<Rightarrow>
                  (let v = (if bits \<le> 8 then huff_shift bits value res else value)
                   in if v < entries
                      then (case nth_opt rest v of Some s \<Rightarrow> (Ret s, dr') | None \<Rightarrow> (Oob, dr'))
                      else huffman_walk rd dr' (drop entries rest) (v - entries))
              | (e, dr') \<Rightarrow> (e, dr')))"
  by pat_completeness auto
termination
  by (relation "measure (\<lambda>(rd, dr, tbl, value). length tbl)") auto

declare huffman_walk.simps [simp del]

definition lib_deflate_get_huffman ::
  "'s reader \<Rightarrow> 's lib_deflate_reader \<Rightarrow> nat list \<Rightarrow> nat cres \<times> 's lib_deflate_reader" where
  "lib_deflate_get_huffman rd dr tbl = huffman_walk rd dr tbl 0"

section \<open>Canonical codes\<close>

definition huff_count :: "nat list \<Rightarrow> nat \<Rightarrow> nat" where
  "huff_count lens l = (if l = 0 then 0 else length (huff_collect lens 0 l))"

text \<open>RFC 1951, section 3.2.2: the first code word of each length.\<close>

fun first_code :: "nat list \<Rightarrow> nat \<Rightarrow> nat" where
  "first_code lens 0 = 0"
| "first_code lens (Suc l) = 2 * (first_code lens l + huff_count lens l)"

definition end_code :: "nat list \<Rightarrow> nat \<Rightarrow> nat" where
  "end_code lens l = first_code lens l + huff_count lens l"

definition symbol_code :: "nat list \<Rightarrow> nat \<Rightarrow> nat" where
  "symbol_code lens s =
     first_code lens (lens ! s) + length (filter (\<lambda>i. lens ! i = lens ! s) [0..<s])"

definition msb_bits :: "nat \<Rightarrow> nat \<Rightarrow> bool list" where
  "msb_bits n v = rev (map (bit v) [0..<n])"

definition code_word :: "nat list \<Rightarrow> nat \<Rightarrow> bool list" where
  "code_word lens s = msb_bits (lens ! s) (symbol_code lens s)"

lemma huff_collect_filter:
  "huff_collect xs k l = map ((+) k) (filter (\<lambda>i. xs ! i = l) [0..<length xs])"
proof (induction xs k l rule: huff_collect.induct)
  case (1 i bits)
  then show ?case by simp
next
  case (2 x xs i bits)
  have "filter (\<lambda>j. (x # xs) ! j = bits) [0..<length (x # xs)] =
      (if x = bits then [0] else []) @ map Suc (filter (\<lambda>j. xs ! j = bits) [0..<length xs])"
    by (simp add: upt_conv_Cons map_Suc_upt [symmetric] filter_map comp_def del: upt_Suc)
  with 2 show ?case by (auto simp: comp_def)
qed

lemma huff_collect_0: "huff_collect xs 0 l = filter (\<lambda>i. xs ! i = l) [0..<length xs]"
  by (simp add: huff_collect_filter map_idI)

lemma huff_rank:
  assumes "s < length lens" and "lens ! s = l"
  defines "r \<equiv> length (filter (\<lambda>i. lens ! i = l) [0..<s])"
  shows "r < length (huff_collect lens 0 l)" and "huff_collect lens 0 l ! r = s"
proof -
  have "[0..<length lens] = [0..<s] @ s # [Suc s..<length lens]"
    using assms(1) by (metis less_imp_le_nat upt_conv_Cons upt_split zero_le)
  then have "huff_collect lens 0 l =
      filter (\<lambda>i. lens ! i = l) [0..<s] @ s # filter (\<lambda>i. lens ! i = l) [Suc s..<length lens]"
    using assms(2) by (simp add: huff_collect_0)
  then show "r < length (huff_collect lens 0 l)" and "huff_collect lens 0 l ! r = s"
    by (simp_all add: r_def nth_append)
qed

lemma huff_rank_inverse:
  assumes "r < length (huff_collect lens 0 l)"
  defines "s \<equiv> huff_collect lens 0 l ! r"
  shows "s < length lens" and "lens ! s = l"
    and "length (filter (\<lambda>i. lens ! i = l) [0..<s]) = r"
proof -
  have mem: "s \<in> set (huff_collect lens 0 l)"
    unfolding s_def using assms(1) by (rule nth_mem)
  then show s: "s < length lens" "lens ! s = l"
    by (auto simp: huff_collect_0)
  have "distinct (huff_collect lens 0 l)"
    by (simp add: huff_collect_0)
  then show "length (filter (\<lambda>i. lens ! i = l) [0..<s]) = r"
    using huff_rank [OF s] assms(1) s_def by (metis nth_eq_iff_index_eq)
qed

lemma first_code_skip:
  assumes "p < q" and "\<And>l. p < l \<Longrightarrow> l < q \<Longrightarrow> huff_count lens l = 0"
  shows "first_code lens q = 2 ^ (q - p) * end_code lens p"
  using assms
proof (induction q)
  case 0
  then show ?case by simp
next
  case (Suc q)
  show ?case
  proof (cases "p = q")
    case True
    then show ?thesis by (simp add: end_code_def)
  next
    case False
    then have "p < q" using Suc.prems(1) by simp
    with Suc have "first_code lens q = 2 ^ (q - p) * end_code lens p"
      by simp
    then show ?thesis
      using \<open>p < q\<close> Suc.prems(2) by (simp add: Suc_diff_le)
  qed
qed

lemma end_code_le_first: "p < q \<Longrightarrow> 2 ^ (q - p) * end_code lens p \<le> first_code lens q"
proof (induction q)
  case 0
  then show ?case by simp
next
  case (Suc q)
  show ?case
  proof (cases "p = q")
    case True
    then show ?thesis by (simp add: end_code_def)
  next
    case False
    then have "p < q" using Suc.prems by simp
    with Suc.IH have "2 ^ (q - p) * end_code lens p \<le> first_code lens q" by simp
    then show ?thesis
      using \<open>p < q\<close> by (simp add: Suc_diff_le)
  qed
qed

definition huff_balanced :: "nat list \<Rightarrow> bool" where
  "huff_balanced lens \<longleftrightarrow> first_code lens 16 = 2 ^ 16"

lemma end_code_bound:
  assumes "huff_balanced lens" and "l \<le> 15"
  shows "end_code lens l \<le> 2 ^ l"
proof -
  have "2 ^ (16 - l) * end_code lens l \<le> 2 ^ 16"
    using end_code_le_first [of l 16 lens] assms by (simp add: huff_balanced_def)
  also have "(2::nat) ^ 16 = 2 ^ (16 - l) * 2 ^ l"
    using assms(2) by (simp flip: power_add)
  finally show ?thesis by simp
qed

lemma symbol_code_less:
  assumes "huff_balanced lens" and "s < length lens" and "1 \<le> lens ! s" and "lens ! s \<le> 15"
  shows "symbol_code lens s < 2 ^ (lens ! s)"
proof -
  have "symbol_code lens s < end_code lens (lens ! s)"
    using huff_rank(1) [OF assms(2) refl] assms(3)
    by (simp add: symbol_code_def end_code_def huff_count_def)
  also have "\<dots> \<le> 2 ^ (lens ! s)"
    by (rule end_code_bound [OF assms(1,4)])
  finally show ?thesis .
qed

text \<open>The sum the table construction checks is the code space of the canonical code.\<close>

lemma huff_levels_total:
  assumes "1 \<le> q" "q \<le> 16"
  shows "snd (huff_levels lens [q..<16] p tot) + 2 ^ (16 - q) * first_code lens q = tot + first_code lens 16"
  using assms
proof (induction "16 - q" arbitrary: q p tot)
  case 0
  then show ?case by simp
next
  case (Suc d)
  then have q: "q < 16" "[q..<16] = q # [Suc q..<16]" by (simp_all add: upt_conv_Cons)
  have pow: "(2::nat) ^ (16 - q) = 2 * 2 ^ (16 - Suc q)"
    using q(1) by (metis Suc_diff_Suc power_Suc)
  have IH: "snd (huff_levels lens [Suc q..<16] p' tot') + 2 ^ (16 - Suc q) * first_code lens (Suc q) =
      tot' + first_code lens 16" for p' tot'
    using Suc.hyps(1) [of "Suc q"] Suc.hyps(2) q(1) by simp
  show ?case
  proof (cases "huff_collect lens 0 q")
    case Nil
    then show ?thesis
      using IH [of p tot] Suc.prems(1) by (simp add: q(2) pow huff_count_def)
  next
    case (Cons s syms)
    let ?c = "length (s # syms)"
    have "drop_bit q (0x10000 * ?c) = 2 ^ (16 - q) * ?c"
    proof -
      have "(0x10000::nat) = 2 ^ q * 2 ^ (16 - q)"
        using q(1) by (simp flip: power_add)
      then show ?thesis by (simp only: drop_bit_eq_div mult.assoc) simp
    qed
    moreover have "huff_count lens q = ?c"
      using Cons Suc.prems(1) by (simp add: huff_count_def)
    ultimately show ?thesis
      using IH [of q "tot + drop_bit q (0x10000 * ?c)"] Cons
      by (simp add: q(2) pow Let_def case_prod_beta algebra_simps)
  qed
qed


lemma build_huffman_balanced:
  "snd (huff_levels lens [1..<16] 0 0) = 0x10000 \<longleftrightarrow> huff_balanced lens"
  using huff_levels_total [of 1 lens 0 0] by (simp add: huff_balanced_def huff_count_def)

section \<open>Walking a table over a bit list\<close>

function bit_walk :: "nat list \<Rightarrow> nat \<Rightarrow> bool list \<Rightarrow> (nat \<times> bool list) cres" where
  "bit_walk tbl vl bs =
     (case tbl of
        [] \<Rightarrow> Oob
      | h # rest \<Rightarrow>
          (let entries = drop_bit 4 h; n = h AND 15
           in if 8 < n then Oob
              else if length bs < n then Err (deflate_err DEFLATE_UNEXPECTED_END_OF_FILE)
              else (let v = msb_val vl (take n bs)
                    in if v < entries
                       then (if v < length rest then Ret (rest ! v, drop n bs) else Oob)
                       else bit_walk (drop entries rest) (v - entries) (drop n bs))))"
  by pat_completeness auto
termination
  by (relation "measure (\<lambda>(tbl, vl, bs). length tbl)") auto

declare bit_walk.simps [simp del]

lemma bit_walk_head:
  "bit_walk (h # rest) vl bs =
     (let entries = drop_bit 4 h; n = h AND 15
      in if 8 < n then Oob
         else if length bs < n then Err (deflate_err DEFLATE_UNEXPECTED_END_OF_FILE)
         else (let v = msb_val vl (take n bs)
               in if v < entries
                  then (if v < length rest then Ret (rest ! v, drop n bs) else Oob)
                  else bit_walk (drop entries rest) (v - entries) (drop n bs)))"
  by (simp add: bit_walk.simps [of "h # rest"])

lemma huff_shift_msb: "length bs = n \<Longrightarrow> huff_shift n v (lsb_val bs) = msb_val v bs"
proof (induction n v "lsb_val bs" arbitrary: bs rule: huff_shift.induct)
  case (1 vl)
  then show ?case by simp
next
  case (2 vl)
  then obtain b where "bs = [b]" by (auto simp: length_Suc_conv)
  then show ?case by simp
next
  case (3 n vl)
  then obtain b cs where bs: "bs = b # cs" "length cs = Suc n" by (cases bs) auto
  have "lsb_val bs mod 2 = of_bool b" "lsb_val bs div 2 = lsb_val cs"
    using bs by (auto simp: of_bool_def)
  with 3 bs show ?case by simp
qed

lemma msb_val_split: "msb_val v bs = v * 2 ^ length bs + msb_val 0 bs"
proof (induction bs arbitrary: v rule: rev_induct)
  case Nil
  then show ?case by simp
next
  case (snoc b bs)
  have "msb_val v (bs @ [b]) = 2 * msb_val v bs + of_bool b" for v
    by (simp add: msb_val_append)
  with snoc [of v] show ?case by simp
qed

lemma msb_val_less: "msb_val 0 bs < 2 ^ length bs"
proof (induction bs rule: rev_induct)
  case Nil
  then show ?case by simp
next
  case (snoc b bs)
  then show ?case by (auto simp: msb_val_append of_bool_def)
qed

lemma msb_val_bound: "v < 2 ^ p \<Longrightarrow> msb_val v bs < 2 ^ (p + length bs)"
proof -
  assume "v < 2 ^ p"
  have "msb_val v bs < (v + 1) * 2 ^ length bs"
    using msb_val_split [of v bs] msb_val_less [of bs] by simp
  also have "\<dots> \<le> 2 ^ p * 2 ^ length bs"
    using \<open>v < 2 ^ p\<close> by (intro mult_le_mono1) simp
  finally show ?thesis by (simp add: power_add)
qed

lemma head_word:
  assumes "d < 16" and "c < 4096"
  shows "drop_bit 4 (take_bit 16 (push_bit 4 c OR d)) = c"
    and "take_bit 16 (push_bit 4 c OR d) AND 15 = (d :: nat)"
proof -
  have d: "take_bit 4 d = d" and c: "take_bit 12 c = c"
    using assms by (simp_all add: take_bit_nat_eq_self)
  have bd: "\<not> bit d (i + 4)" for i
    using d by (metis bit_take_bit_iff not_add_less2)
  have bc: "bit c i \<Longrightarrow> i < 12" for i
    using c by (metis bit_take_bit_iff)
  show "drop_bit 4 (take_bit 16 (push_bit 4 c OR d)) = c"
    using bc bd by (auto simp: bit_eq_iff bit_drop_bit_eq bit_take_bit_iff bit_or_iff bit_push_bit_iff add.commute)
  have "take_bit 16 (push_bit 4 c OR d) AND 15 = take_bit 4 (take_bit 16 (push_bit 4 c OR d))"
    by (simp add: take_bit_eq_mask mask_eq_exp_minus_1)
  also have "\<dots> = take_bit 4 d"
    by (auto simp: bit_eq_iff bit_take_bit_iff bit_or_iff bit_push_bit_iff)
  also note d
  finally show "take_bit 16 (push_bit 4 c OR d) AND 15 = d" .
qed

text \<open>One group of the table: it reads up to the next length in use and compares.\<close>

lemma bit_walk_group:
  assumes "n \<le> 8" and "length syms < 4096"
  shows "bit_walk (take_bit 16 (push_bit 4 (length syms) OR n) # syms @ tree) vl bs =
     (if length bs < n then Err (deflate_err DEFLATE_UNEXPECTED_END_OF_FILE)
      else (let v = msb_val vl (take n bs)
            in if v < length syms then Ret (syms ! v, drop n bs)
               else bit_walk tree (v - length syms) (drop n bs)))"
  using assms head_word [of n "length syms"]
  by (simp add: bit_walk_head Let_def nth_append)

lemma bit_walk_jump:
  "bit_walk (8 # tree) vl bs =
     (if length bs < 8 then Err (deflate_err DEFLATE_UNEXPECTED_END_OF_FILE)
      else bit_walk tree (msb_val vl (take 8 bs)) (drop 8 bs))"
proof -
  have "drop_bit 4 (8 :: nat) = 0" "(8 :: nat) AND 15 = 8" by code_simp+
  then show ?thesis by (simp add: bit_walk_head Let_def)
qed

lemma bit_walk_level:
  assumes "p < q" and "q \<le> 15" and "huff_collect lens 0 q \<noteq> []" and "length (huff_collect lens 0 q) < 4096"
  shows "bit_walk (fst (huff_levels lens (q # ls) p tot)) vl bs =
     (if length bs < q - p then Err (deflate_err DEFLATE_UNEXPECTED_END_OF_FILE)
      else (let v = msb_val vl (take (q - p) bs); c = length (huff_collect lens 0 q)
            in if v < c then Ret (huff_collect lens 0 q ! v, drop (q - p) bs)
               else bit_walk (fst (huff_levels lens ls q (tot + drop_bit q (0x10000 * c))))
                      (v - c) (drop (q - p) bs)))"
proof -
  obtain s syms where c: "huff_collect lens 0 q = s # syms"
    using assms(3) by (cases "huff_collect lens 0 q") auto
  show ?thesis
  proof (cases "8 < q - p")
    case False
    then show ?thesis
      using assms(4) bit_walk_group [of "q - p" "s # syms"]
      by (simp add: c Let_def case_prod_beta)
  next
    case True
    then have t: "take (q - p) bs = take 8 bs @ take (q - (p + 8)) (drop 8 bs)"
      using take_split [of 8 "q - p" bs] by simp
    have d: "drop (q - (p + 8)) (drop 8 bs) = drop (q - p) bs"
      using True by simp
    show ?thesis
      using True assms(2,4) bit_walk_group [of "q - (p + 8)" "s # syms"]
      by (auto simp: c Let_def case_prod_beta bit_walk_jump t msb_val_append d)
  qed
qed

text \<open>Skipping a length no symbol uses.\<close>

lemma huff_levels_skip:
  "huff_collect lens 0 q = [] \<Longrightarrow> huff_levels lens (q # ls) p tot = huff_levels lens ls p tot"
  by simp

text \<open>
  Invariant of the walk: \<open>p\<close> is the last length used, \<open>vl\<close> the distance of the bits read so far
  from the end of the codes of length \<open>p\<close>, and no length between \<open>p\<close> and \<open>q\<close> is used.
\<close>

definition walk_inv :: "nat list \<Rightarrow> nat \<Rightarrow> nat \<Rightarrow> nat \<Rightarrow> bool" where
  "walk_inv lens p q vl \<longleftrightarrow> huff_balanced lens \<and> length lens < 4096 \<and> p < q \<and> q \<le> 16 \<and>
     vl + end_code lens p < 2 ^ p \<and> (\<forall>l. p < l \<and> l < q \<longrightarrow> huff_count lens l = 0)"

lemma walk_inv_start: "huff_balanced lens \<Longrightarrow> length lens < 4096 \<Longrightarrow> walk_inv lens 0 1 0"
  by (simp add: walk_inv_def end_code_def huff_count_def)

lemma walk_inv_skip: "walk_inv lens p q vl \<Longrightarrow> huff_collect lens 0 q = [] \<Longrightarrow> q < 16 \<Longrightarrow> walk_inv lens p (Suc q) vl"
  by (auto simp: walk_inv_def huff_count_def less_Suc_eq)

lemma walk_inv_prefix:
  assumes "walk_inv lens p q vl" and "length bs = q - p"
  shows "msb_val (vl + end_code lens p) bs = msb_val vl bs + first_code lens q"
    and "msb_val (vl + end_code lens p) bs < 2 ^ q"
proof -
  have "first_code lens q = 2 ^ (q - p) * end_code lens p"
    using assms(1) by (intro first_code_skip) (auto simp: walk_inv_def)
  then show "msb_val (vl + end_code lens p) bs = msb_val vl bs + first_code lens q"
    using assms(2) msb_val_split [of "vl + end_code lens p" bs] msb_val_split [of vl bs]
    by (simp add: algebra_simps)
  show "msb_val (vl + end_code lens p) bs < 2 ^ q"
    using msb_val_bound [of "vl + end_code lens p" p bs] assms by (simp add: walk_inv_def)
qed

lemma walk_inv_step:
  assumes "walk_inv lens p q vl" and "1 \<le> q" and "q < 16" and "length bs = q - p"
    and "length (huff_collect lens 0 q) \<le> msb_val vl bs"
  shows "walk_inv lens q (Suc q) (msb_val vl bs - length (huff_collect lens 0 q))"
    and "msb_val vl bs - length (huff_collect lens 0 q) + end_code lens q = msb_val (vl + end_code lens p) bs"
proof -
  have c: "huff_count lens q = length (huff_collect lens 0 q)"
    using assms(2) by (simp add: huff_count_def)
  then show e: "msb_val vl bs - length (huff_collect lens 0 q) + end_code lens q =
      msb_val (vl + end_code lens p) bs"
    using assms(5) walk_inv_prefix [OF assms(1,4)] by (simp add: end_code_def)
  show "walk_inv lens q (Suc q) (msb_val vl bs - length (huff_collect lens 0 q))"
    using assms(1,3) walk_inv_prefix(2) [OF assms(1,4)] e by (auto simp: walk_inv_def)
qed

lemma huff_collect_length: "length (huff_collect lens k l) \<le> length lens"
  by (induction lens k l rule: huff_collect.induct) auto

text \<open>Every walk ends in a symbol whose code word was read, or at the end of the input.\<close>

lemma bit_walk_sound:
  assumes "walk_inv lens p q vl" and "1 \<le> q"
  shows "bit_walk (fst (huff_levels lens [q..<16] p tot)) vl bs =
        Err (deflate_err DEFLATE_UNEXPECTED_END_OF_FILE) \<or>
    (\<exists>s < length lens. q \<le> lens ! s \<and> lens ! s \<le> 15 \<and> lens ! s - p \<le> length bs \<and>
       bit_walk (fst (huff_levels lens [q..<16] p tot)) vl bs = Ret (s, drop (lens ! s - p) bs) \<and>
       symbol_code lens s = msb_val (vl + end_code lens p) (take (lens ! s - p) bs))"
  using assms
proof (induction "16 - q" arbitrary: p q vl tot bs)
  case 0
  then have q: "q = 16" and "p < 16" by (simp_all add: walk_inv_def)
  have "(2::nat) ^ 16 = 2 ^ (16 - p) * end_code lens p"
    using 0 q first_code_skip [of p 16 lens] by (auto simp: walk_inv_def huff_balanced_def)
  also have "\<dots> < 2 ^ (16 - p) * 2 ^ p"
    using 0 by (simp add: walk_inv_def)
  also have "\<dots> = 2 ^ 16" using \<open>p < 16\<close> by (simp flip: power_add)
  finally show ?case by simp
next
  case (Suc d)
  then have q: "q < 16" "[q..<16] = q # [Suc q..<16]" by (simp_all add: upt_conv_Cons)
  let ?c = "length (huff_collect lens 0 q)" and ?v = "msb_val vl (take (q - p) bs)"
  show ?case
  proof (cases "huff_collect lens 0 q = []")
    case True
    with Suc q have "walk_inv lens p (Suc q) vl" by (simp add: walk_inv_skip)
    moreover have "d = 16 - Suc q" using Suc.hyps(2) by simp
    ultimately show ?thesis
      using Suc.hyps(1) [of "Suc q" p vl tot bs]
      unfolding q(2) huff_levels_skip [OF True] by (auto intro: Suc_leD)
  next
    case False
    have pq: "p < q" and c: "?c < 4096"
      using Suc.prems(1) huff_collect_length [of lens 0 q] by (auto simp: walk_inv_def)
    note level = bit_walk_level [OF pq _ False c, of "[Suc q..<16]" tot vl bs]
    show ?thesis
    proof (cases "length bs < q - p")
      case True
      then show ?thesis using level q by simp
    next
      case len: False
      then have l: "length (take (q - p) bs) = q - p" by simp
      show ?thesis
      proof (cases "?v < ?c")
        case True
        let ?s = "huff_collect lens 0 q ! ?v"
        have s: "?s < length lens" "lens ! ?s = q" "symbol_code lens ?s = ?v + first_code lens q"
          using huff_rank_inverse [OF True] by (simp_all add: symbol_code_def)
        then show ?thesis
          using level q True len walk_inv_prefix(1) [OF Suc.prems(1) l] by (auto intro!: exI [of _ ?s])
      next
        case v: False
        then have "?c \<le> ?v" by simp
        note step = walk_inv_step [OF Suc.prems q(1) l this]
        have w: "bit_walk (fst (huff_levels lens [q..<16] p tot)) vl bs =
          bit_walk (fst (huff_levels lens [Suc q..<16] q (tot + drop_bit q (0x10000 * ?c)))) (?v - ?c) (drop (q - p) bs)"
          using level q v len by (simp add: Let_def)
        have join: "take (q - p) bs @ take (m - q) (drop (q - p) bs) = take (m - p) bs"
          "drop (m - q) (drop (q - p) bs) = drop (m - p) bs" if "Suc q \<le> m" for m
          using that pq take_split [of "q - p" "m - p" bs] by simp_all
        have "d = 16 - Suc q" using Suc.hyps(2) by simp
        from Suc.hyps(1) [OF this step(1), of "tot + drop_bit q (0x10000 * ?c)" "drop (q - p) bs"]
        show ?thesis
          unfolding w [symmetric] step(2) msb_val_append [symmetric]
          using join len pq by (auto simp: intro: Suc_leD)
      qed
    qed
  qed
qed

text \<open>Every code word is found.\<close>

lemma symbol_code_shift:
  assumes "s < length lens" and "q < lens ! s"
    and "length ys = lens ! s - q" and "msb_val vl ys = symbol_code lens s"
  shows "end_code lens q \<le> vl"
proof -
  have "2 ^ (lens ! s - q) * end_code lens q \<le> symbol_code lens s"
    using end_code_le_first [OF assms(2), of lens] by (simp add: symbol_code_def)
  also have "\<dots> < (vl + 1) * 2 ^ (lens ! s - q)"
    using assms(3,4) msb_val_split [of vl ys] msb_val_less [of ys] by simp
  finally have "end_code lens q < vl + 1"
    by (metis mult.commute nat_mult_less_cancel1 zero_less_numeral zero_less_power)
  then show ?thesis by simp
qed

lemma bit_walk_complete:
  assumes "walk_inv lens p q vl" and "1 \<le> q" and "s < length lens" and "q \<le> lens ! s" and "lens ! s \<le> 15"
    and "lens ! s - p \<le> length bs"
    and "msb_val (vl + end_code lens p) (take (lens ! s - p) bs) = symbol_code lens s"
  shows "bit_walk (fst (huff_levels lens [q..<16] p tot)) vl bs = Ret (s, drop (lens ! s - p) bs)"
  using assms
proof (induction "16 - q" arbitrary: p q vl tot bs)
  case 0
  then show ?case by simp
next
  case (Suc d)
  let ?l = "lens ! s"
  let ?c = "length (huff_collect lens 0 q)" and ?v = "msb_val vl (take (q - p) bs)"
  have q: "q < 16" "[q..<16] = q # [Suc q..<16]" using Suc.hyps(2) by (simp_all add: upt_conv_Cons)
  have d: "d = 16 - Suc q" using Suc.hyps(2) by simp
  show ?case
  proof (cases "huff_collect lens 0 q = []")
    case True
    then have "?l \<noteq> q" using huff_rank(1) [OF Suc.prems(3) refl] by auto
    moreover have "walk_inv lens p (Suc q) vl"
      using True Suc q by (simp add: walk_inv_skip)
    ultimately show ?thesis
      using Suc.hyps(1) [OF d, of p vl bs tot] Suc.prems
      unfolding q(2) huff_levels_skip [OF True] by simp
  next
    case False
    have pq: "p < q" and c: "?c < 4096"
      using Suc.prems(1) huff_collect_length [of lens 0 q] by (auto simp: walk_inv_def)
    have len: "\<not> length bs < q - p" using Suc.prems(4,6) by simp
    then have l: "length (take (q - p) bs) = q - p" by simp
    note level = bit_walk_level [OF pq _ False c, of "[Suc q..<16]" tot vl bs]
    note pre = walk_inv_prefix [OF Suc.prems(1) l]
    show ?thesis
    proof (cases "?l = q")
      case True
      then have "?v = length (filter (\<lambda>i. lens ! i = q) [0..<s])"
        using pre(1) Suc.prems(7) by (simp add: symbol_code_def)
      then show ?thesis
        using level q len True huff_rank [OF Suc.prems(3) True] by simp
    next
      case False
      then have ql: "q < ?l" using Suc.prems(4) by simp
      have split: "take (?l - p) bs = take (q - p) bs @ take (?l - q) (drop (q - p) bs)"
        "drop (?l - q) (drop (q - p) bs) = drop (?l - p) bs"
        using ql pq take_split [of "q - p" "?l - p" bs] by simp_all
      have "end_code lens q \<le> msb_val (vl + end_code lens p) (take (q - p) bs)"
        using Suc.prems(6,7) ql pq
        by (intro symbol_code_shift [OF Suc.prems(3) ql, of "take (?l - q) (drop (q - p) bs)"])
          (simp_all add: split msb_val_append)
      then have "?c \<le> ?v"
        using pre(1) Suc.prems(2) by (simp add: end_code_def huff_count_def)
      note step = walk_inv_step [OF Suc.prems(1,2) q(1) l this]
      have "bit_walk (fst (huff_levels lens [Suc q..<16] q (tot + drop_bit q (0x10000 * ?c)))) (?v - ?c)
          (drop (q - p) bs) = Ret (s, drop (?l - q) (drop (q - p) bs))"
        using Suc.prems ql pq
        by (intro Suc.hyps(1) [OF d step(1)]) (simp_all add: step(2) split msb_val_append)
      then show ?thesis
        using level q len \<open>?c \<le> ?v\<close> split by (simp add: Let_def)
    qed
  qed
qed

lemma msb_val_bits: "msb_val 0 (msb_bits n v) = take_bit n v"
proof (induction n)
  case 0
  then show ?case by (simp add: msb_bits_def)
next
  case (Suc n)
  have "msb_val 0 (msb_bits (Suc n) v) = msb_val (of_bool (bit v n)) (msb_bits n v)"
    by (simp add: msb_bits_def)
  also have "\<dots> = of_bool (bit v n) * 2 ^ n + msb_val 0 (msb_bits n v)"
    using msb_val_split [of "of_bool (bit v n)" "msb_bits n v"] by (simp add: msb_bits_def)
  finally show ?case
    by (simp add: Suc.IH take_bit_Suc_from_most mult.commute)
qed

lemma msb_bits_val: "msb_bits (length bs) (msb_val 0 bs) = bs"
proof (induction bs rule: rev_induct)
  case Nil
  then show ?case by (simp add: msb_bits_def)
next
  case (snoc b bs)
  let ?v = "msb_val 0 bs"
  have v: "msb_val 0 (bs @ [b]) = 2 * ?v + of_bool b" by (simp add: msb_val_append)
  have "bit (2 * ?v + of_bool b) (Suc i) = bit ?v i" "bit (2 * ?v + of_bool b) 0 = b" for i
    by (simp_all add: bit_Suc bit_0)
  then have "msb_bits (Suc n) (2 * ?v + of_bool b) = msb_bits n ?v @ [b]" for n
    by (simp add: msb_bits_def upt_conv_Cons map_Suc_upt [symmetric] comp_def del: upt_Suc)
  then show ?case using snoc by (simp add: v)
qed

lemma bit_walk_code_word:
  assumes "huff_balanced lens" and "length lens < 4096" and "s < length lens" and "1 \<le> lens ! s" "lens ! s \<le> 15"
  shows "bit_walk (fst (huff_levels lens [1..<16] 0 0)) 0 (code_word lens s @ bs) = Ret (s, bs)"
proof -
  have n: "length (code_word lens s) = lens ! s" by (simp add: code_word_def msb_bits_def)
  have "end_code lens 0 = 0" by (simp add: end_code_def huff_count_def)
  moreover have "msb_val 0 (code_word lens s) = symbol_code lens s"
    using symbol_code_less [OF assms(1,3,4,5)] by (simp add: code_word_def msb_val_bits take_bit_nat_eq_self)
  ultimately show ?thesis
    using bit_walk_complete [OF walk_inv_start [OF assms(1,2)] _ assms(3,4,5), of "code_word lens s @ bs" 0] n
    by simp
qed

section \<open>Size of a table\<close>

definition used_codes :: "nat list \<Rightarrow> nat \<Rightarrow> nat" where
  "used_codes lens q = (\<Sum>l = q..<16. length (huff_collect lens 0 l))"

lemma huff_levels_Nil: "(\<And>l. l \<in> set ls \<Longrightarrow> huff_collect lens 0 l = []) \<Longrightarrow> huff_levels lens ls p tot = ([], tot)"
  by (induction ls) simp_all

text \<open>With no code longer than \<open>m\<close> bits, the head and jump words number at most \<open>m\<close>.\<close>

lemma huff_levels_length:
  assumes "p < q" and "q \<le> 16" and "p \<le> m" and "\<And>l. m < l \<Longrightarrow> l < 16 \<Longrightarrow> huff_collect lens 0 l = []"
  shows "length (fst (huff_levels lens [q..<16] p tot)) \<le> used_codes lens q + (m - p)"
  using assms(1-3)
proof (induction "16 - q" arbitrary: q p tot)
  case 0
  then show ?case by simp
next
  case (Suc d)
  then have q: "q < 16" "[q..<16] = q # [Suc q..<16]" by (simp_all add: upt_conv_Cons)
  have d: "d = 16 - Suc q" using Suc.hyps(2) by simp
  have u: "used_codes lens q = length (huff_collect lens 0 q) + used_codes lens (Suc q)"
    using q(1) by (simp add: used_codes_def sum.atLeast_Suc_lessThan)
  show ?case
  proof (cases "huff_collect lens 0 q")
    case Nil
    then show ?thesis
      using Suc.hyps(1) [OF d, of p tot] Suc.prems q(1) unfolding q(2) u by simp
  next
    case (Cons s syms)
    then have m: "q \<le> m" using assms(4) [of q] q(1) by (cases "m < q") auto
    then have "length (fst (huff_levels lens [Suc q..<16] q t)) \<le> used_codes lens (Suc q) + (m - q)" for t
      using Suc.hyps(1) [OF d, of q] q(1) by simp
    from this [of "tot + drop_bit q (0x10000 * length (s # syms))"]
    show ?thesis
      using Suc.prems q(1) m unfolding q(2) u
      by (simp add: Cons Let_def case_prod_beta) linarith
  qed
qed

lemma huff_collect_count: "length (huff_collect lens k l) = count_list lens l"
  by (induction lens k l rule: huff_collect.induct) auto

lemma used_codes_le: "used_codes lens q \<le> length lens"
proof (induction lens)
  case Nil
  then show ?case by (simp add: used_codes_def)
next
  case (Cons x lens)
  have "used_codes (x # lens) q = used_codes lens q + (\<Sum>l = q..<16. if x = l then 1 else 0)"
    unfolding used_codes_def huff_collect_count
    by (subst sum.distrib [symmetric]) (rule sum.cong, auto)
  also have "(\<Sum>l = q..<16. if x = l then 1 else (0::nat)) \<le> 1"
    by simp
  finally show ?case using Cons by simp
qed

lemma build_huffman_size_upto:
  assumes "\<And>l. m < l \<Longrightarrow> l < 16 \<Longrightarrow> huff_collect lens 0 l = []"
  shows "length (snd (lib_deflate_build_huffman lens cap)) \<le> length lens + m"
  using huff_levels_length [of 0 1 m lens 0] used_codes_le [of lens 1] assms
  by (simp add: lib_deflate_build_huffman_def case_prod_beta Let_def)

lemma build_huffman_size: "length (snd (lib_deflate_build_huffman lens cap)) \<le> length lens + 15"
  by (rule build_huffman_size_upto) simp

lemma build_huffman_cases:
  assumes "length lens + 15 \<le> cap \<or> length (snd (lib_deflate_build_huffman lens cap)) \<le> cap"
  shows "lib_deflate_build_huffman lens cap =
    (if huff_balanced lens then Ret (fst (huff_levels lens [1..<16] 0 0))
     else Err (deflate_err DEFLATE_UNBALANCED_HUFFMAN_TREE), fst (huff_levels lens [1..<16] 0 0))"
proof -
  have "length (fst (huff_levels lens [1..<16] 0 0)) \<le> cap"
    using build_huffman_size [of lens cap] assms
    by (auto simp: lib_deflate_build_huffman_def case_prod_beta Let_def)
  then show ?thesis
    using build_huffman_balanced [of lens]
    by (simp add: lib_deflate_build_huffman_def case_prod_beta Let_def)
qed

context byte_source
begin

lemma huffman_walk_bits:
  assumes "bits_good good dr" and "bit_walk tbl vl (bit_stream content dr) \<noteq> Oob"
  shows "\<exists>dr'. bits_good good dr' \<and> bits_only dr dr' \<and>
    (case bit_walk tbl vl (bit_stream content dr) of
       Ret (s, bs) \<Rightarrow> huffman_walk rd dr tbl vl = (Ret s, dr') \<and> bit_stream content dr' = bs
     | Err e \<Rightarrow> huffman_walk rd dr tbl vl = (Err e, dr')
     | _ \<Rightarrow> False)"
  using assms
proof (induction tbl arbitrary: vl dr rule: length_induct)
  case (1 tbl)
  let ?bs = "bit_stream content dr"
  show ?case
  proof (cases tbl)
    case Nil
    with "1.prems"(2) show ?thesis by (simp add: bit_walk.simps)
  next
    case (Cons h rest)
    define n where "n = h AND 15"
    define entries where "entries = drop_bit 4 h"
    have n8: "n \<le> 8"
      using "1.prems"(2) Cons by (auto simp: bit_walk_head n_def Let_def split: if_splits)
    from get_bits_spec [OF "1.prems"(1) this] obtain dr1 where
      g: "bits_good good dr1" and o: "bits_only dr dr1" and
      get: "lib_deflate_get_bits rd dr n = (if n \<le> length ?bs then Ret (lsb_val (take n ?bs))
         else Err (deflate_err DEFLATE_UNEXPECTED_END_OF_FILE), dr1)" and
      str: "n \<le> length ?bs \<Longrightarrow> bit_stream content dr1 = drop n ?bs" by blast
    show ?thesis
    proof (cases "n \<le> length ?bs")
      case False
      then show ?thesis
        using g o get Cons n8
        by (intro exI [of _ dr1]) (simp add: bit_walk_head huffman_walk.simps [of rd dr "h # rest"] Let_def
            n_def [symmetric])
    next
      case True
      let ?v = "msb_val vl (take n ?bs)"
      have shift: "huff_shift n vl (lsb_val (take n ?bs)) = ?v"
        using True by (simp add: huff_shift_msb)
      show ?thesis
      proof (cases "?v < entries")
        case v: True
        then have "?v < length rest"
          using "1.prems"(2) Cons True n8
          by (auto simp: bit_walk_head n_def [symmetric] entries_def [symmetric] Let_def split: if_splits)
        then show ?thesis
          using g o get Cons n8 True v shift str
          by (intro exI [of _ dr1]) (simp add: bit_walk_head huffman_walk.simps [of rd dr "h # rest"] Let_def
              n_def [symmetric] entries_def [symmetric])
      next
        case v: False
        have b: "bit_walk tbl vl ?bs = bit_walk (drop entries rest) (?v - entries) (bit_stream content dr1)"
          using Cons n8 True v str
          by (simp add: bit_walk_head n_def [symmetric] entries_def [symmetric] Let_def)
        moreover have w: "huffman_walk rd dr tbl vl = huffman_walk rd dr1 (drop entries rest) (?v - entries)"
          using Cons n8 True v get shift
          by (simp add: huffman_walk.simps [of rd dr "h # rest"] n_def [symmetric] entries_def [symmetric] Let_def)
        moreover have "length (drop entries rest) < length tbl"
          using Cons by simp
        moreover have "bit_walk (drop entries rest) (?v - entries) (bit_stream content dr1) \<noteq> Oob"
          using "1.prems"(2) b by simp
        ultimately obtain dr2 where "bits_good good dr2" "bits_only dr1 dr2"
          "case bit_walk (drop entries rest) (?v - entries) (bit_stream content dr1) of
             Ret (s, bs) \<Rightarrow> huffman_walk rd dr1 (drop entries rest) (?v - entries) = (Ret s, dr2) \<and>
               bit_stream content dr2 = bs
           | Err e \<Rightarrow> huffman_walk rd dr1 (drop entries rest) (?v - entries) = (Err e, dr2)
           | _ \<Rightarrow> False"
          using "1.IH" [rule_format, of "drop entries rest" dr1 "?v - entries"] g by blast
        moreover have "bits_only dr dr2"
          using o \<open>bits_only dr1 dr2\<close> by (rule bits_only_trans)
        ultimately show ?thesis
          unfolding b w by blast
      qed
    qed
  qed
qed

text \<open>What the decoder proofs use: decoding with a built table is total and memory safe.\<close>

lemma get_huffman_spec:
  assumes "bits_good good dr" and "huff_balanced lens" and "length lens < 4096"
    and "tree = fst (huff_levels lens [1..<16] 0 0)"
  shows "\<exists>dr'. bits_good good dr' \<and> bits_only dr dr' \<and>
    (lib_deflate_get_huffman rd dr tree = (Err (deflate_err DEFLATE_UNEXPECTED_END_OF_FILE), dr') \<or>
     (\<exists>s < length lens. 1 \<le> lens ! s \<and> lens ! s \<le> 15 \<and>
        lib_deflate_get_huffman rd dr tree = (Ret s, dr') \<and>
        bit_stream content dr = code_word lens s @ bit_stream content dr'))"
proof -
  let ?bs = "bit_stream content dr"
  have e: "end_code lens 0 = 0" by (simp add: end_code_def huff_count_def)
  note sound = bit_walk_sound [OF walk_inv_start [OF assms(2,3)] le_refl, of 0 ?bs, unfolded e assms(4) [symmetric]]
  then have "bit_walk tree 0 ?bs \<noteq> Oob" by auto
  from huffman_walk_bits [OF assms(1) this] obtain dr' where
    dr': "bits_good good dr'" "bits_only dr dr'" and
    w: "case bit_walk tree 0 ?bs of
       Ret (s, bs) \<Rightarrow> huffman_walk rd dr tree 0 = (Ret s, dr') \<and> bit_stream content dr' = bs
     | Err e \<Rightarrow> huffman_walk rd dr tree 0 = (Err e, dr')
     | _ \<Rightarrow> False" by blast
  from sound show ?thesis
  proof (elim disjE exE conjE)
    assume "bit_walk tree 0 ?bs = Err (deflate_err DEFLATE_UNEXPECTED_END_OF_FILE)"
    then show ?thesis using dr' w by (auto simp: lib_deflate_get_huffman_def)
  next
    fix s
    assume s: "s < length lens" "1 \<le> lens ! s" "lens ! s \<le> 15" "lens ! s - 0 \<le> length ?bs"
      "bit_walk tree 0 ?bs = Ret (s, drop (lens ! s - 0) ?bs)"
      "symbol_code lens s = msb_val (0 + 0) (take (lens ! s - 0) ?bs)"
    then have "code_word lens s = take (lens ! s) ?bs"
      using msb_bits_val [of "take (lens ! s) ?bs"] by (simp add: code_word_def)
    then show ?thesis
      using dr' w s by (auto simp: lib_deflate_get_huffman_def intro!: exI [of _ dr'])
  qed
qed

lemma get_huffman_code_word:
  assumes "bits_good good dr" and "huff_balanced lens" and "length lens < 4096"
    and "tree = fst (huff_levels lens [1..<16] 0 0)"
    and "s < length lens" and "1 \<le> lens ! s" and "lens ! s \<le> 15"
    and "bit_stream content dr = code_word lens s @ bs"
  shows "\<exists>dr'. lib_deflate_get_huffman rd dr tree = (Ret s, dr') \<and> bits_good good dr' \<and> bits_only dr dr' \<and>
    bit_stream content dr' = bs"
  using huffman_walk_bits [of dr tree 0] bit_walk_code_word [OF assms(2,3,5,6,7), of bs] assms(1,4,8)
  by (auto simp: lib_deflate_get_huffman_def)

end

section \<open>Properties\<close>

text \<open>The Kraft sum of the code lengths, scaled by \<open>2^16\<close>.\<close>

definition kraft_sum :: "nat list \<Rightarrow> nat" where
  "kraft_sum lens = sum_list (map (\<lambda>l. if 1 \<le> l \<and> l \<le> 15 then 2 ^ (16 - l) else 0) lens)"

lemma first_code_sum: "first_code lens q = (\<Sum>l < q. huff_count lens l * 2 ^ (q - l))"
proof (induction q)
  case 0
  then show ?case by simp
next
  case (Suc q)
  have "(\<Sum>l < q. huff_count lens l * 2 ^ (Suc q - l)) = (\<Sum>l < q. 2 * (huff_count lens l * 2 ^ (q - l)))"
    by (rule sum.cong) (simp_all add: Suc_diff_le)
  then show ?case
    by (simp add: Suc.IH sum_distrib_left algebra_simps)
qed

lemma kraft_sum_first_code: "kraft_sum lens = first_code lens 16"
proof -
  have "kraft_sum lens = (\<Sum>l < 16. (if l = 0 then 0 else count_list lens l) * 2 ^ (16 - l))"
  proof (induction lens)
    case Nil
    then show ?case by (simp add: kraft_sum_def)
  next
    case (Cons x lens)
    have "(\<Sum>l < 16. (if l = 0 then 0 else count_list (x # lens) l) * 2 ^ (16 - l)) =
      (\<Sum>l < 16. (if l = 0 then 0 else count_list lens l) * 2 ^ (16 - l)) +
      (\<Sum>l < 16. if x = l then (if 1 \<le> x then 2 ^ (16 - x) else 0) else 0)"
      by (subst sum.distrib [symmetric]) (rule sum.cong, auto)
    with Cons show ?case by (auto simp: kraft_sum_def)
  qed
  then show ?thesis
    by (simp add: first_code_sum huff_count_def huff_collect_count cong: if_cong)
qed

text \<open>C20: The Huffman table construction never writes past its array when the array has 15 entries more
  than there are code lengths (the sizes 288+15, 32+15 and 19+7 of the decoder's arrays are judged at
  their uses), and it accepts exactly the length tables whose Kraft sum is one: an over-subscribed or
  incomplete code is the error UNBALANCED_HUFFMAN_TREE.\<close>

theorem build_huffman_accepts_complete_codes:
  assumes "length lens + 15 \<le> cap"
  shows "fst (lib_deflate_build_huffman lens cap) =
      (if kraft_sum lens = 2 ^ 16 then Ret (snd (lib_deflate_build_huffman lens cap))
       else Err (deflate_err DEFLATE_UNBALANCED_HUFFMAN_TREE)) \<and>
    length (snd (lib_deflate_build_huffman lens cap)) \<le> cap"
  using build_huffman_cases [of lens cap] build_huffman_size [of lens cap] assms
  by (simp add: kraft_sum_first_code huff_balanced_def)

theorem build_huffman_accepts_complete_codes_witness:
  "fst (lib_deflate_build_huffman [2, 1, 3, 3] 19) = Ret [17, 1, 17, 0, 33, 2, 3]"
proof -
  have "kraft_sum [2, 1, 3, 3] = 2 ^ 16" by (simp add: kraft_sum_def)
  moreover have "snd (lib_deflate_build_huffman [2, 1, 3, 3] 19) = [17, 1, 17, 0, 33, 2, 3]"
    by (simp add: lib_deflate_build_huffman_def upt_rec [of _ 16] numeral_2_eq_2 [symmetric])
  ultimately show ?thesis
    using build_huffman_accepts_complete_codes [of "[2, 1, 3, 3]" 19] by simp
qed

lemma huff_example: "fst (lib_deflate_build_huffman [1, 1] 17) = Ret [33, 0, 1]"
  by (simp add: lib_deflate_build_huffman_def upt_rec [of _ 16] numeral_2_eq_2 [symmetric])

text \<open>C9: Decoding a symbol with a table that the construction accepted never leaves the table,
  returns exactly when the input starts with the RFC 1951 canonical code word of the returned
  symbol, and consumes exactly that code word; otherwise the input ended.\<close>

theorem get_huffman_decodes_canonical:
  assumes "byte_source rd content good" and "good (read_p dr)" and "bitlen dr < 8"
    and "length lens \<le> 288" and "fst (lib_deflate_build_huffman lens (length lens + 15)) = Ret tree"
  shows "\<exists>dr'. (lib_deflate_get_huffman rd dr tree = (Err (deflate_err DEFLATE_UNEXPECTED_END_OF_FILE), dr') \<or>
     (\<exists>s < length lens. lib_deflate_get_huffman rd dr tree = (Ret s, dr') \<and> 1 \<le> lens ! s \<and> lens ! s \<le> 15 \<and>
        bit_stream content dr = code_word lens s @ bit_stream content dr')) \<and>
     bits_only dr dr' \<and> bits_good good dr'"
proof -
  have "huff_balanced lens" "tree = fst (huff_levels lens [1..<16] 0 0)"
    using assms(5) build_huffman_cases [of lens "length lens + 15"] by (auto split: if_splits)
  then show ?thesis
    using byte_source.get_huffman_spec [OF assms(1), of dr lens tree] assms(2-4) by (auto simp: bits_good_def)
qed

theorem get_huffman_decodes_canonical_witness:
  "\<exists>dr'. (lib_deflate_get_huffman lib_mem_read (lib_deflate_init (lib_mem_new [2])) [33, 0, 1] =
        (Err (deflate_err DEFLATE_UNEXPECTED_END_OF_FILE), dr') \<or>
     (\<exists>s < length [1, 1 :: nat]. lib_deflate_get_huffman lib_mem_read (lib_deflate_init (lib_mem_new [2])) [33, 0, 1] =
          (Ret s, dr') \<and> 1 \<le> [1, 1 :: nat] ! s \<and> [1, 1 :: nat] ! s \<le> 15 \<and>
        bit_stream mr_data (lib_deflate_init (lib_mem_new [2])) = code_word [1, 1] s @ bit_stream mr_data dr')) \<and>
     bits_only (lib_deflate_init (lib_mem_new [2])) dr' \<and> bits_good (\<lambda>_. True) dr'"
  by (rule get_huffman_decodes_canonical [OF mem.byte_source_axioms])
    (use huff_example in \<open>simp_all add: lib_deflate_init_def del: One_nat_def\<close>)

end
