(* ===== verification/Inflate.thy ===== *)
theory Inflate
  imports Inflate_Huffman
begin

text \<open>
  The deflate decoder \<open>lib_deflate_read\<close> (components/png/deflate_reader.c): its four phases in the
  order of the source, the loop that composes them, and their correctness.

  The output buffer is the list of bytes written so far; \<open>n\<close> is its capacity \<open>buf_len\<close>, and a
  write at or past \<open>n\<close> is \<open>Oob\<close>.
\<close>

section \<open>Block headers\<close>

text \<open>The temporary array \<open>uint8_t huffman[288]\<close>; every entry read has been written before.\<close>

fun fill_lens :: "nat list \<Rightarrow> nat \<Rightarrow> nat \<Rightarrow> nat \<Rightarrow> nat list" where
  "fill_lens huffman i 0 v = huffman"
| "fill_lens huffman i (Suc r) v = fill_lens (huffman[i := v]) (Suc i) r v"

text \<open>
  The two loops that read code lengths are the same text with \<open>lc_i, lc_num\<close> and \<open>dc_i, dc_num\<close>.
  Run-length symbols 16, 17 and 18 repeat the previous length or zero.
\<close>

definition repeat_of :: "'s reader \<Rightarrow> 's lib_deflate_reader \<Rightarrow> nat \<Rightarrow> nat \<Rightarrow> nat list \<Rightarrow>
    (nat \<times> nat) cres \<times> 's lib_deflate_reader" where
  "repeat_of rd dr len i huffman =
     (if len < 16 then (Ret (1, len), dr)
      else if len = 16 then
        (if i = 0 then (Err (deflate_err DEFLATE_DYNAMIC_HUFFMAN_SETUP_ERROR), dr)
         else cbind (lib_deflate_get_bits rd dr 2) (\<lambda>r dr. (Ret (r + 3, huffman ! (i - 1)), dr)))
      else if len = 17 then cbind (lib_deflate_get_bits rd dr 3) (\<lambda>r dr. (Ret (r + 3, 0), dr))
      else if len = 18 then cbind (lib_deflate_get_bits rd dr 7) (\<lambda>r dr. (Ret (r + 11, 0), dr))
      else (Err (deflate_err DEFLATE_DYNAMIC_HUFFMAN_SETUP_ERROR), dr))"

text \<open>\<open>r = 0\<close> cannot happen (\<open>repeat_of\<close> returns at least 1); the branch makes the recursion well-founded.\<close>

function code_lengths :: "'s reader \<Rightarrow> nat list \<Rightarrow> nat \<Rightarrow> 's lib_deflate_reader \<Rightarrow> nat list \<Rightarrow> nat \<Rightarrow>
    nat list cres \<times> 's lib_deflate_reader" where
  "code_lengths rd tree num dr huffman i =
     (if num \<le> i then (Ret huffman, dr)
      else cbind (lib_deflate_get_huffman rd dr tree) (\<lambda>len dr.
           cbind (repeat_of rd dr len i huffman) (\<lambda>(r, v) dr.
             if r = 0 then (Spin, dr)
             else if num < i + r then (Err (deflate_err DEFLATE_DYNAMIC_HUFFMAN_SETUP_ERROR), dr)
             else if length huffman < i + r then (Oob, dr)
             else code_lengths rd tree num dr (fill_lens huffman i r v) (i + r))))"
  by pat_completeness auto
termination
  by (relation "measure (\<lambda>(rd, tree, num, dr, huffman, i). num - i)") auto

declare code_lengths.simps [simp del]

text \<open>The lengths of the code length alphabet arrive in the order of \<open>blc_order\<close>.\<close>

definition blc_order :: "nat list" where
  "blc_order = [16, 17, 18, 0, 8, 7, 9, 6, 10, 5, 11, 4, 12, 3, 13, 2, 14, 1, 15]"

function blc_lengths :: "'s reader \<Rightarrow> nat \<Rightarrow> 's lib_deflate_reader \<Rightarrow> nat list \<Rightarrow> nat \<Rightarrow>
    nat list cres \<times> 's lib_deflate_reader" where
  "blc_lengths rd blc_num dr huffman i =
     (if blc_num \<le> i then (Ret huffman, dr)
      else cbind (lib_deflate_get_bits rd dr 3) (\<lambda>bits dr.
           case nth_opt blc_order i of
             None \<Rightarrow> (Oob, dr)
           | Some k \<Rightarrow> blc_lengths rd blc_num dr (huffman[k := bits]) (Suc i)))"
  by pat_completeness auto
termination
  by (relation "measure (\<lambda>(rd, num, dr, huffman, i). num - i)") auto

declare blc_lengths.simps [simp del]

text \<open>
  One table: read its code lengths, then build it into an array of \<open>cap\<close> entries, which \<open>set_tree\<close>
  stores; the array is written even when the construction then fails.
\<close>

definition code_table :: "'s reader \<Rightarrow> nat list \<Rightarrow> nat \<Rightarrow> nat \<Rightarrow>
    (nat list \<Rightarrow> 's lib_deflate_reader \<Rightarrow> 's lib_deflate_reader) \<Rightarrow>
    's lib_deflate_reader \<Rightarrow> nat list \<Rightarrow> nat list cres \<times> 's lib_deflate_reader" where
  "code_table rd tree num cap set_tree dr huffman =
     cbind (code_lengths rd tree num dr huffman 0) (\<lambda>huffman dr.
       case lib_deflate_build_huffman (take num huffman) cap of
         (res, t) \<Rightarrow> cbind (res, set_tree t dr) (\<lambda>_ dr. (Ret huffman, dr)))"

definition dynamic_block :: "'s reader \<Rightarrow> 's lib_deflate_reader \<Rightarrow> unit cres \<times> 's lib_deflate_reader" where
  "dynamic_block rd dr =
     cbind (lib_deflate_get_bits_long rd dr 14) (\<lambda>blc_dc_lc dr.
       let lc_num = 257 + blc_dc_lc mod 32;
           dc_num = 1 + (blc_dc_lc div 32) mod 32;
           blc_num = 4 + blc_dc_lc div 1024
       in cbind (blc_lengths rd blc_num dr (replicate 288 0) 0) (\<lambda>huffman dr.
          cbind (fst (lib_deflate_build_huffman (take 19 huffman) (19 + 7)), dr) (\<lambda>blc_tree dr.
          cbind (code_table rd blc_tree lc_num (288 + 15) (\<lambda>t dr. dr\<lparr>huffman_lc_tree := t\<rparr>) dr huffman) (\<lambda>huffman dr.
          cbind (code_table rd blc_tree dc_num (32 + 15) (\<lambda>t dr. dr\<lparr>huffman_dc_tree := t\<rparr>) dr huffman) (\<lambda>_ dr.
            (Ret (), dr\<lparr>dstate := LIB_DEFLATE_STATE_HUFFMAN\<rparr>))))))"

definition static_lc_tree :: "nat list" where
  "static_lc_tree =
     (push_bit 4 (280 - 256) OR 7) # [256..<280] @
     (push_bit 4 (144 - 0 + 288 - 280) OR 1) # [0..<144] @ [280..<288] @
     (push_bit 4 (256 - 144) OR 1) # [144..<256]"

definition static_dc_tree :: "nat list" where
  "static_dc_tree = (push_bit 4 (32 - 0) OR 5) # [0..<32]"

definition static_block :: "'s lib_deflate_reader \<Rightarrow> 's lib_deflate_reader" where
  "static_block dr = dr\<lparr>huffman_lc_tree := static_lc_tree, huffman_dc_tree := static_dc_tree,
                        dstate := LIB_DEFLATE_STATE_HUFFMAN\<rparr>"

text \<open>A stored block drops the rest of the bit buffer; \<open>rd_buf\<close> has little-endian LEN and NLEN.\<close>

definition stored_block :: "'s reader \<Rightarrow> 's lib_deflate_reader \<Rightarrow> unit cres \<times> 's lib_deflate_reader" where
  "stored_block rd dr =
     (case rd (read_p dr) 4 of
        (r, s) \<Rightarrow> cbind (r, dr\<lparr>bitlen := 0, read_p := s\<rparr>) (\<lambda>(res, bs) dr.
          if res < 4 then (short_read res, dr)
          else let len = le_bytes (take 2 bs); nlen = le_bytes (take 2 (drop 2 bs))
               in if len + nlen \<noteq> 0xffff then (Err (deflate_err DEFLATE_INVALID_COPY_LENGTH), dr)
                  else (Ret (), dr\<lparr>copy_len := len, dstate := LIB_DEFLATE_STATE_STORED_BLOCK\<rparr>)))"

definition read_block_header :: "'s reader \<Rightarrow> 's lib_deflate_reader \<Rightarrow> unit cres \<times> 's lib_deflate_reader" where
  "read_block_header rd dr =
     cbind (lib_deflate_get_bits rd dr 3) (\<lambda>bits dr.
       let dr = dr\<lparr>is_last_block := odd bits\<rparr>; block_type = bits div 2
       in if block_type = 0 then stored_block rd dr
          else if block_type = 1 then (Ret (), static_block dr)
          else if block_type = 2 then dynamic_block rd dr
          else (Err (deflate_err DEFLATE_RESERVED_BLOCK_TYPE), dr))"

section \<open>Output and window\<close>

text \<open>\<open>buf[buf_pos++] = token\<close> and the update of the window that follows it.\<close>

definition push_window :: "'s lib_deflate_reader \<Rightarrow> u8 \<Rightarrow> 's lib_deflate_reader" where
  "push_window dr b = dr\<lparr>look_behind := (look_behind dr)(lb_pos dr := b), lb_pos := (lb_pos dr + 1) mod 32768,
     lb_size := (if lb_size dr < 32768 then lb_size dr + 1 else lb_size dr)\<rparr>"

text \<open>
  What one pass of the outer loop does: it goes on with the new state and output, or the function
  returns.
\<close>

datatype 's inflate_run =
    Go "'s lib_deflate_reader" "u8 list"
  | Stop "int cres" "'s lib_deflate_reader" "u8 list"

fun and_then :: "'s inflate_run \<Rightarrow> ('s lib_deflate_reader \<Rightarrow> u8 list \<Rightarrow> 's inflate_run) \<Rightarrow> 's inflate_run" where
  "and_then (Go dr out) f = f dr out"
| "and_then (Stop r dr out) f = Stop r dr out"

text \<open>A sub-call whose error is returned: \<open>if (res < 0) return res;\<close>.\<close>

fun or_return :: "'a cres \<times> 's lib_deflate_reader \<Rightarrow> u8 list \<Rightarrow> ('a \<Rightarrow> 's lib_deflate_reader \<Rightarrow> 's inflate_run) \<Rightarrow>
    's inflate_run" where
  "or_return (Ret a, dr) out f = f a dr"
| "or_return (Err e, dr) out f = Stop (Ret e) dr out"
| "or_return (Oob, dr) out f = Stop Oob dr out"
| "or_return (Spin, dr) out f = Stop Spin dr out"

definition new_block_phase :: "'s reader \<Rightarrow> 's lib_deflate_reader \<Rightarrow> u8 list \<Rightarrow> 's inflate_run" where
  "new_block_phase rd dr out =
     (if dstate dr = LIB_DEFLATE_STATE_NEW_BLOCK then
        (if is_last_block dr then Stop (Ret (int (length out))) dr out
         else or_return (read_block_header rd dr) out (\<lambda>_ dr. Go dr out))
      else Go dr out)"

text \<open>
  The copy loop of a stored block.  \<open>res < copylen\<close> compares a \<open>ssize_t\<close> with a \<open>size_t\<close>: the result
  is converted to an unsigned 32-bit number first.  The reader writes into the window, the copy to
  the output comes from there.  A pass that copies nothing would repeat forever.
\<close>

definition write_window :: "(nat \<Rightarrow> u8) \<Rightarrow> nat \<Rightarrow> u8 list \<Rightarrow> nat \<Rightarrow> u8" where
  "write_window w p bs = (\<lambda>i. if p \<le> i \<and> i < p + length bs then bs ! (i - p) else w i)"

definition stored_chunk :: "'s reader \<Rightarrow> nat \<Rightarrow> 's lib_deflate_reader \<Rightarrow> u8 list \<Rightarrow> 's inflate_run" where
  "stored_chunk rd n dr out =
     (let copylen = min (min (copy_len dr) (n - length out)) (32768 - lb_pos dr);
          (r, s) = rd (read_p dr) copylen;
          dr = dr\<lparr>read_p := s\<rparr>
      in if copylen = 0 then Stop Spin dr out
         else or_return (r, dr) out (\<lambda>(res, bs) dr.
           let dr = dr\<lparr>look_behind := write_window (look_behind dr) (lb_pos dr) (take copylen bs)\<rparr>
           in if nat (res mod 2 ^ 32) < copylen then or_return (short_read res, dr) out (\<lambda>(_ :: unit) dr. Go dr out)
              else Go (dr\<lparr>copy_len := copy_len dr - copylen,
                          lb_pos := (lb_pos dr + copylen) mod 32768,
                          lb_size := (if lb_size dr < 32768 then lb_size dr + copylen else lb_size dr)\<rparr>)
                      (out @ map (look_behind dr) [lb_pos dr..<lb_pos dr + copylen])))"

lemma or_return_Go: "or_return m out f = Go dr' out' \<Longrightarrow> \<exists>a dr. m = (Ret a, dr) \<and> f a dr = Go dr' out'"
  by (cases "(m, out, f)" rule: or_return.cases) auto

lemma stored_chunk_less:
  assumes "stored_chunk rd n dr out = Go dr' out'"
  shows "copy_len dr' < copy_len dr"
proof -
  define c where "c = min (min (copy_len dr) (n - length out)) (32768 - lb_pos dr)"
  obtain r s where rd: "rd (read_p dr) c = (r, s)" by (cases "rd (read_p dr) c")
  note * = assms [unfolded stored_chunk_def, folded c_def, unfolded rd Let_def prod.case]
  then have c: "c \<noteq> 0" by (auto split: if_splits)
  obtain res bs where r: "r = Ret (res, bs)"
    using * c by (auto dest!: or_return_Go)
  have "\<not> nat (res mod 2 ^ 32) < c"
    using * c by (auto simp: r short_read_def)
  then have "copy_len dr' = copy_len dr - c"
    using * c by (auto simp: r)
  moreover have "c \<le> copy_len dr" by (simp add: c_def)
  ultimately show ?thesis using c by linarith
qed

lemma and_then_cong [fundef_cong]:
  assumes "m = m'" and "\<And>dr out. m' = Go dr out \<Longrightarrow> f dr out = f' dr out"
  shows "and_then m f = and_then m' f'"
  using assms by (cases m') auto

function stored_copy :: "'s reader \<Rightarrow> nat \<Rightarrow> 's lib_deflate_reader \<Rightarrow> u8 list \<Rightarrow> 's inflate_run" where
  "stored_copy rd n dr out =
     (if copy_len dr = 0 then Go (dr\<lparr>dstate := LIB_DEFLATE_STATE_NEW_BLOCK\<rparr>) out
      else if n \<le> length out then Stop (Ret (int (length out))) dr out
      else and_then (stored_chunk rd n dr out) (stored_copy rd n))"
  by pat_completeness auto
termination
  by (relation "measure (\<lambda>(rd, n, dr, out). copy_len dr)") (auto dest: stored_chunk_less)

declare stored_copy.simps [simp del]

definition stored_phase :: "'s reader \<Rightarrow> nat \<Rightarrow> 's lib_deflate_reader \<Rightarrow> u8 list \<Rightarrow> 's inflate_run" where
  "stored_phase rd n dr out =
     (if dstate dr = LIB_DEFLATE_STATE_STORED_BLOCK then stored_copy rd n dr out else Go dr out)"

section \<open>Huffman blocks\<close>

definition clp :: "nat list" where
  "clp = [3,4,5,6,7,8,9,10,11,13,15,17,19,23,27,31,35,43,51,59,67,83,99,115,131,163,195,227,258]"

definition clb :: "nat list" where
  "clb = [0,0,0,0,0,0,0,0,1,1,1,1,2,2,2,2,3,3,3,3,4,4,4,4,5,5,5,5,0]"

definition dcp :: "nat list" where
  "dcp = [1,2,3,4,5,7,9,13,17,25,33,49,65,97,129,193,257,385,513,769,1025,1537,2049,3073,4097,6145,
          8193,12289,16385,24577]"

definition dcb :: "nat list" where
  "dcb = [0,0,0,0,1,1,2,2,3,3,4,4,5,5,6,6,7,7,8,8,9,9,10,10,11,11,12,12,13,13]"

text \<open>The length and distance of a copy; \<open>token\<close> is the literal/length symbol minus 257.\<close>

definition read_copy :: "'s reader \<Rightarrow> 's lib_deflate_reader \<Rightarrow> nat \<Rightarrow> unit cres \<times> 's lib_deflate_reader" where
  "read_copy rd dr token =
     (if 29 \<le> token then (Err (deflate_err DEFLATE_HUFFMAN_RESERVED_LENGTH), dr)
      else cbind (if clb ! token \<noteq> 0 then lib_deflate_get_bits rd dr (clb ! token) else (Ret 0, dr)) (\<lambda>extra dr.
           let len = extra + clp ! token
           in cbind (lib_deflate_get_huffman rd dr (huffman_dc_tree dr)) (\<lambda>token dr.
              if 30 \<le> token then (Err (deflate_err DEFLATE_HUFFMAN_RESERVED_LENGTH), dr)
              else cbind (if dcb ! token \<noteq> 0 then lib_deflate_get_bits_long rd dr (dcb ! token) else (Ret 0, dr)) (\<lambda>extra dr.
                   let dist = extra + dcp ! token
                   in if lb_size dr < dist then (Err (deflate_err DEFLATE_HUFFMAN_INVALID_DISTANCE), dr)
                      else (Ret (), dr\<lparr>copy_dist := dist, copy_len := len,
                                     dstate := LIB_DEFLATE_STATE_HUFFMAN_REPEAT\<rparr>)))))"

definition huffman_phase :: "'s reader \<Rightarrow> nat \<Rightarrow> 's lib_deflate_reader \<Rightarrow> u8 list \<Rightarrow> 's inflate_run" where
  "huffman_phase rd n dr out =
     (if dstate dr = LIB_DEFLATE_STATE_HUFFMAN then
        or_return (lib_deflate_get_huffman rd dr (huffman_lc_tree dr)) out (\<lambda>token dr.
          if token < 256 then
            (if n \<le> length out then Stop Oob dr out
             else Go (push_window dr (of_nat token)) (out @ [of_nat token]))
          else if token = 256 then Go (dr\<lparr>dstate := LIB_DEFLATE_STATE_NEW_BLOCK\<rparr>) out
          else or_return (read_copy rd dr (token - 257)) out (\<lambda>_ dr. Go dr out))
      else Go dr out)"

function repeat_copy :: "nat \<Rightarrow> 's lib_deflate_reader \<Rightarrow> u8 list \<Rightarrow> 's inflate_run" where
  "repeat_copy n dr out =
     (if copy_len dr = 0 then Go (dr\<lparr>dstate := LIB_DEFLATE_STATE_HUFFMAN\<rparr>) out
      else if n \<le> length out then Stop (Ret (int (length out))) dr out
      else let dr = dr\<lparr>copy_len := copy_len dr - 1\<rparr>;
               pos = nat ((int (lb_pos dr) - int (copy_dist dr)) mod 32768);
               token = look_behind dr pos
           in repeat_copy n (push_window dr token) (out @ [token]))"
  by pat_completeness auto
termination
  by (relation "measure (\<lambda>(n, dr, out). copy_len dr)") (auto simp: push_window_def)

declare repeat_copy.simps [simp del]

definition repeat_phase :: "nat \<Rightarrow> 's lib_deflate_reader \<Rightarrow> u8 list \<Rightarrow> 's inflate_run" where
  "repeat_phase n dr out =
     (if dstate dr = LIB_DEFLATE_STATE_HUFFMAN_REPEAT then repeat_copy n dr out else Go dr out)"

section \<open>The decoder\<close>

definition inflate_pass :: "'s reader \<Rightarrow> nat \<Rightarrow> 's lib_deflate_reader \<Rightarrow> u8 list \<Rightarrow> 's inflate_run" where
  "inflate_pass rd n dr out =
     and_then (and_then (and_then (new_block_phase rd dr out)
       (stored_phase rd n)) (huffman_phase rd n)) (repeat_phase n)"

fun inflate_running :: "nat \<Rightarrow> 's inflate_run \<Rightarrow> bool" where
  "inflate_running n (Go dr out) = (length out < n)"
| "inflate_running n (Stop r dr out) = False"

fun inflate_step :: "'s reader \<Rightarrow> nat \<Rightarrow> 's inflate_run \<Rightarrow> 's inflate_run" where
  "inflate_step rd n (Go dr out) = inflate_pass rd n dr out"
| "inflate_step rd n (Stop r dr out) = Stop r dr out"

fun inflate_result :: "'s inflate_run \<Rightarrow> (int \<times> u8 list) cres \<times> 's lib_deflate_reader" where
  "inflate_result (Go dr out) = (Ret (int (length out), out), dr)"
| "inflate_result (Stop (Ret r) dr out) = (Ret (r, out), dr)"
| "inflate_result (Stop (Err e) dr out) = (Ret (e, out), dr)"
| "inflate_result (Stop Oob dr out) = (Oob, dr)"
| "inflate_result (Stop Spin dr out) = (Spin, dr)"

text \<open>The decoder is itself a reader: the image decoder calls it through \<open>lib_reader_read_t\<close>.\<close>

definition lib_deflate_read :: "'s reader \<Rightarrow> 's lib_deflate_reader reader" where
  "lib_deflate_read rd dr n =
     (case while_option (inflate_running n) (inflate_step rd n) (Go dr []) of
        None \<Rightarrow> (Spin, dr)
      | Some run \<Rightarrow> inflate_result run)"

end
