(* ===== verification/Png_Chunks.thy ===== *)
theory Png_Chunks
  imports Checksums Inflate
begin

text \<open>
  The chunk layer of the PNG reader (components/png/png_reader.c): \<open>lib_png_chunk_read\<close>,
  \<open>lib_png_chunk_read_data\<close> and \<open>lib_png_chunk_read_idat\<close>.

  The part of \<open>struct lib_png_reader\<close> this layer uses, the underlying reader and the current
  chunk, is a record of its own, because the deflate decoder inside \<open>struct lib_png_reader\<close> calls
  back into this layer.  Every operation is a function of the underlying reader \<open>rd\<close> and of the
  CRC routine \<open>crc\<close> (the ESP32 ROM's \<open>crc32_le\<close>, or \<open>lib_crc32\<close>).  A negative return is
  \<open>Ret\<close> of the negative value where the function is used as a reader, together with the bytes it
  wrote, and \<open>Err\<close> elsewhere.
\<close>

section \<open>Types and error codes\<close>

datatype lib_png_error =
    PNG_OUT_OF_MEMORY
  | PNG_MISSING_SIGNATURE
  | PNG_UNEXPECTED_END_OF_FILE
  | PNG_UNEXPECTED_END_OF_CHUNK
  | PNG_CHUNK_TOO_LARGE
  | PNG_INVALID_FIRST_CHUNK
  | PNG_UNKNOWN_CRITICAL_CHUNK
  | PNG_ADLER32_CHECKSUM_MISMATCH
  | PNG_CRC32_CHECKSUM_MISMATCH
  | PNG_INVALID_PNG_TYPE
  | PNG_NO_PALETTE_FOUND
  | PNG_MULTIPLE_PALETTES_FOUND
  | PNG_PALETTE_NOT_ALLOWED_FOR_PNG_TYPE
  | PNG_INVALID_PALETTE_SIZE
  | PNG_INVALID_DEFLATE_HEADER
  | PNG_INVALID_PNG_SCANLINE_TYPE

fun png_err :: "lib_png_error \<Rightarrow> int" where
  "png_err PNG_OUT_OF_MEMORY = - 0x1101"
| "png_err PNG_MISSING_SIGNATURE = - 0x1102"
| "png_err PNG_UNEXPECTED_END_OF_FILE = - 0x1103"
| "png_err PNG_UNEXPECTED_END_OF_CHUNK = - 0x1104"
| "png_err PNG_CHUNK_TOO_LARGE = - 0x1105"
| "png_err PNG_INVALID_FIRST_CHUNK = - 0x1106"
| "png_err PNG_UNKNOWN_CRITICAL_CHUNK = - 0x1107"
| "png_err PNG_ADLER32_CHECKSUM_MISMATCH = - 0x1108"
| "png_err PNG_CRC32_CHECKSUM_MISMATCH = - 0x1109"
| "png_err PNG_INVALID_PNG_TYPE = - 0x110a"
| "png_err PNG_NO_PALETTE_FOUND = - 0x110b"
| "png_err PNG_MULTIPLE_PALETTES_FOUND = - 0x110c"
| "png_err PNG_PALETTE_NOT_ALLOWED_FOR_PNG_TYPE = - 0x110d"
| "png_err PNG_INVALID_PALETTE_SIZE = - 0x110e"
| "png_err PNG_INVALID_DEFLATE_HEADER = - 0x110f"
| "png_err PNG_INVALID_PNG_SCANLINE_TYPE = - 0x1110"

record lib_png_chunk =
  in_chunk :: bool
  ctype :: u32
  clen :: u32
  ccrc :: u32

record 's png_source =
  src :: 's                \<comment> \<open>\<open>read_p\<close>\<close>
  chunk :: lib_png_chunk

text \<open>The target is little-endian: a 32-bit field read from four bytes, and \<open>__builtin_bswap32\<close>.\<close>

definition le32 :: "u8 list \<Rightarrow> u32" where
  "le32 bs = of_nat (le_bytes (take 4 bs))"

definition u32_bytes :: "u32 \<Rightarrow> u8 list" where
  "u32_bytes w = map (\<lambda>i. ucast (drop_bit (8 * i) w)) [0, 1, 2, 3]"

definition bswap32 :: "u32 \<Rightarrow> u32" where
  "bswap32 w = le32 (rev (u32_bytes w))"

text \<open>A read of up to four bytes into a 32-bit field.\<close>

definition overlay32 :: "u8 list \<Rightarrow> u32 \<Rightarrow> u32" where
  "overlay32 bs w = le32 (take 4 bs @ drop (length bs) (u32_bytes w))"

definition TYPE_ANCILLARY :: u32 where "TYPE_ANCILLARY = 0x00000020"
definition TYPE_IHDR :: u32 where "TYPE_IHDR = 0x52444849"
definition TYPE_PLTE :: u32 where "TYPE_PLTE = 0x45544C50"
definition TYPE_IDAT :: u32 where "TYPE_IDAT = 0x54414449"
definition TYPE_IEND :: u32 where "TYPE_IEND = 0x444E4549"

definition LIB_CRC32_INIT :: u32 where "LIB_CRC32_INIT = 0"

section \<open>Chunk headers and data\<close>

text \<open>One call of \<open>pr->read\<close>: the outcome and the bytes it wrote, a negative result included.\<close>

definition png_read :: "'s reader \<Rightarrow> 's png_source \<Rightarrow> nat \<Rightarrow> (int \<times> u8 list) cres \<times> 's png_source" where
  "png_read rd ps n = (case rd (src ps) n of (r, s) \<Rightarrow> (r, ps\<lparr>src := s\<rparr>))"

text \<open>The checks after a read of \<open>n\<close> bytes whose errors are returned.\<close>

definition check_read :: "int \<Rightarrow> nat \<Rightarrow> 's \<Rightarrow> unit cres \<times> 's" where
  "check_read res n s =
     (if res < 0 then (Err res, s)
      else if res < int n then (Err (png_err PNG_UNEXPECTED_END_OF_FILE), s) else (Ret (), s))"

definition lib_png_chunk_read ::
  "'s reader \<Rightarrow> (u8 list \<Rightarrow> u32 \<Rightarrow> u32) \<Rightarrow> 's png_source \<Rightarrow> int cres \<times> 's png_source" where
  "lib_png_chunk_read rd crc ps =
     (if in_chunk (chunk ps) then (Err (png_err PNG_UNEXPECTED_END_OF_FILE), ps)
      else cbind (png_read rd ps 4) (\<lambda>(res, bs) ps.
        let len = overlay32 bs (clen (chunk ps))
        in cbind (check_read res 4 (ps\<lparr>chunk := (chunk ps)\<lparr>clen := len\<rparr>\<rparr>)) (\<lambda>_ ps.
        let ps = ps\<lparr>chunk := (chunk ps)\<lparr>clen := bswap32 len\<rparr>\<rparr>
        in cbind (png_read rd ps 4) (\<lambda>(res, bs) ps.
        let ty = overlay32 bs (ctype (chunk ps))
        in cbind (check_read res 4 (ps\<lparr>chunk := (chunk ps)\<lparr>ctype := ty\<rparr>\<rparr>)) (\<lambda>_ ps.
        let ps = ps\<lparr>chunk := (chunk ps)\<lparr>ccrc := crc (u32_bytes ty) LIB_CRC32_INIT, in_chunk := True\<rparr>\<rparr>;
            ret = sint (clen (chunk ps))
        in (if ret < 0 then Err ret else Ret ret, ps))))))"

text \<open>
  The data reader: like every reader it returns its result and the bytes it wrote.  A caller's
  buffer of \<open>buf_len\<close> bytes is never overrun, because the length is first cut to what the chunk
  still holds.
\<close>

definition lib_png_chunk_read_data ::
  "'s reader \<Rightarrow> (u8 list \<Rightarrow> u32 \<Rightarrow> u32) \<Rightarrow> 's png_source \<Rightarrow> nat \<Rightarrow> (int \<times> u8 list) cres \<times> 's png_source" where
  "lib_png_chunk_read_data rd crc ps buf_len =
     (let n = (if unat (clen (chunk ps)) < buf_len then unat (clen (chunk ps)) else buf_len)
      in cbind (png_read rd ps n) (\<lambda>(res, bs) ps.
         if res < 0 then (Ret (res, bs), ps)
         else if res < int n then (Ret (png_err PNG_UNEXPECTED_END_OF_FILE, bs), ps)
         else let c = chunk ps;
                  c = c\<lparr>clen := clen c - of_nat n, ccrc := crc bs (ccrc c)\<rparr>;
                  ps = ps\<lparr>chunk := c\<rparr>
              in if clen c = 0 then
                   cbind (png_read rd ps 4) (\<lambda>(res, cb) ps.
                     if res < 0 then (Ret (res, bs), ps)
                     else if res < 4 then (Ret (png_err PNG_UNEXPECTED_END_OF_FILE, bs), ps)
                     else if ccrc (chunk ps) \<noteq> bswap32 (le32 cb)
                     then (Ret (png_err PNG_CRC32_CHECKSUM_MISMATCH, bs), ps)
                     else (Ret (int n, bs), ps\<lparr>chunk := (chunk ps)\<lparr>in_chunk := False\<rparr>\<rparr>))
                 else (Ret (int n, bs), ps)))"

text \<open>The same with the caller's \<open>if (res < 0) return res;\<close>.\<close>

definition read_data_or_fail ::
  "'s reader \<Rightarrow> (u8 list \<Rightarrow> u32 \<Rightarrow> u32) \<Rightarrow> 's png_source \<Rightarrow> nat \<Rightarrow> u8 list cres \<times> 's png_source" where
  "read_data_or_fail rd crc ps n =
     cbind (lib_png_chunk_read_data rd crc ps n) (\<lambda>(res, bs) ps. (if res < 0 then Err res else Ret bs, ps))"

text \<open>\<open>while (pr->chunk.in_chunk)\<close>: read the rest of a chunk in pieces of 256 bytes and drop it.\<close>

definition skip_chunk ::
  "'s reader \<Rightarrow> (u8 list \<Rightarrow> u32 \<Rightarrow> u32) \<Rightarrow> 's png_source \<Rightarrow> unit cres \<times> 's png_source" where
  "skip_chunk rd crc ps =
     loop_c (\<lambda>_ ps. if in_chunk (chunk ps) then cbind (read_data_or_fail rd crc ps 256) (\<lambda>_ ps. (Ret (More ()), ps))
                    else (Ret (Done ()), ps)) () ps"

text \<open>
  The loop that looks for the next \<open>IDAT\<close> chunk: an ancillary chunk (a lower-case first letter) is
  skipped, any other is an error.
\<close>

definition next_idat ::
  "'s reader \<Rightarrow> (u8 list \<Rightarrow> u32 \<Rightarrow> u32) \<Rightarrow> 's png_source \<Rightarrow> unit cres \<times> 's png_source" where
  "next_idat rd crc ps =
     loop_c (\<lambda>_ ps.
       if in_chunk (chunk ps) then (Ret (Done ()), ps)
       else cbind (lib_png_chunk_read rd crc ps) (\<lambda>_ ps.
         if ctype (chunk ps) = TYPE_IDAT then (Ret (Done ()), ps)
         else if ctype (chunk ps) AND TYPE_ANCILLARY = 0 then (Err (png_err PNG_UNKNOWN_CRITICAL_CHUNK), ps)
         else cbind (skip_chunk rd crc ps) (\<lambda>_ ps. (Ret (More ()), ps)))) () ps"

text \<open>The accumulator is what has been written to the caller's buffer so far.\<close>

definition lib_png_chunk_read_idat ::
  "'s reader \<Rightarrow> (u8 list \<Rightarrow> u32 \<Rightarrow> u32) \<Rightarrow> 's png_source reader" where
  "lib_png_chunk_read_idat rd crc ps buf_len =
     loop_c (\<lambda>acc ps.
       if buf_len \<le> length acc then (Ret (Done (int (length acc), acc)), ps)
       else case next_idat rd crc ps of
           (Err e, ps) \<Rightarrow> (Ret (Done (e, acc)), ps)
         | (Oob, ps) \<Rightarrow> (Oob, ps)
         | (Spin, ps) \<Rightarrow> (Spin, ps)
         | (Ret _, ps) \<Rightarrow>
             cbind (lib_png_chunk_read_data rd crc ps (buf_len - length acc)) (\<lambda>(res, bs) ps.
               if res < 0 then (Ret (Done (res, acc @ bs)), ps)
               else (Ret (More (acc @ bs)), ps))) [] ps"

end
