(* ===== verification/Png_Decode.thy ===== *)
theory Png_Decode
  imports Png_Chunks
begin

text \<open>
  The pixel layer of the PNG reader (components/png/png_reader.c): header, scanline filters, pixel
  formats, compositing into the 8-bit frame buffer, and the Adam7 passes of \<open>lib_png_load_image\<close>.

  \<open>uint32_t\<close> values whose wrap-around can be reached are \<open>u32\<close>; loop counters are natural numbers
  bounded by such a value.
\<close>

section \<open>State\<close>

record lib_png_ihdr =
  ih_width :: u32
  ih_height :: u32
  bit_depth :: u8
  color_type :: u8
  compression_method :: u8
  filter_method :: u8
  interlace_method :: u8

text \<open>
  \<open>struct lib_png_reader\<close>: \<open>read\<close> and \<open>chunk\<close> are in \<open>psrc\<close>; once the deflate decoder exists they
  live in its reader state, and \<open>psrc\<close> is taken back from there when decoding ends.
\<close>

record 's lib_png_reader =
  psrc :: "'s png_source"
  ihdr :: lib_png_ihdr
  palette :: "u8 list option"
  palette_len :: int
  scanline_bpp :: u8
  scanline_width :: u32
  scanline :: "u8 list"
  pdr :: "'s png_source lib_deflate_reader"
  padler :: u32

definition lib_png_new :: "'s \<Rightarrow> 's lib_png_reader" where
  "lib_png_new s =
     (let ps = \<lparr>src = s, chunk = \<lparr>in_chunk = False, ctype = 0, clen = 0, ccrc = 0\<rparr>\<rparr>
      in \<lparr>psrc = ps,
          ihdr = \<lparr>ih_width = 0, ih_height = 0, bit_depth = 0, color_type = 0, compression_method = 0,
                  filter_method = 0, interlace_method = 0\<rparr>,
          palette = None, palette_len = 0, scanline_bpp = 0, scanline_width = 0, scanline = [],
          pdr = lib_deflate_init ps, padler = 0\<rparr>)"

text \<open>Run an operation of the chunk layer on the reader.\<close>

definition on_src :: "('s png_source \<Rightarrow> 'a cres \<times> 's png_source) \<Rightarrow> 's lib_png_reader \<Rightarrow> 'a cres \<times> 's lib_png_reader" where
  "on_src f pr = (case f (psrc pr) of (r, ps) \<Rightarrow> (r, pr\<lparr>psrc := ps\<rparr>))"

section \<open>Reading decompressed bytes\<close>

definition lib_png_deflate_read ::
  "'s reader \<Rightarrow> (u8 list \<Rightarrow> u32 \<Rightarrow> u32) \<Rightarrow> 's lib_png_reader \<Rightarrow> nat \<Rightarrow> u8 list cres \<times> 's lib_png_reader" where
  "lib_png_deflate_read rd crc pr buf_len =
     (case lib_deflate_read (lib_png_chunk_read_idat rd crc) (pdr pr) buf_len of
        (r, dr) \<Rightarrow> cbind (r, pr\<lparr>pdr := dr\<rparr>) (\<lambda>(res, bs) pr.
          if res < 0 then (Err res, pr)
          else if res < int buf_len then (Err (png_err PNG_UNEXPECTED_END_OF_FILE), pr)
          else (Ret bs, pr\<lparr>padler := lib_adler32 bs (padler pr)\<rparr>)))"

section \<open>Scanline filters\<close>

definition lib_png_paeth :: "u8 \<Rightarrow> u8 \<Rightarrow> u8 \<Rightarrow> u8" where
  "lib_png_paeth left up upleft =
     (let a = int (unat left); b = int (unat up); c = int (unat upleft);
          p = a + b - c;
          pa = (if p < a then a - p else p - a);
          pb = (if p < b then b - p else p - b);
          pc = (if p < c then c - p else p - c)
      in if pa \<le> pb \<and> pa \<le> pc then left else if pb \<le> pc then up else upleft)"

text \<open>
  The buffer \<open>s\<close> holds the line (the previous line before filters 2, 3 and 4) in its first \<open>w\<close> bytes,
  and for filters 2, 3 and 4 the bytes just read in the next \<open>w\<close>.
\<close>

definition filter_sub :: "nat \<Rightarrow> nat \<Rightarrow> u8 list \<Rightarrow> u8 list" where
  "filter_sub bpp w s = foldl (\<lambda>s x. s[x := s ! x + s ! (x - bpp)]) s [bpp..<w]"

definition filter_up :: "nat \<Rightarrow> u8 list \<Rightarrow> u8 list" where
  "filter_up w s = foldl (\<lambda>s x. s[x := s ! x + s ! (x + w)]) s [0..<w]"

definition filter_average :: "nat \<Rightarrow> nat \<Rightarrow> u8 list \<Rightarrow> u8 list" where
  "filter_average bpp w s =
     (let s = foldl (\<lambda>s x. s[x := of_nat (unat (s ! x) div 2) + s ! (x + w)]) s [0..<min w bpp]
      in foldl (\<lambda>s x. s[x := of_nat ((unat (s ! (x - bpp)) + unat (s ! x)) div 2) + s ! (x + w)]) s [min w bpp..<w])"

text \<open>\<open>up_prev\<close> is the array of eight bytes that keeps the overwritten part of the previous line.\<close>

definition filter_paeth :: "nat \<Rightarrow> nat \<Rightarrow> u8 list \<Rightarrow> u8 list" where
  "filter_paeth bpp w s =
     (let (s, up) = foldl (\<lambda>(s, up) x.
            let b = s ! x in (s[x := lib_png_paeth 0 b 0 + s ! (x + w)], up[x := b])) (s, replicate 8 0) [0..<min w bpp];
          (s, up) = foldl (\<lambda>(s, up) x.
            let a = s ! (x - bpp); b = s ! x; c = up ! ((x - bpp) mod 8)
            in (s[x := lib_png_paeth a b c + s ! (x + w)], up[x mod 8 := b])) (s, up) [min w bpp..<w]
      in s)"

definition apply_filter :: "u8 \<Rightarrow> nat \<Rightarrow> nat \<Rightarrow> u8 list \<Rightarrow> u8 list cres" where
  "apply_filter ty bpp w s =
     (if ty = 0 then Ret s
      else if ty = 1 then Ret (filter_sub bpp w s)
      else if ty = 2 then Ret (filter_up w s)
      else if ty = 3 then Ret (filter_average bpp w s)
      else if ty = 4 then Ret (filter_paeth bpp w s)
      else Err (png_err PNG_INVALID_PNG_SCANLINE_TYPE))"

section \<open>Pixels\<close>

text \<open>
  The bytes of the scanline a pixel needs; the index is computed in \<open>uint32_t\<close>.  A byte outside the
  allocated buffer is \<open>Oob\<close>.
\<close>

definition sl_bytes :: "u8 list \<Rightarrow> nat \<Rightarrow> nat \<Rightarrow> nat list option" where
  "sl_bytes s n x =
     (if list_all (\<lambda>k. (x * n + k) mod 2 ^ 32 < length s) [0..<n]
      then Some (map (\<lambda>k. unat (s ! ((x * n + k) mod 2 ^ 32))) [0..<n]) else None)"

definition sl_bits :: "u8 list \<Rightarrow> nat \<Rightarrow> nat \<Rightarrow> nat option" where
  "sl_bits s depth x =
     (let per = 8 div depth; i = x div per
      in if i < length s
         then Some ((unat (s ! i) div 2 ^ ((per - 1 - x mod per) * depth)) mod 2 ^ depth) else None)"

definition word16 :: "nat \<Rightarrow> nat \<Rightarrow> nat" where
  "word16 hi lo = hi * 256 + lo"

text \<open>Red, green, blue and alpha, 16 bits each.\<close>

type_synonym rgba = "nat \<times> nat \<times> nat \<times> nat"

definition grey_pixel :: "nat \<Rightarrow> nat \<Rightarrow> rgba" where
  "grey_pixel v a = (v, v, v, a)"

definition pixel :: "u8 \<Rightarrow> u8 \<Rightarrow> u8 list option \<Rightarrow> int \<Rightarrow> u8 list \<Rightarrow> nat \<Rightarrow> rgba option" where
  "pixel ctyp depth pal pal_len s x =
     (if ctyp = 0 then
        (if depth = 16 then map_option (\<lambda>b. grey_pixel (word16 (b ! 0) (b ! 1)) 0xffff) (sl_bytes s 2 x)
         else if depth = 8 then map_option (\<lambda>b. grey_pixel (b ! 0 * 0x0101) 0xffff) (sl_bytes s 1 x)
         else if depth = 4 then map_option (\<lambda>v. grey_pixel (v * 0x1111) 0xffff) (sl_bits s 4 x)
         else if depth = 2 then map_option (\<lambda>v. grey_pixel (v * 0x5555) 0xffff) (sl_bits s 2 x)
         else if depth = 1 then map_option (\<lambda>v. grey_pixel (v * 0xffff) 0xffff) (sl_bits s 1 x)
         else Some (0, 0, 0, 0xffff))
      else if ctyp = 2 then
        (if depth = 16 then map_option (\<lambda>b. (word16 (b ! 0) (b ! 1), word16 (b ! 2) (b ! 3), word16 (b ! 4) (b ! 5), 0xffff))
             (sl_bytes s 6 x)
         else if depth = 8 then map_option (\<lambda>b. (b ! 0 * 0x0101, b ! 1 * 0x0101, b ! 2 * 0x0101, 0xffff)) (sl_bytes s 3 x)
         else Some (0, 0, 0, 0xffff))
      else if ctyp = 3 then
        Option.bind
          (if depth = 8 then map_option (\<lambda>b. b ! 0) (sl_bytes s 1 x)
           else if depth = 4 then sl_bits s 4 x
           else if depth = 2 then sl_bits s 2 x
           else if depth = 1 then sl_bits s 1 x
           else Some 0)
          (\<lambda>b. if int b < pal_len
               then (case pal of
                   None \<Rightarrow> None
                 | Some p \<Rightarrow>
                     if b * 3 + 2 < length p
                     then Some (unat (p ! (b * 3)) * 0x0101, unat (p ! (b * 3 + 1)) * 0x0101, unat (p ! (b * 3 + 2)) * 0x0101, 0xffff)
                     else None)
               else Some (0, 0, 0, 0xffff))
      else if ctyp = 4 then
        (if depth = 16 then map_option (\<lambda>b. grey_pixel (word16 (b ! 0) (b ! 1)) (word16 (b ! 2) (b ! 3))) (sl_bytes s 4 x)
         else if depth = 8 then map_option (\<lambda>b. grey_pixel (b ! 0 * 0x0101) (b ! 1 * 0x0101)) (sl_bytes s 2 x)
         else Some (0, 0, 0, 0))
      else if ctyp = 6 then
        (if depth = 16 then map_option (\<lambda>b. (word16 (b ! 0) (b ! 1), word16 (b ! 2) (b ! 3), word16 (b ! 4) (b ! 5),
             word16 (b ! 6) (b ! 7))) (sl_bytes s 8 x)
         else if depth = 8 then map_option (\<lambda>b. (b ! 0 * 0x0101, b ! 1 * 0x0101, b ! 2 * 0x0101, b ! 3 * 0x0101)) (sl_bytes s 4 x)
         else Some (0, 0, 0, 0))
      else Some (0, 0, 0, 0))"

text \<open>
  Compositing: \<open>dst[ptr] * 0x0101 * (0xffff - a)\<close> is an \<open>int\<close> product that exceeds \<open>INT_MAX\<close> for
  bright pixels and is then converted to \<open>uint32_t\<close>; it is computed modulo \<open>2^32\<close> here.
\<close>

definition blend :: "u8 \<Rightarrow> rgba \<Rightarrow> u8" where
  "blend d = (\<lambda>(r, g, b, a).
     let grey = (of_nat ((r + g + b + 1) div 3) :: u32)
     in if a = 0xffff then ucast (drop_bit 8 grey)
        else let v = ucast d * 0x0101 * (of_nat (0xffff - a)) + grey * of_nat a;
                 v = v + 0x8000;
                 v = v div 0xffff
             in ucast (drop_bit 8 v))"

text \<open>\<open>int ptr = y * dst_linelen + x * dst_pixlen\<close>, computed in \<open>uint32_t\<close>, relative to the pass origin.\<close>

definition dst_index :: "nat \<Rightarrow> nat \<Rightarrow> u32 \<Rightarrow> u32 \<Rightarrow> nat \<Rightarrow> int" where
  "dst_index base y linelen pixlen x = int base + sint (of_nat y * linelen + of_nat x * pixlen)"

definition put_pixel :: "nat \<Rightarrow> u32 \<Rightarrow> u32 \<Rightarrow> u32 \<Rightarrow> u32 \<Rightarrow> u32 \<Rightarrow> u32 \<Rightarrow> nat \<Rightarrow> nat \<Rightarrow> rgba \<Rightarrow> u8 list \<Rightarrow> u8 list option" where
  "put_pixel base min_x min_y dw dh pixlen linelen y x p dst =
     (case p of (r, g, b, a) \<Rightarrow>
        if a \<noteq> 0 \<and> unat min_x \<le> x \<and> x < unat dw \<and> unat min_y \<le> y \<and> y < unat dh
        then (let ptr = dst_index base y linelen pixlen x
              in if 0 \<le> ptr \<and> nat ptr < length dst then Some (dst[nat ptr := blend (dst ! nat ptr) p]) else None)
        else Some dst)"

section \<open>A pass of the image\<close>

text \<open>The state of a pass: the reader and the frame buffer.\<close>

type_synonym 's png_state = "'s lib_png_reader \<times> u8 list"

definition set_scanline :: "u8 list \<Rightarrow> 's png_state \<Rightarrow> 's png_state" where
  "set_scanline s = (\<lambda>(pr, dst). (pr\<lparr>scanline := s\<rparr>, dst))"

text \<open>Read decompressed bytes into the scanline buffer at \<open>pos\<close>.\<close>

definition read_scanline ::
  "'s reader \<Rightarrow> (u8 list \<Rightarrow> u32 \<Rightarrow> u32) \<Rightarrow> nat \<Rightarrow> nat \<Rightarrow> 's png_state \<Rightarrow> unit cres \<times> 's png_state" where
  "read_scanline rd crc pos w = (\<lambda>(pr, dst).
     if length (scanline pr) < pos + w then (Oob, (pr, dst))
     else case lib_png_deflate_read rd crc pr w of
         (r, pr) \<Rightarrow> cbind (r, (pr, dst)) (\<lambda>bs (pr, dst).
           (Ret (), (pr\<lparr>scanline := take pos (scanline pr) @ bs @ drop (pos + w) (scanline pr)\<rparr>, dst))))"

definition decode_pixel ::
  "nat \<Rightarrow> u32 \<Rightarrow> u32 \<Rightarrow> u32 \<Rightarrow> u32 \<Rightarrow> u32 \<Rightarrow> u32 \<Rightarrow> nat \<Rightarrow> nat \<Rightarrow> 's png_state \<Rightarrow> unit cres \<times> 's png_state" where
  "decode_pixel base min_x min_y dw dh pixlen linelen y x = (\<lambda>(pr, dst).
     case pixel (color_type (ihdr pr)) (bit_depth (ihdr pr)) (palette pr) (palette_len pr) (scanline pr) x of
       None \<Rightarrow> (Oob, (pr, dst))
     | Some p \<Rightarrow>
         (case put_pixel base min_x min_y dw dh pixlen linelen y x p dst of
            None \<Rightarrow> (Oob, (pr, dst))
          | Some dst' \<Rightarrow> (Ret (), (pr, dst'))))"

definition decode_line ::
  "'s reader \<Rightarrow> (u8 list \<Rightarrow> u32 \<Rightarrow> u32) \<Rightarrow> u32 \<Rightarrow> u32 \<Rightarrow> nat \<Rightarrow> u32 \<Rightarrow> u32 \<Rightarrow> u32 \<Rightarrow> u32 \<Rightarrow> u32 \<Rightarrow> u32 \<Rightarrow> nat \<Rightarrow>
    's png_state \<Rightarrow> unit cres \<times> 's png_state" where
  "decode_line rd crc width sl_width base min_x min_y dw dh pixlen linelen y = (\<lambda>(pr, dst).
     case lib_png_deflate_read rd crc pr 1 of
       (r, pr) \<Rightarrow> cbind (r, (pr, dst)) (\<lambda>ty st.
         let ty = hd ty; w = unat sl_width
         in cbind (read_scanline rd crc (if ty < 2 then 0 else w) w st) (\<lambda>_ (pr, dst).
            cbind (apply_filter ty (unat (scanline_bpp pr)) w (scanline pr), (pr, dst)) (\<lambda>s st.
            for_c (decode_pixel base min_x min_y dw dh pixlen linelen y) [0..<unat width] (set_scanline s st)))))"

text \<open>\<open>dst\<close> of a pass is the frame buffer from \<open>base\<close> on.\<close>

definition lib_png_decode ::
  "'s reader \<Rightarrow> (u8 list \<Rightarrow> u32 \<Rightarrow> u32) \<Rightarrow> u32 \<Rightarrow> u32 \<Rightarrow> u32 \<Rightarrow> nat \<Rightarrow> u32 \<Rightarrow> u32 \<Rightarrow> u32 \<Rightarrow> u32 \<Rightarrow> u32 \<Rightarrow> u32 \<Rightarrow>
    's png_state \<Rightarrow> unit cres \<times> 's png_state" where
  "lib_png_decode rd crc width height sl_width base min_x min_y dw dh pixlen linelen = (\<lambda>(pr, dst).
     if length (scanline pr) < unat sl_width then (Oob, (pr, dst))
     else let s = replicate (unat sl_width) 0 @ drop (unat sl_width) (scanline pr)
          in for_c (decode_line rd crc width sl_width base min_x min_y dw dh pixlen linelen) [0..<unat height]
               (pr\<lparr>scanline := s\<rparr>, dst))"

section \<open>Header\<close>

definition png_sig :: "u8 list" where
  "png_sig = [0x89, 0x50, 0x4e, 0x47, 0x0d, 0x0a, 0x1a, 0x0a]"

text \<open>The 13 bytes of the packed \<open>struct lib_png_ihdr\<close> as read, before the byte swap.\<close>

definition ihdr_of_bytes :: "u8 list \<Rightarrow> lib_png_ihdr" where
  "ihdr_of_bytes bs =
     \<lparr>ih_width = le32 bs, ih_height = le32 (drop 4 bs), bit_depth = bs ! 8, color_type = bs ! 9,
      compression_method = bs ! 10, filter_method = bs ! 11, interlace_method = bs ! 12\<rparr>"

definition ihdr_bytes :: "lib_png_ihdr \<Rightarrow> u8 list" where
  "ihdr_bytes h = u32_bytes (ih_width h) @ u32_bytes (ih_height h) @
     [bit_depth h, color_type h, compression_method h, filter_method h, interlace_method h]"

definition ihdr_valid :: "lib_png_ihdr \<Rightarrow> bool" where
  "ihdr_valid h =
     (let d = bit_depth h
      in \<not> (ih_width h = 0 \<or> ih_width h > 0x80000000) \<and> \<not> (ih_height h = 0 \<or> ih_height h > 0x80000000) \<and>
         (if color_type h = 0 then d = 1 \<or> d = 2 \<or> d = 4 \<or> d = 8 \<or> d = 16
          else if color_type h = 2 \<or> color_type h = 4 \<or> color_type h = 6 then d = 8 \<or> d = 16
          else if color_type h = 3 then d = 1 \<or> d = 2 \<or> d = 4 \<or> d = 8
          else False) \<and>
         compression_method h = 0 \<and> filter_method h = 0 \<and> interlace_method h \<le> 1)"

definition bits_per_pixel :: "lib_png_ihdr \<Rightarrow> u32" where
  "bits_per_pixel h = ucast (bit_depth h) *
     (if color_type h = 2 then 3 else if color_type h = 4 then 2 else if color_type h = 6 then 4 else 1)"

text \<open>
  The header is read once: a second call returns at once when \<open>bit_depth\<close> is set.  The chunk data
  goes straight into \<open>ihdr\<close>, also when the read fails.
\<close>

definition lib_png_read_header ::
  "'s reader \<Rightarrow> (u8 list \<Rightarrow> u32 \<Rightarrow> u32) \<Rightarrow> 's lib_png_reader \<Rightarrow> unit cres \<times> 's lib_png_reader" where
  "lib_png_read_header rd crc pr =
     (if bit_depth (ihdr pr) \<noteq> 0 then (Ret (), pr)
      else cbind (on_src (\<lambda>ps. png_read rd ps 8) pr) (\<lambda>(res, sig) pr.
        cbind (check_read res 8 pr) (\<lambda>_ pr.
        if take 8 sig \<noteq> png_sig then (Err (png_err PNG_MISSING_SIGNATURE), pr)
        else cbind (on_src (lib_png_chunk_read rd crc) pr) (\<lambda>_ pr.
        if ctype (chunk (psrc pr)) \<noteq> TYPE_IHDR then (Err (png_err PNG_INVALID_FIRST_CHUNK), pr)
        else cbind (on_src (\<lambda>ps. lib_png_chunk_read_data rd crc ps 13) pr) (\<lambda>(res, bs) pr.
        let pr = pr\<lparr>ihdr := ihdr_of_bytes (bs @ drop (length bs) (ihdr_bytes (ihdr pr)))\<rparr>
        in if res < 0 then (Err res, pr)
           else if res < 13 then (Err (png_err PNG_UNEXPECTED_END_OF_CHUNK), pr)
           else if clen (chunk (psrc pr)) \<noteq> 0 then (Err (png_err PNG_CHUNK_TOO_LARGE), pr)
           else let h = ihdr pr;
                    h = h\<lparr>ih_width := bswap32 (ih_width h), ih_height := bswap32 (ih_height h)\<rparr>;
                    pr = pr\<lparr>ihdr := h\<rparr>
                in if \<not> ihdr_valid h then (Err (png_err PNG_INVALID_PNG_TYPE), pr)
                   else (Ret (), pr\<lparr>scanline_bpp := ucast (drop_bit 3 (bits_per_pixel h + 7)),
                                   scanline_width := drop_bit 3 (ih_width h * bits_per_pixel h + 7)\<rparr>)))))) "

section \<open>Loading an image\<close>

text \<open>The chunks before the first \<open>IDAT\<close>: a palette is stored, ancillary chunks are skipped.\<close>

definition read_palette ::
  "'s reader \<Rightarrow> (u8 list \<Rightarrow> u32 \<Rightarrow> u32) \<Rightarrow> 's lib_png_reader \<Rightarrow> unit cres \<times> 's lib_png_reader" where
  "read_palette rd crc pr =
     (let len = unat (clen (chunk (psrc pr)))
      in if palette pr \<noteq> None then (Err (png_err PNG_MULTIPLE_PALETTES_FOUND), pr)
         else if len > 768 \<or> len mod 3 \<noteq> 0 then (Err (png_err PNG_INVALID_PALETTE_SIZE), pr)
         else let pr = pr\<lparr>palette := Some (replicate len 0), palette_len := int (len div 3)\<rparr>
              in cbind (on_src (\<lambda>ps. lib_png_chunk_read_data rd crc ps len) pr) (\<lambda>(res, bs) pr.
                 let pr = pr\<lparr>palette := Some (take len (bs @ replicate len 0))\<rparr>
                 in if res < 0 then (Err res, pr) else (Ret (), pr)))"

definition find_first_idat ::
  "'s reader \<Rightarrow> (u8 list \<Rightarrow> u32 \<Rightarrow> u32) \<Rightarrow> 's lib_png_reader \<Rightarrow> unit cres \<times> 's lib_png_reader" where
  "find_first_idat rd crc pr =
     loop_c (\<lambda>_ pr.
       cbind (on_src (lib_png_chunk_read rd crc) pr) (\<lambda>_ pr.
       let ty = ctype (chunk (psrc pr))
       in if ty = TYPE_IDAT then (Ret (Done ()), pr)
          else if ty = TYPE_PLTE then cbind (read_palette rd crc pr) (\<lambda>_ pr. (Ret (More ()), pr))
          else if ty AND TYPE_ANCILLARY = 0 then (Err (png_err PNG_UNKNOWN_CRITICAL_CHUNK), pr)
          else cbind (on_src (skip_chunk rd crc) pr) (\<lambda>_ pr. (Ret (More ()), pr)))) () pr"

definition find_iend ::
  "'s reader \<Rightarrow> (u8 list \<Rightarrow> u32 \<Rightarrow> u32) \<Rightarrow> 's png_source \<Rightarrow> unit cres \<times> 's png_source" where
  "find_iend rd crc ps =
     loop_c (\<lambda>_ ps.
       cbind (lib_png_chunk_read rd crc ps) (\<lambda>_ ps.
       if ctype (chunk ps) = TYPE_IEND then (Ret (Done ()), ps)
       else if ctype (chunk ps) AND TYPE_ANCILLARY = 0 then (Err (png_err PNG_UNKNOWN_CRITICAL_CHUNK), ps)
       else cbind (skip_chunk rd crc ps) (\<lambda>_ ps. (Ret (More ()), ps)))) () ps"

text \<open>The two bytes of the zlib header (RFC 1950).\<close>

definition rfc1950_header_ok :: "u8 \<Rightarrow> u8 \<Rightarrow> bool" where
  "rfc1950_header_ok h0 h1 \<longleftrightarrow>
     \<not> (h0 AND 0x0f \<noteq> 0x08 \<or> h0 > 0x78 \<or> h1 AND 0x20 \<noteq> 0 \<or> (unat h0 * 256 + unat h1) mod 31 \<noteq> 0)"

text \<open>
  The Adam7 passes: offset of the first pixel in the frame buffer (rows and columns), the rounding
  constants and shifts of the width and height computations, and the pixel and line steps.
\<close>

record adam7_pass =
  x_add :: u32
  x_shift :: nat
  y_add :: u32
  y_shift :: nat
  x_base :: nat
  y_base :: nat
  pix_step :: u32
  line_step :: u32

definition adam7_passes :: "adam7_pass list" where
  "adam7_passes =
    [\<lparr>x_add = 7, x_shift = 3, y_add = 7, y_shift = 3, x_base = 0, y_base = 0, pix_step = 8, line_step = 8\<rparr>,
     \<lparr>x_add = 3, x_shift = 3, y_add = 7, y_shift = 3, x_base = 4, y_base = 0, pix_step = 8, line_step = 8\<rparr>,
     \<lparr>x_add = 3, x_shift = 2, y_add = 3, y_shift = 3, x_base = 0, y_base = 4, pix_step = 4, line_step = 8\<rparr>,
     \<lparr>x_add = 1, x_shift = 2, y_add = 3, y_shift = 2, x_base = 2, y_base = 0, pix_step = 4, line_step = 4\<rparr>,
     \<lparr>x_add = 1, x_shift = 1, y_add = 1, y_shift = 2, x_base = 0, y_base = 2, pix_step = 2, line_step = 4\<rparr>,
     \<lparr>x_add = 0, x_shift = 1, y_add = 1, y_shift = 1, x_base = 1, y_base = 0, pix_step = 2, line_step = 2\<rparr>,
     \<lparr>x_add = 0, x_shift = 0, y_add = 0, y_shift = 1, x_base = 0, y_base = 1, pix_step = 1, line_step = 2\<rparr>]"

definition shrink_x :: "adam7_pass \<Rightarrow> u32 \<Rightarrow> u32" where
  "shrink_x p v = drop_bit (x_shift p) (v + x_add p)"

definition shrink_y :: "adam7_pass \<Rightarrow> u32 \<Rightarrow> u32" where
  "shrink_y p v = drop_bit (y_shift p) (v + y_add p)"

definition decode_pass ::
  "'s reader \<Rightarrow> (u8 list \<Rightarrow> u32 \<Rightarrow> u32) \<Rightarrow> u32 \<Rightarrow> u32 \<Rightarrow> u32 \<Rightarrow> u32 \<Rightarrow> u32 \<Rightarrow> adam7_pass \<Rightarrow>
    's png_state \<Rightarrow> unit cres \<times> 's png_state" where
  "decode_pass rd crc min_x min_y dw dh linelen p st =
     (let h = ihdr (fst st); width = shrink_x p (ih_width h); height = shrink_y p (ih_height h)
      in if width = 0 \<or> height = 0 then (Ret (), st)
         else lib_png_decode rd crc width height (drop_bit 3 (width * bits_per_pixel h + 7))
                (x_base p + unat (of_nat (y_base p) * linelen))
                (shrink_x p min_x) (shrink_y p min_y) (shrink_x p dw) (shrink_y p dh)
                (pix_step p) (linelen * line_step p) st)"

definition decode_image ::
  "'s reader \<Rightarrow> (u8 list \<Rightarrow> u32 \<Rightarrow> u32) \<Rightarrow> u32 \<Rightarrow> u32 \<Rightarrow> u32 \<Rightarrow> u32 \<Rightarrow> u32 \<Rightarrow> 's png_state \<Rightarrow> unit cres \<times> 's png_state" where
  "decode_image rd crc min_x min_y dw dh linelen st =
     (if interlace_method (ihdr (fst st)) = 0
      then lib_png_decode rd crc (ih_width (ihdr (fst st))) (ih_height (ihdr (fst st))) (scanline_width (fst st))
             0 min_x min_y dw dh 1 linelen st
      else for_c (decode_pass rd crc min_x min_y dw dh linelen) adam7_passes st)"

text \<open>After the image: end of the deflate stream, checksum, and the \<open>IEND\<close> chunk.\<close>

definition finish_image ::
  "'s reader \<Rightarrow> (u8 list \<Rightarrow> u32 \<Rightarrow> u32) \<Rightarrow> 's lib_png_reader \<Rightarrow> unit cres \<times> 's lib_png_reader" where
  "finish_image rd crc pr =
     (case lib_deflate_read (lib_png_chunk_read_idat rd crc) (pdr pr) 1 of
        (r, dr) \<Rightarrow> cbind (r, pr\<lparr>pdr := dr, psrc := read_p dr\<rparr>) (\<lambda>(res, bs) pr.
          if res < 0 then (Err res, pr)
          else if res \<noteq> 0 then (Err (png_err PNG_CHUNK_TOO_LARGE), pr)
          else cbind (on_src (\<lambda>ps. lib_png_chunk_read_idat rd crc ps 4) pr) (\<lambda>(res, cb) pr.
          if res < 0 then (Err res, pr)
          else if res < 4 then (Err (png_err PNG_UNEXPECTED_END_OF_CHUNK), pr)
          else if padler pr \<noteq> bswap32 (le32 cb) then (Err (png_err PNG_ADLER32_CHECKSUM_MISMATCH), pr)
          else cbind (on_src (find_iend rd crc) pr) (\<lambda>_ pr.
          if clen (chunk (psrc pr)) \<noteq> 0 then (Err (png_err PNG_CHUNK_TOO_LARGE), pr)
          else cbind (on_src (\<lambda>ps. read_data_or_fail rd crc ps 1) pr) (\<lambda>_ pr. (Ret (), pr))))))"

text \<open>\<open>mem\<close> says whether the two allocations succeed: the scanline buffer and the decoder.\<close>

definition lib_png_load_image ::
  "'s reader \<Rightarrow> (u8 list \<Rightarrow> u32 \<Rightarrow> u32) \<Rightarrow> (nat \<Rightarrow> bool) \<Rightarrow> u32 \<Rightarrow> u32 \<Rightarrow> u32 \<Rightarrow> u32 \<Rightarrow> u32 \<Rightarrow>
    's lib_png_reader \<Rightarrow> u8 list \<Rightarrow> unit cres \<times> 's png_state" where
  "lib_png_load_image rd crc mem min_x min_y dw dh linelen pr dst =
     (case cbind (lib_png_read_header rd crc pr) (\<lambda>_ pr.
        cbind (find_first_idat rd crc pr) (\<lambda>_ pr.
        if color_type (ihdr pr) = 3 \<and> palette pr = None then (Err (png_err PNG_NO_PALETTE_FOUND), pr)
        else if color_type (ihdr pr) = 0 \<and> palette pr \<noteq> None then (Err (png_err PNG_PALETTE_NOT_ALLOWED_FOR_PNG_TYPE), pr)
        else if color_type (ihdr pr) = 4 \<and> palette pr \<noteq> None then (Err (png_err PNG_PALETTE_NOT_ALLOWED_FOR_PNG_TYPE), pr)
        else if \<not> mem 0 then (Err (png_err PNG_OUT_OF_MEMORY), pr)
        else let pr = pr\<lparr>scanline := replicate (unat (scanline_width pr * 2)) 0\<rparr>
        in cbind (on_src (\<lambda>ps. lib_png_chunk_read_idat rd crc ps 2) pr) (\<lambda>(res, hdr) pr.
        if res < 0 then (Err res, pr)
        else if res < 2 then (Err (png_err PNG_UNEXPECTED_END_OF_CHUNK), pr)
        else if \<not> rfc1950_header_ok (hdr ! 0) (hdr ! 1) then (Err (png_err PNG_INVALID_DEFLATE_HEADER), pr)
        else if \<not> mem 1 then (Err (png_err PNG_OUT_OF_MEMORY), pr)
        else (Ret (), pr\<lparr>pdr := lib_deflate_init (psrc pr), padler := 1\<rparr>)))) of
      (r, pr) \<Rightarrow> cbind (r, (pr, dst)) (\<lambda>_ st.
        cbind (decode_image rd crc min_x min_y dw dh linelen st) (\<lambda>_ (pr, dst).
        case finish_image rd crc pr of (r, pr) \<Rightarrow> (r, (pr, dst)))))"

end
