(* ===== verification/Redundancy.thy ===== *)
theory Redundancy
  imports Badge_Prelude
begin

text \<open>
  The erasure code of components/redundancy/redundancy.c: arithmetic in the binary field of
  \<open>GBF_BITS = 16\<close> bits with a table-driven multiplication, inversion by the extended Euclidean
  algorithm, matrix inversion, and the encoder and decoder.

  The static tables \<open>gbf_clmul\<close> and \<open>gbf_clmod\<close> are a record that \<open>gbf_init\<close> returns and every
  operation takes.  A failed \<open>assert\<close> is \<open>None\<close>.
\<close>

section \<open>Tables\<close>

abbreviation LU_BITS :: nat where "LU_BITS \<equiv> 4"
abbreviation LU_NUM :: nat where "LU_NUM \<equiv> 16"
abbreviation LU_BLOCKS :: nat where "LU_BLOCKS \<equiv> 4"
abbreviation GBF_BITS :: nat where "GBF_BITS \<equiv> 16"

definition GBF_POLYNOME :: u16 where "GBF_POLYNOME = 0x2b"

record gbf_tables =
  gbf_clmul :: "u8 list"
  gbf_clmod :: "u16 list"

text \<open>\<open>while (_i) { if (_i & 1) v ^= _j; _i >>= 1; _j <<= 1; }\<close>\<close>

function clmul_entry :: "nat \<Rightarrow> nat \<Rightarrow> u8 \<Rightarrow> u8" where
  "clmul_entry i j v =
     (if i = 0 then v
      else clmul_entry (i div 2) (2 * j) (if odd i then v XOR of_nat j else v))"
  by pat_completeness auto
termination
  by (relation "measure (\<lambda>(i, j, v). i)") auto

declare clmul_entry.simps [simp del]

text \<open>\<open>bits[i]\<close>: the polynome shifted by \<open>i\<close>, reduced.\<close>

fun clmod_bits :: "u16 \<Rightarrow> nat \<Rightarrow> u16" where
  "clmod_bits polynome 0 = polynome"
| "clmod_bits polynome (Suc i) =
     (let prev = clmod_bits polynome i; v = push_bit 1 prev
      in if drop_bit (GBF_BITS - 1) prev \<noteq> 0 then v XOR polynome else v)"

function clmod_entry :: "u16 \<Rightarrow> nat \<Rightarrow> nat \<Rightarrow> u16 \<Rightarrow> u16" where
  "clmod_entry polynome i b v =
     (if i = 0 then v
      else clmod_entry polynome (i div 2) (Suc b) (if odd i then v XOR clmod_bits polynome b else v))"
  by pat_completeness auto
termination
  by (relation "measure (\<lambda>(p, i, b, v). i)") auto

declare clmod_entry.simps [simp del]

definition gbf_init :: "u16 \<Rightarrow> gbf_tables" where
  "gbf_init polynome =
     \<lparr>gbf_clmul = concat (map (\<lambda>i. map (\<lambda>j. clmul_entry i j 0) [0..<LU_NUM]) [0..<LU_NUM]),
      gbf_clmod = map (\<lambda>i. clmod_entry polynome i 0 0) [0..<LU_NUM]\<rparr>"

section \<open>Multiplication\<close>

text \<open>The inner loop over \<open>x\<close>, for the digit \<open>bl\<close> of the product.\<close>

definition gbf_digit :: "gbf_tables \<Rightarrow> u16 \<Rightarrow> u16 \<Rightarrow> nat \<Rightarrow> u16 \<Rightarrow> u16" where
  "gbf_digit t v1 v2 bl p =
     snd (foldl (\<lambda>(i_x, p) x.
        (drop_bit LU_BITS i_x,
         if x \<le> bl \<and> bl - x < LU_BLOCKS
         then p XOR ucast (gbf_clmul t ! (unat (i_x AND 15) * LU_NUM + unat (drop_bit ((bl - x) * LU_BITS) v2 AND 15)))
         else p)) (v1, p) [0..<LU_BLOCKS])"

definition gbf_mul :: "gbf_tables \<Rightarrow> u16 \<Rightarrow> u16 \<Rightarrow> u16" where
  "gbf_mul t v1 v2 =
     foldl (\<lambda>p bl. gbf_digit t v1 v2 bl
              (push_bit LU_BITS p XOR gbf_clmod t ! unat (drop_bit (GBF_BITS - LU_BITS) p)))
       0 (rev [0..<2 * (LU_BLOCKS - 1) + 1])"

function gbf_pwr_loop :: "gbf_tables \<Rightarrow> u16 \<Rightarrow> nat \<Rightarrow> u16 \<Rightarrow> u16" where
  "gbf_pwr_loop t v1 v2 p =
     (if v2 = 0 then p
      else let p = (if odd v2 then gbf_mul t p v1 else p); v2 = v2 div 2
           in if v2 = 0 then p else gbf_pwr_loop t (gbf_mul t v1 v1) v2 p)"
  by pat_completeness auto
termination
  by (relation "measure (\<lambda>(t, v1, v2, p). v2)") auto

declare gbf_pwr_loop.simps [simp del]

definition gbf_pwr :: "gbf_tables \<Rightarrow> u16 \<Rightarrow> u16 \<Rightarrow> u16" where
  "gbf_pwr t v1 v2 = gbf_pwr_loop t v1 (unat v2) 1"

section \<open>Inversion\<close>

text \<open>\<open>for (r_hbit = 15; r_hbit >= 0; r_hbit--) if (r >> r_hbit) break;\<close> for \<open>r \<noteq> 0\<close>.\<close>

definition high_bit :: "u16 \<Rightarrow> nat" where
  "high_bit r = (case filter (\<lambda>b. drop_bit b r \<noteq> 0) (rev [0..<GBF_BITS]) of [] \<Rightarrow> 0 | b # _ \<Rightarrow> b)"

text \<open>The division loop \<open>for (bit = 15; bit >= r_hbit; bit--)\<close>.\<close>

definition gbf_divide :: "u16 \<Rightarrow> nat \<Rightarrow> u16 \<times> u16 \<Rightarrow> u16 \<times> u16" where
  "gbf_divide r r_hbit st =
     foldl (\<lambda>(old_r, quo) b.
        if drop_bit b old_r \<noteq> 0
        then (old_r XOR push_bit (b - r_hbit) r, quo OR push_bit (b - r_hbit) 1) else (old_r, quo))
       st (rev [r_hbit..<GBF_BITS])"

text \<open>
  \<open>while (r)\<close>, with the swaps at the end of each round.  The bound makes the recursion structural;
  16 rounds are enough because the degree of \<open>r\<close> falls in every round.
\<close>

fun gbf_inv_loop :: "gbf_tables \<Rightarrow> nat \<Rightarrow> u16 \<Rightarrow> u16 \<Rightarrow> u16 \<Rightarrow> u16 \<Rightarrow> (u16 \<times> u16 \<times> u16) option" where
  "gbf_inv_loop t 0 r old_r tt old_t = (if r = 0 then Some (old_r, tt, old_t) else None)"
| "gbf_inv_loop t (Suc fuel) r old_r tt old_t =
     (if r = 0 then Some (old_r, tt, old_t)
      else let (rem, quo) = gbf_divide r (high_bit r) (old_r, 0)
           in gbf_inv_loop t fuel rem r (old_t XOR gbf_mul t quo tt) tt)"

definition gbf_inv :: "gbf_tables \<Rightarrow> u16 \<Rightarrow> u16 option" where
  "gbf_inv t r =
     (if r = 0 then None
      else if r = 1 then Some 1
      else let old_r = gbf_clmod t ! 1;
               r_hbit = high_bit r;
               old_r = old_r XOR push_bit (GBF_BITS - r_hbit) r;
               quo = push_bit (GBF_BITS - r_hbit) 1;
               (rem, quo) = gbf_divide r r_hbit (old_r, quo);
               old_t = 0 XOR gbf_mul t quo 1
           in case gbf_inv_loop t 16 rem r old_t 1 of
                None \<Rightarrow> None
              | Some (old_r, tt, old_t) \<Rightarrow> if old_r = 1 then Some (tt XOR old_t) else None)"

definition gbf_inv_phi :: "gbf_tables \<Rightarrow> u16 \<Rightarrow> u16 option" where
  "gbf_inv_phi t v1 = (if v1 = 0 then None else Some (gbf_pwr t v1 (- 2)))"

section \<open>Matrix inversion\<close>

text \<open>A matrix is the array \<open>matrix[size * size]\<close>; one round eliminates with row \<open>i\<close>.\<close>

definition scale_row :: "gbf_tables \<Rightarrow> nat \<Rightarrow> nat \<Rightarrow> u16 \<Rightarrow> u16 list \<Rightarrow> u16 list" where
  "scale_row t sz i iv m =
     (foldl (\<lambda>m j. m[i * sz + j := gbf_mul t (m ! (i * sz + j + 1)) iv]) m [0..<sz - 1])
       [i * sz + (sz - 1) := iv]"

definition eliminate_row :: "gbf_tables \<Rightarrow> nat \<Rightarrow> nat \<Rightarrow> nat \<Rightarrow> u16 list \<Rightarrow> u16 list" where
  "eliminate_row t sz i j m =
     (let mul = m ! (j * sz)
      in (foldl (\<lambda>m k. m[j * sz + k := m ! (j * sz + k + 1) XOR gbf_mul t mul (m ! (i * sz + k))]) m [0..<sz - 1])
           [j * sz + (sz - 1) := gbf_mul t mul (m ! (i * sz + (sz - 1)))])"

definition invmatrix_round :: "gbf_tables \<Rightarrow> nat \<Rightarrow> nat \<Rightarrow> u16 list \<Rightarrow> u16 list option" where
  "invmatrix_round t sz i m =
     (case gbf_inv t (m ! (i * sz)) of
        None \<Rightarrow> None
      | Some iv \<Rightarrow>
          Some (foldl (\<lambda>m j. if i = j then m else eliminate_row t sz i j m) (scale_row t sz i iv m) [0..<sz]))"

definition gbf_invmatrix :: "gbf_tables \<Rightarrow> u16 list \<Rightarrow> nat \<Rightarrow> u16 list option" where
  "gbf_invmatrix t matrix sz =
     foldl (\<lambda>m i. Option.bind m (invmatrix_round t sz i)) (Some matrix) [0..<sz]"

section \<open>Encoding and decoding\<close>

text \<open>The powers \<open>x[i] = vec^i\<close>.\<close>

definition gbf_powers :: "gbf_tables \<Rightarrow> u16 \<Rightarrow> nat \<Rightarrow> u16 list" where
  "gbf_powers t vec n = foldl (\<lambda>x i. x @ [gbf_mul t (last x) vec]) [1] [1..<n]"

text \<open>
  \<open>mem\<close> says whether the work array can be allocated (arrays up to 256 bytes are on the stack).  \<open>None\<close>
  is a failed assertion, an access outside the arrays, or an index that does not fit an \<open>int\<close>.
\<close>

definition MAX_STACK_ALLOC :: nat where "MAX_STACK_ALLOC = 256"

definition gbf_encode_one :: "gbf_tables \<Rightarrow> bool \<Rightarrow> u16 list \<Rightarrow> u16 \<Rightarrow> nat \<Rightarrow> nat \<Rightarrow> u16 list option" where
  "gbf_encode_one t mem data vec num_frag sz =
     (if vec = 0 \<or> num_frag = 0 \<or> length data < num_frag * sz then None
      else if 2 * num_frag > MAX_STACK_ALLOC \<and> \<not> mem then None
      else let x = gbf_powers t vec num_frag
           in Some (map (\<lambda>i. foldl (\<lambda>v j. v XOR gbf_mul t (data ! (i * num_frag + j)) (x ! j)) 0 [0..<num_frag]) [0..<sz]))"

definition gbf_decode :: "gbf_tables \<Rightarrow> bool \<Rightarrow> u16 list \<Rightarrow> u16 list \<Rightarrow> nat \<Rightarrow> nat \<Rightarrow> u16 list option" where
  "gbf_decode t mem data vec num_frag sz =
     (if length vec < num_frag \<or> length data < num_frag * sz \<or> 2 ^ 31 \<le> num_frag * num_frag \<or> 2 ^ 31 \<le> num_frag * sz then None
      else if 2 * num_frag * num_frag > MAX_STACK_ALLOC \<and> \<not> mem then None
      else case gbf_invmatrix t (concat (map (\<lambda>i. gbf_powers t (vec ! i) num_frag) [0..<num_frag])) num_frag of
          None \<Rightarrow> None
        | Some x \<Rightarrow>
            Some (foldl (\<lambda>out i. foldl (\<lambda>out j.
                out[j * num_frag + i :=
                  foldl (\<lambda>v k. v XOR gbf_mul t (data ! (k * sz + j)) (x ! (i * num_frag + k))) 0 [0..<num_frag]])
                out [0..<sz]) (replicate (num_frag * sz) 0) [0..<num_frag]))"

end
