(* ===== verification/Redundancy_Field.thy ===== *)
theory Redundancy_Field
  imports Redundancy
begin

text \<open>
  The arithmetic of components/redundancy/redundancy.c is that of the ring of binary polynomials
  modulo \<open>x^16 + polynome\<close>: the table-driven \<open>gbf_mul\<close> is the bit-by-bit product \<open>gf_mul\<close>,
  \<open>gbf_pwr\<close> is repeated multiplication, and \<open>gbf_inv\<close> returns nothing but inverses.
\<close>

section \<open>The field operations, one bit at a time\<close>

text \<open>Multiplication by \<open>x\<close>, and Horner's rule over the bits of the second factor.\<close>

definition xtime :: "u16 \<Rightarrow> u16 \<Rightarrow> u16" where
  "xtime poly a = push_bit 1 a XOR (if bit a 15 then poly else 0)"

fun horner :: "u16 \<Rightarrow> u16 \<Rightarrow> bool list \<Rightarrow> u16" where
  "horner poly a [] = 0"
| "horner poly a (b # bs) = (if b then a else 0) XOR xtime poly (horner poly a bs)"

definition word_bits :: "u16 \<Rightarrow> bool list" where
  "word_bits w = map (bit w) [0..<16]"

definition gf_mul :: "u16 \<Rightarrow> u16 \<Rightarrow> u16 \<Rightarrow> u16" where
  "gf_mul poly a b = horner poly a (word_bits b)"

lemmas xor_ac = xor.assoc xor.commute xor.left_commute

lemma xtime_xor: "xtime poly (a XOR b) = xtime poly a XOR xtime poly b"
  by (auto simp: xtime_def bit_xor_iff push_bit_xor xor_ac)

lemma xtime_0 [simp]: "xtime poly 0 = 0"
  by (simp add: xtime_def)

lemma horner_xor: "horner poly (a XOR b) bs = horner poly a bs XOR horner poly b bs"
  by (induction bs) (auto simp: xtime_xor xor_ac)

lemma horner_xtime: "horner poly (xtime poly a) bs = xtime poly (horner poly a bs)"
  by (induction bs) (auto simp: xtime_xor)

lemma horner_0 [simp]: "horner poly 0 bs = 0"
  by (induction bs) simp_all

lemma horner_bits: "length xs = length ys \<Longrightarrow>
   horner poly a (map2 (\<noteq>) xs ys) = horner poly a xs XOR horner poly a ys"
  by (induction xs ys rule: list_induct2) (auto simp: xtime_xor xor_ac)

lemma length_word_bits [simp]: "length (word_bits w) = 16"
  by (simp add: word_bits_def)

lemma word_bits_xor: "word_bits (a XOR b) = map2 (\<noteq>) (word_bits a) (word_bits b)"
  by (auto simp: word_bits_def bit_xor_iff zip_map1 zip_map2 zip_same_conv_map)

lemma gf_mul_xor_left: "gf_mul poly (a XOR b) c = gf_mul poly a c XOR gf_mul poly b c"
  by (simp add: gf_mul_def horner_xor)

lemma gf_mul_xor_right: "gf_mul poly a (b XOR c) = gf_mul poly a b XOR gf_mul poly a c"
  unfolding gf_mul_def word_bits_xor by (rule horner_bits) simp

lemma gf_mul_xtime: "gf_mul poly (xtime poly a) b = xtime poly (gf_mul poly a b)"
  by (simp add: gf_mul_def horner_xtime)

lemma horner_swap: "horner poly (horner poly a xs) ys = horner poly (horner poly a ys) xs"
  by (induction xs) (auto simp: horner_xor horner_xtime)

lemma bit_xtime:
  assumes "\<not> bit a 15"
  shows "bit (xtime poly a) i \<longleftrightarrow> 0 < i \<and> bit a (i - 1)"
proof -
  from assms have x: "xtime poly a = push_bit 1 a" by (simp only: xtime_def if_False xor.right_neutral)
  show ?thesis
  proof (cases "i < 16")
    case True
    then show ?thesis unfolding x by (auto simp: bit_push_bit_iff simp del: push_bit_Suc push_bit_eq_mult)
  next
    case False
    moreover have "\<not> bit a (i - 1)"
      using False assms bit_imp_le_length [of a "i - 1"] by (cases "i = 16") auto
    ultimately show ?thesis using bit_imp_le_length [of "xtime poly a" i] by auto
  qed
qed

lemma bit_horner_1: "length bs \<le> 16 \<Longrightarrow> bit (horner poly 1 bs) i \<longleftrightarrow> i < length bs \<and> bs ! i"
proof (induction bs arbitrary: i)
  case Nil
  then show ?case by simp
next
  case (Cons b bs)
  then have "\<not> bit (horner poly 1 bs) 15" by simp
  then show ?case
    using Cons by (cases i) (auto simp: bit_xor_iff bit_xtime bit_1_iff)
qed

lemma horner_1_word_bits: "horner poly 1 (word_bits a) = a"
  by (rule bit_word_eqI) (simp add: bit_horner_1 word_bits_def)

lemma gf_mul_1_left: "gf_mul poly 1 a = a"
  by (simp add: gf_mul_def horner_1_word_bits)

lemma gf_mul_commute: "gf_mul poly a b = gf_mul poly b a"
  unfolding gf_mul_def using horner_swap [of poly 1 "word_bits a" "word_bits b"]
  by (simp add: horner_1_word_bits)

lemma gf_mul_1_right [simp]: "gf_mul poly a 1 = a"
  using gf_mul_commute gf_mul_1_left by metis

lemma gf_mul_0 [simp]: "gf_mul poly 0 a = 0" "gf_mul poly a 0 = 0"
  using gf_mul_commute [of poly 0 a] by (simp_all add: gf_mul_def)

lemma gf_mul_assoc: "gf_mul poly (gf_mul poly a b) c = gf_mul poly a (gf_mul poly b c)"
  using horner_swap [of poly b "word_bits a" "word_bits c"] gf_mul_commute
  unfolding gf_mul_def by metis

section \<open>Four bits at a time\<close>

abbreviation xtime4 :: "u16 \<Rightarrow> u16 \<Rightarrow> u16" where
  "xtime4 poly a \<equiv> xtime poly (xtime poly (xtime poly (xtime poly a)))"

definition nib :: "nat \<Rightarrow> u16 \<Rightarrow> u16" where
  "nib k w = drop_bit (4 * k) w AND 15"

definition nib_bits :: "u16 \<Rightarrow> bool list" where
  "nib_bits w = map (bit w) [0..<4]"

lemma nib_bits_nib: "nib_bits (nib k w) = map (bit w) [4 * k..<4 * k + 4]"
proof -
  have m: "(15 :: u16) = mask 4" by (simp add: mask_eq_exp_minus_1)
  have "bit (nib k w) i = bit w (4 * k + i)" if "i < 4" for i
    using that unfolding nib_def m by (simp add: bit_and_iff bit_drop_bit_eq bit_mask_iff)
  then show ?thesis
    by (simp add: nib_bits_def list_eq_iff_nth_eq)
qed

lemma horner_append4: "length xs = 4 \<Longrightarrow> horner poly a (xs @ ys) = horner poly a xs XOR xtime4 poly (horner poly a ys)"
  by (auto simp: length_Suc_conv numeral_eq_Suc xtime_xor xor_ac)

lemma word_bits_nibs: "word_bits w = nib_bits (nib 0 w) @ nib_bits (nib 1 w) @ nib_bits (nib 2 w) @ nib_bits (nib 3 w)"
proof -
  have "[0..<16] = [0..<4] @ [4..<8] @ [8..<12] @ [12..<16 :: nat]"
    using upt_split [of 0 4 16] upt_split [of 4 8 16] upt_split [of 8 12 16] by simp
  then show ?thesis unfolding nib_bits_nib word_bits_def by simp
qed

lemma gf_mul_nibs: "gf_mul poly a b = horner poly a (nib_bits (nib 0 b)) XOR xtime4 poly (
    horner poly a (nib_bits (nib 1 b)) XOR xtime4 poly (
    horner poly a (nib_bits (nib 2 b)) XOR xtime4 poly (horner poly a (nib_bits (nib 3 b)))))"
  by (simp add: gf_mul_def word_bits_nibs horner_append4 nib_bits_def)

lemma funpow_xtime_xor: "(xtime poly ^^ n) (a XOR b) = (xtime poly ^^ n) a XOR (xtime poly ^^ n) b"
  by (induction n) (simp_all add: xtime_xor)

lemma horner_append: "horner poly a (xs @ ys) = horner poly a xs XOR (xtime poly ^^ length xs) (horner poly a ys)"
  by (induction xs) (auto simp: xtime_xor xor_ac)

lemma horner_funpow: "horner poly ((xtime poly ^^ n) a) bs = (xtime poly ^^ n) (horner poly a bs)"
  by (induction n) (simp_all add: horner_xtime)

lemma funpow_xtime_1: "n < 16 \<Longrightarrow> (xtime poly ^^ n) 1 = push_bit n 1"
proof (induction n)
  case 0
  then show ?case by simp
next
  case (Suc n)
  have b: "\<not> bit (push_bit n 1 :: u16) 15" using Suc.prems by (auto simp only: bit_push_bit_iff bit_1_iff)
  have "(xtime poly ^^ Suc n) 1 = xtime poly (push_bit n 1)"
    using Suc by (simp only: funpow.simps comp_apply)
  also have "\<dots> = push_bit 1 (push_bit n 1)"
    by (simp only: xtime_def b if_False xor.right_neutral)
  also have "\<dots> = push_bit (Suc n) 1" by (simp only: push_bit_push_bit add.commute plus_1_eq_Suc)
  finally show ?case .
qed

lemma xtime_16: "(xtime poly ^^ 16) 1 = poly"
proof -
  have "(xtime poly ^^ Suc 15) 1 = xtime poly (push_bit 15 1)"
    unfolding funpow.simps comp_def by (subst funpow_xtime_1) simp_all
  also have "\<dots> = push_bit 1 (push_bit 15 1) XOR poly"
    by (simp only: xtime_def bit_push_bit_iff) simp
  also have "push_bit 1 (push_bit 15 1) = (0 :: u16)" by code_simp
  finally have "(xtime poly ^^ Suc 15) 1 = 0 XOR poly" .
  then show ?thesis by simp
qed

lemma drop_bit_15: "drop_bit 15 (v :: u16) \<noteq> 0 \<longleftrightarrow> bit v 15"
proof
  assume "drop_bit 15 v \<noteq> 0"
  then obtain n where "bit v (15 + n)" by (auto simp: bit_eq_iff bit_drop_bit_eq)
  moreover from this have "n = 0" using bit_imp_le_length [of v "15 + n"] by simp
  ultimately show "bit v 15" by simp
next
  assume "bit v 15"
  then have "bit (drop_bit 15 v) 0" by (simp add: bit_drop_bit_eq)
  then show "drop_bit 15 v \<noteq> 0" by auto
qed

text \<open>The entries of the two tables.\<close>

lemma clmod_bits_xtime: "clmod_bits poly n = (xtime poly ^^ n) poly"
proof (induction n)
  case 0
  then show ?case by simp
next
  case (Suc n)
  then show ?case by (simp add: xtime_def Let_def drop_bit_15)
qed

text \<open>The bits of an index, as the table loops take them apart.\<close>

definition nat_bits :: "nat \<Rightarrow> nat \<Rightarrow> bool list" where
  "nat_bits n i = map (bit i) [0..<n]"

lemma nat_bits_Suc: "nat_bits (Suc n) i = odd i # nat_bits n (i div 2)"
  by (simp only: nat_bits_def map_upt_Suc bit_0 bit_Suc)

lemma nib_bits_nat: "nib_bits w = nat_bits 4 (unat w)"
  by (simp add: nib_bits_def nat_bits_def bit_unsigned_iff)

lemma xtime_of_nat: "j < 2 ^ 15 \<Longrightarrow> xtime p (of_nat j) = of_nat (2 * j)"
proof -
  assume j: "j < 2 ^ 15"
  then have "take_bit 15 j = j" by (simp add: take_bit_nat_eq_self)
  then have "\<not> bit j 15" by (metis bit_take_bit_iff less_irrefl)
  then have n: "\<not> bit (of_nat j :: u16) 15" by (simp add: bit_of_nat_iff)
  have "xtime p (of_nat j) = push_bit 1 (of_nat j)"
    by (simp only: xtime_def n if_False xor.right_neutral)
  then show ?thesis by (simp add: push_bit_eq_mult)
qed

lemma ucast_of_nat_u8: "j < 256 \<Longrightarrow> ucast (of_nat j :: u8) = (of_nat j :: u16)"
  by (simp add: word_unat_eq_iff unsigned_ucast_eq unat_of_nat take_bit_eq_mod)

lemma clmul_entry_horner:
  "i < 2 ^ n \<Longrightarrow> j * 2 ^ n \<le> 256 \<Longrightarrow>
   ucast (clmul_entry i j v) = (ucast v :: u16) XOR horner p (of_nat j) (nat_bits n i)"
proof (induction n arbitrary: i j v)
  case 0
  then show ?case by (simp add: clmul_entry.simps nat_bits_def)
next
  case (Suc n)
  have j: "j * 2 ^ n \<le> 128" using Suc.prems(2) by simp
  then have "j * 1 \<le> 128" by (rule order_trans [rotated]) (rule mult_le_mono2, simp)
  then have "j < 2 ^ 15" and "j < 256" by simp_all
  then have x: "of_nat (2 * j) = xtime p (of_nat j :: u16)" and c: "ucast (of_nat j :: u8) = (of_nat j :: u16)"
    by (simp_all only: xtime_of_nat ucast_of_nat_u8)
  let ?v = "if odd i then v XOR of_nat j else v"
  have "ucast (clmul_entry (i div 2) (2 * j) ?v) = (ucast ?v :: u16) XOR horner p (of_nat (2 * j)) (nat_bits n (i div 2))"
    by (rule Suc.IH) (use Suc.prems in auto)
  moreover have "clmul_entry i j v = clmul_entry (i div 2) (2 * j) ?v"
    by (cases "i = 0") (simp_all add: clmul_entry.simps)
  moreover have "(ucast ?v :: u16) = ucast v XOR (if odd i then of_nat j else 0)"
    using c by (simp add: unsigned_xor_eq)
  ultimately show ?case
    unfolding nat_bits_Suc horner.simps x horner_xtime by (simp only: xor_ac)
qed

lemma clmod_entry_horner:
  "i < 2 ^ n \<Longrightarrow> clmod_entry poly i b v = v XOR (xtime poly ^^ b) (horner poly poly (nat_bits n i))"
proof (induction n arbitrary: i b v)
  case 0
  then have "(xtime poly ^^ b) 0 = 0" by (induction b) simp_all
  then show ?case using 0 by (simp add: clmod_entry.simps nat_bits_def)
next
  case (Suc n)
  let ?v = "if odd i then v XOR clmod_bits poly b else v"
  have "clmod_entry poly (i div 2) (Suc b) ?v = ?v XOR (xtime poly ^^ Suc b) (horner poly poly (nat_bits n (i div 2)))"
    by (rule Suc.IH) (use Suc.prems in auto)
  moreover have "clmod_entry poly i b v = clmod_entry poly (i div 2) (Suc b) ?v"
    by (cases "i = 0") (simp_all add: clmod_entry.simps)
  moreover have "(xtime poly ^^ b) 0 = 0" by (induction b) simp_all
  ultimately show ?case
    by (simp add: nat_bits_Suc funpow_xtime_xor clmod_bits_xtime funpow_swap1 xor_ac)
qed

lemma nth_concat_rows:
  "i < m \<Longrightarrow> j < n \<Longrightarrow> concat (map (\<lambda>i. map (f i) [0..<n]) [0..<m]) ! (i * n + j) = f i j"
proof (induction m)
  case 0
  then show ?case by simp
next
  case (Suc m)
  have len: "length (concat (map (\<lambda>i. map (f i) [0..<n]) [0..<m])) = m * n"
    by (simp add: length_concat comp_def sum_list_triv)
  show ?case
  proof (cases "i = m")
    case True
    then show ?thesis using Suc.prems by (simp add: nth_append len)
  next
    case False
    then have i: "i < m" using Suc.prems by simp
    then have "Suc i * n \<le> m * n" by (intro mult_le_mono1) simp
    then have "i * n + j < m * n" using Suc.prems(2) by simp
    then show ?thesis using Suc.IH [OF i] Suc.prems(2) by (simp add: nth_append len)
  qed
qed

lemma clmul_table:
  assumes "unat x < 16" and "unat (y :: u16) < 16"
  shows "ucast (gbf_clmul (gbf_init poly) ! (unat x * LU_NUM + unat y)) = horner p y (nib_bits x)"
proof -
  have "gbf_clmul (gbf_init poly) ! (unat x * LU_NUM + unat y) = clmul_entry (unat x) (unat y) 0"
    using nth_concat_rows [of "unat x" LU_NUM "unat y" LU_NUM "\<lambda>i j. clmul_entry i j 0"] assms by (simp add: gbf_init_def)
  then show ?thesis
    using clmul_entry_horner [of "unat x" 4 "unat y" 0 p] assms by (simp add: nib_bits_nat)
qed

lemma clmod_table:
  assumes "unat x < 16"
  shows "gbf_clmod (gbf_init poly) ! unat x = horner poly poly (nib_bits x)"
  using assms clmod_entry_horner [of "unat x" 4 poly 0 0] by (simp add: gbf_init_def nib_bits_nat)

lemma nib_take_bit: "nib k w = take_bit 4 (drop_bit (4 * k) w)"
  by (simp add: nib_def take_bit_eq_mask mask_eq_exp_minus_1)

lemma nib_less: "unat (nib k w) < 16"
proof -
  from nib_take_bit have "unat (nib k w) = take_bit 4 (unat (drop_bit (4 * k) w))"
    by (simp only: unsigned_take_bit_eq)
  then show ?thesis by (simp add: take_bit_eq_mod)
qed

lemma nib_3: "nib 3 p = drop_bit 12 p"
proof (rule bit_word_eqI)
  fix n assume "n < LENGTH(16)"
  have m: "(15 :: u16) = mask 4" by (simp add: mask_eq_exp_minus_1)
  show "bit (nib 3 p) n = bit (drop_bit 12 p) n"
    using bit_imp_le_length [of p "12 + n"] unfolding nib_def m by (auto simp: bit_and_iff bit_mask_iff bit_drop_bit_eq)
qed

lemma reduce_step: "push_bit 4 p XOR gbf_clmod (gbf_init poly) ! unat (drop_bit 12 p) = xtime4 poly p"
proof -
  let ?lo = "map (bit p) [0..<12]" and ?hi = "nib_bits (nib 3 p)"
  have p: "p = horner poly 1 ?lo XOR (xtime poly ^^ 12) (horner poly 1 ?hi)"
    using horner_1_word_bits [of poly p, symmetric] upt_split [of 0 12 16] nib_bits_nib [of 3 p]
    by (simp add: word_bits_def horner_append)
  have "(xtime poly ^^ 4) (horner poly 1 ?lo) = horner poly 1 (replicate 4 False @ ?lo)"
    by (simp add: numeral_eq_Suc)
  also have "\<dots> = push_bit 4 p"
  proof (rule bit_word_eqI)
    fix n assume "n < LENGTH(16)"
    then show "bit (horner poly 1 (replicate 4 False @ ?lo)) n = bit (push_bit 4 p) n"
      by (cases "n < 4") (simp_all add: bit_horner_1 bit_push_bit_iff nth_append)
  qed
  finally have lo: "(xtime poly ^^ 4) (horner poly 1 ?lo) = push_bit 4 p" .
  have "(xtime poly ^^ 4) ((xtime poly ^^ 12) (horner poly 1 ?hi)) = (xtime poly ^^ (4 + 12)) (horner poly 1 ?hi)"
    by (simp only: funpow_add comp_apply)
  also have "\<dots> = horner poly poly ?hi"
    using horner_funpow [of poly 16 1 ?hi] xtime_16 [of poly] by simp
  finally have hi: "(xtime poly ^^ 4) ((xtime poly ^^ 12) (horner poly 1 ?hi)) = horner poly poly ?hi" .
  have "xtime4 poly p = (xtime poly ^^ 4) p" by (simp add: numeral_eq_Suc)
  also have "\<dots> = push_bit 4 p XOR horner poly poly ?hi"
    using lo hi arg_cong [OF p, of "xtime poly ^^ 4"] by (simp only: funpow_xtime_xor)
  finally show ?thesis using clmod_table [OF nib_less, of poly 3 p] by (simp add: nib_3)
qed

section \<open>The table-driven multiplication is the field multiplication\<close>

lemma upt_4: "[0..<4] = [0, 1, 2, 3 :: nat]"
  by (simp add: upt_rec)

lemma gbf_digit_xor:
  fixes v1 v2 poly
  defines "h \<equiv> \<lambda>i j. horner poly (nib j v2) (nib_bits (nib i v1))"
  defines "d \<equiv> gbf_digit (gbf_init poly) v1 v2"
  shows "d 0 p = p XOR h 0 0"
    and "d 1 p = p XOR h 0 1 XOR h 1 0"
    and "d 2 p = p XOR h 0 2 XOR h 1 1 XOR h 2 0"
    and "d 3 p = p XOR h 0 3 XOR h 1 2 XOR h 2 1 XOR h 3 0"
    and "d 4 p = p XOR h 1 3 XOR h 2 2 XOR h 3 1"
    and "d 5 p = p XOR h 2 3 XOR h 3 2"
    and "d 6 p = p XOR h 3 3"
proof -
  have t: "ucast (gbf_clmul (gbf_init poly) ! (unat (drop_bit (4 * x) v1 AND 15) * LU_NUM + unat (drop_bit (4 * k) v2 AND 15)))
      = h x k" for x k
    using clmul_table [OF nib_less nib_less, of poly x v1 k v2 poly] by (simp add: nib_def h_def)
  note t' = t [of 0] t [of 1] t [of 2] t [of 3]
  note t4 = t' [of 0, simplified] t' [of 1, simplified] t' [of 2, simplified] t' [of 3, simplified]
  show "d 0 p = p XOR h 0 0"
    and "d 1 p = p XOR h 0 1 XOR h 1 0"
    and "d 2 p = p XOR h 0 2 XOR h 1 1 XOR h 2 0"
    and "d 3 p = p XOR h 0 3 XOR h 1 2 XOR h 2 1 XOR h 3 0"
    and "d 4 p = p XOR h 1 3 XOR h 2 2 XOR h 3 1"
    and "d 5 p = p XOR h 2 3 XOR h 3 2"
    and "d 6 p = p XOR h 3 3"
    by (simp_all add: d_def gbf_digit_def upt_4 t4 xor.assoc)
qed

lemma horner_nib_left: "horner poly a bs = horner poly (nib 0 a) bs XOR xtime4 poly (
    horner poly (nib 1 a) bs XOR xtime4 poly (horner poly (nib 2 a) bs XOR xtime4 poly (horner poly (nib 3 a) bs)))"
proof -
  have b: "horner poly 1 (nib_bits (nib k a)) = nib k a" for k
  proof (rule bit_word_eqI)
    fix n assume "n < LENGTH(16)"
    have "\<not> bit (nib k a) n" if "4 \<le> n"
      using that by (simp only: nib_take_bit bit_take_bit_iff) simp
    then show "bit (horner poly 1 (nib_bits (nib k a))) n = bit (nib k a) n"
      by (cases "n < 4") (simp_all add: bit_horner_1 nib_bits_def)
  qed
  have "a = nib 0 a XOR xtime4 poly (nib 1 a XOR xtime4 poly (nib 2 a XOR xtime4 poly (nib 3 a)))"
    using gf_mul_nibs [of poly 1 a] by (simp only: gf_mul_1_left b)
  from arg_cong [OF this, of "\<lambda>a. horner poly a bs"] show ?thesis
    by (simp only: horner_xor horner_xtime)
qed

theorem gbf_mul_is_gf_mul: "gbf_mul (gbf_init poly) v1 v2 = gf_mul poly v1 v2"
proof -
  have r: "push_bit LU_BITS p XOR gbf_clmod (gbf_init poly) ! unat (drop_bit (GBF_BITS - LU_BITS) p) = xtime4 poly p" for p
    using reduce_step [of p poly] by simp
  have u: "rev [0..<2 * (LU_BLOCKS - 1) + 1] = [6, 5, 4, 3, 2, 1, 0]" by (simp add: upt_rec)
  have "gbf_mul (gbf_init poly) v1 v2 = gf_mul poly v2 v1"
    unfolding gbf_mul_def r u foldl.simps gbf_digit_xor gf_mul_nibs [of poly v2 v1]
      horner_nib_left [of poly v2]
    by (simp only: xtime_xor xor_ac xtime_0 xor.left_neutral)
  then show ?thesis by (simp add: gf_mul_commute)
qed


section \<open>Powers\<close>

fun gf_pow :: "u16 \<Rightarrow> u16 \<Rightarrow> nat \<Rightarrow> u16" where
  "gf_pow poly a 0 = 1"
| "gf_pow poly a (Suc n) = gf_mul poly a (gf_pow poly a n)"

lemma gf_pow_add: "gf_pow poly a (m + n) = gf_mul poly (gf_pow poly a m) (gf_pow poly a n)"
  by (induction m) (simp_all add: gf_mul_1_left gf_mul_assoc)

lemma gf_pow_square: "gf_pow poly (gf_mul poly a a) n = gf_pow poly a (2 * n)"
  by (induction n) (simp_all add: gf_mul_assoc)

lemma gbf_pwr_loop_correct:
  "gbf_pwr_loop (gbf_init poly) a n p = gf_mul poly p (gf_pow poly a n)"
proof (induction n arbitrary: a p rule: less_induct)
  case (less n)
  show ?case
  proof (cases "n = 0")
    case True
    then show ?thesis by (simp add: gbf_pwr_loop.simps)
  next
    case False
    define p' where "p' = (if odd n then gf_mul poly p a else p)"
    have n: "gf_mul poly p (gf_pow poly a n) = gf_mul poly p' (gf_pow poly a (2 * (n div 2)))"
    proof (cases "odd n")
      case True
      then have "n = Suc (2 * (n div 2))" by (simp add: odd_two_times_div_two_succ)
      then have "gf_pow poly a n = gf_mul poly a (gf_pow poly a (2 * (n div 2)))"
        using gf_pow.simps(2) [of poly a "2 * (n div 2)"] by simp
      then show ?thesis using True by (simp add: p'_def gf_mul_assoc)
    next
      case False
      then show ?thesis by (simp add: p'_def)
    qed
    have "gbf_pwr_loop (gbf_init poly) a n p
        = (if n div 2 = 0 then p' else gbf_pwr_loop (gbf_init poly) (gf_mul poly a a) (n div 2) p')"
      using False by (subst gbf_pwr_loop.simps) (simp add: p'_def gbf_mul_is_gf_mul)
    also have "\<dots> = gf_mul poly p' (gf_pow poly a (2 * (n div 2)))"
      using False less [of "n div 2" "gf_mul poly a a" p'] by (simp add: gf_pow_square)
    finally show ?thesis using n by simp
  qed
qed

section \<open>Inversion\<close>

lemma drop_bit_eq_0: "drop_bit b (r :: u16) = 0 \<longleftrightarrow> (\<forall>i \<ge> b. \<not> bit r i)"
proof
  assume d: "drop_bit b r = 0"
  have "\<not> bit r i" if "b \<le> i" for i
  proof -
    have "bit r i = bit (drop_bit b r) (i - b)" using that by (simp only: bit_drop_bit_eq comp_apply le_add_diff_inverse)
    then show ?thesis using d by simp
  qed
  then show "\<forall>i \<ge> b. \<not> bit r i" by simp
next
  assume "\<forall>i \<ge> b. \<not> bit r i"
  then show "drop_bit b r = 0" by (simp add: bit_eq_iff bit_drop_bit_eq)
qed

lemma first_from_top:
  assumes "\<exists>i < n. P i"
  defines "b \<equiv> (case filter P (rev [0..<n]) of [] \<Rightarrow> 0 | b # _ \<Rightarrow> b)"
  shows "P b \<and> b < n \<and> (\<forall>i < n. b < i \<longrightarrow> \<not> P i)"
  using assms(1) unfolding b_def
proof (induction n)
  case 0
  then show ?case by simp
next
  case (Suc n)
  show ?case
  proof (cases "P n")
    case True
    then show ?thesis by (auto simp: less_Suc_eq)
  next
    case False
    then show ?thesis using Suc by (auto simp: less_Suc_eq)
  qed
qed

lemma high_bit_bound:
  assumes "(r :: u16) \<noteq> 0"
  shows "bit r (high_bit r)" and "high_bit r < 16" and "\<And>i. high_bit r < i \<Longrightarrow> \<not> bit r i"
proof -
  from assms obtain k where k: "bit r k" by (auto simp: bit_eq_iff)
  then have "k < 16" using bit_imp_le_length [of r k] by simp
  moreover have "drop_bit k r \<noteq> 0" using k drop_bit_eq_0 [of k r] by auto
  ultimately have "\<exists>i < 16. drop_bit i r \<noteq> 0" by auto
  from first_from_top [OF this, folded high_bit_def]
  have *: "drop_bit (high_bit r) r \<noteq> 0" "high_bit r < 16" "\<And>i. i < 16 \<Longrightarrow> high_bit r < i \<Longrightarrow> drop_bit i r = 0"
    by blast+
  show "high_bit r < 16" by fact
  show n: "\<not> bit r i" if "high_bit r < i" for i
  proof (cases "i < 16")
    case True
    then show ?thesis using *(3) [OF True that] drop_bit_eq_0 [of i r] by simp
  next
    case False
    then show ?thesis using bit_imp_le_length [of r i] by auto
  qed
  from *(1) obtain j where "high_bit r \<le> j" and "bit r j" unfolding drop_bit_eq_0 by auto
  then show "bit r (high_bit r)" using n [of j] by (cases "j = high_bit r") simp_all
qed

lemma funpow_xtime_shift:
  "(\<And>i. 16 \<le> i + k \<Longrightarrow> \<not> bit r i) \<Longrightarrow> (xtime poly ^^ k) r = push_bit k r"
proof (induction k)
  case 0
  then show ?case by simp
next
  case (Suc k)
  have b: "\<not> bit (push_bit k r) 15" using Suc.prems [of "15 - k"] by (auto simp only: bit_push_bit_iff)
  have "(xtime poly ^^ k) r = push_bit k r" by (rule Suc.IH) (rule Suc.prems, simp)
  then have "(xtime poly ^^ Suc k) r = xtime poly (push_bit k r)"
    by (simp only: funpow.simps comp_apply)
  also have "\<dots> = push_bit 1 (push_bit k r)"
    by (simp only: xtime_def b if_False xor.right_neutral)
  finally show ?case by (simp only: push_bit_push_bit plus_1_eq_Suc)
qed

lemma gf_mul_exp: "k < 16 \<Longrightarrow> gf_mul poly (push_bit k 1) r = (xtime poly ^^ k) r"
  using horner_funpow [of poly k 1 "word_bits r"]
  by (simp add: gf_mul_def funpow_xtime_1 horner_1_word_bits)

lemma xor_eq_0: "(a :: u16) XOR b = 0 \<longleftrightarrow> a = b"
proof
  assume "a XOR b = 0"
  then have "a XOR (b XOR b) = b" by (simp only: xor.assoc [symmetric] xor.left_neutral)
  then show "a = b" by simp
qed simp

lemma bit_exp_iff: "bit (push_bit k 1 :: u16) i \<longleftrightarrow> i = k \<and> k < 16"
proof -
  have "bit (push_bit k 1 :: u16) i \<longleftrightarrow> k \<le> i \<and> i < 16 \<and> i - k = 0"
    by (simp only: bit_push_bit_iff bit_1_iff possible_bit_word) simp
  then show ?thesis by auto
qed

lemma or_eq_xor: "\<not> bit (q :: u16) k \<Longrightarrow> q OR push_bit k 1 = q XOR push_bit k 1"
  by (rule bit_word_eqI) (auto simp only: bit_or_iff bit_xor_iff bit_exp_iff)

lemma gbf_divide_fold:
  assumes h: "bit r h" "\<And>i. h < i \<Longrightarrow> \<not> bit r i" "h < 16"
  shows "h \<le> n \<Longrightarrow> n \<le> 16 \<Longrightarrow> (\<And>i. n \<le> i \<Longrightarrow> \<not> bit a i) \<Longrightarrow> (\<And>i. i < n - h \<Longrightarrow> \<not> bit q i) \<Longrightarrow>
    foldl (\<lambda>(old_r, quo) b.
        if drop_bit b old_r \<noteq> 0
        then (old_r XOR push_bit (b - h) r, quo OR push_bit (b - h) 1) else (old_r, quo))
      (a, q) (rev [h..<n]) = (a', q') \<Longrightarrow>
    a' XOR gf_mul poly q' r = a XOR gf_mul poly q r \<and> (\<forall>i \<ge> h. \<not> bit a' i)"
proof (induction n arbitrary: a q)
  case 0
  then show ?case by simp
next
  case (Suc n)
  show ?case
  proof (cases "h = Suc n")
    case True
    then show ?thesis using Suc.prems by simp
  next
    case False
    then have hn: "h \<le> n" using Suc.prems(1) by simp
    then have rev: "rev [h..<Suc n] = n # rev [h..<n]" by simp
    let ?s = "push_bit (n - h) r" and ?e = "push_bit (n - h) 1 :: u16"
    have d: "drop_bit n a \<noteq> 0 \<longleftrightarrow> bit a n"
      unfolding drop_bit_eq_0 using Suc.prems(3) by (metis Suc_le_eq le_neq_implies_less order_refl)
    show ?thesis
    proof (cases "bit a n")
      case True
      have s: "gf_mul poly ?e r = ?s"
        using funpow_xtime_shift [of "n - h" r poly] gf_mul_exp [of "n - h" poly r] h(2) hn Suc.prems(2) by auto
      have q: "q OR ?e = q XOR ?e"
        by (rule or_eq_xor) (use Suc.prems(4) hn in simp)
      have "a' XOR gf_mul poly q' r = (a XOR ?s) XOR gf_mul poly (q XOR ?e) r \<and> (\<forall>i \<ge> h. \<not> bit a' i)"
      proof (rule Suc.IH [OF hn])
        show "\<not> bit (a XOR ?s) i" if "n \<le> i" for i
          using that True h Suc.prems(3) hn Suc.prems(2) by (cases "i = n") (auto simp: bit_xor_iff bit_push_bit_iff)
        show "\<not> bit (q XOR ?e) i" if "i < n - h" for i
          using that Suc.prems(4) by (simp only: bit_xor_iff bit_exp_iff) simp
      qed (use Suc.prems rev True d q in \<open>simp_all\<close>)
      moreover have "(a XOR ?s) XOR gf_mul poly (q XOR ?e) r = a XOR gf_mul poly q r"
        unfolding gf_mul_xor_left s by (simp only: xor_ac xor_self_eq xor.right_neutral xor.left_neutral)
      ultimately show ?thesis by argo
    next
      case False
      have "\<not> bit a i" if "n \<le> i" for i
        using that Suc.prems(3) [of i] False by (cases "i = n") simp_all
      then show ?thesis
        using Suc.IH [OF hn, of a q] Suc.prems rev False d by simp
    qed
  qed
qed

lemma gbf_divide_correct:
  assumes "r \<noteq> 0" and "\<And>i. i < 16 - high_bit r \<Longrightarrow> \<not> bit q i"
    and "gbf_divide r (high_bit r) (a, q) = (a', q')"
  shows "a' XOR gf_mul poly q' r = a XOR gf_mul poly q r" and "\<And>i. high_bit r \<le> i \<Longrightarrow> \<not> bit a' i"
proof -
  have "\<not> bit a i" if "16 \<le> i" for i
    using that bit_imp_le_length [of a i] by auto
  then have "a' XOR gf_mul poly q' r = a XOR gf_mul poly q r \<and> (\<forall>i \<ge> high_bit r. \<not> bit a' i)"
    using gbf_divide_fold [OF high_bit_bound(1,3,2) [OF assms(1)], of 16 a q a' q' poly] assms
      high_bit_bound(2) [OF assms(1)] by (simp add: gbf_divide_def)
  then show "a' XOR gf_mul poly q' r = a XOR gf_mul poly q r" and "\<And>i. high_bit r \<le> i \<Longrightarrow> \<not> bit a' i"
    by auto
qed

lemma gbf_inv_loop_correct:
  assumes "r = gf_mul poly tt r0" and "old_r = gf_mul poly old_t r0" and "\<And>i. n \<le> i \<Longrightarrow> \<not> bit r i"
  shows "\<exists>g u v. gbf_inv_loop (gbf_init poly) n r old_r tt old_t = Some (g, u, v) \<and>
     gf_mul poly u r0 = 0 \<and> gf_mul poly v r0 = g"
  using assms
proof (induction n arbitrary: r old_r tt old_t)
  case 0
  then have "r = 0" by (simp add: bit_eq_iff)
  then show ?case using 0 by simp
next
  case (Suc n)
  show ?case
  proof (cases "r = 0")
    case True
    then show ?thesis using Suc.prems by simp
  next
    case False
    obtain rem quo where d: "gbf_divide r (high_bit r) (old_r, 0) = (rem, quo)" by fastforce
    note c = gbf_divide_correct [OF False _ d]
    have "rem XOR gf_mul poly quo r = old_r" using c(1) [of poly] by simp
    then have "rem = old_r XOR gf_mul poly quo r" by (metis xor.assoc xor.right_neutral xor_self_eq)
    then have "rem = gf_mul poly (old_t XOR gf_mul poly quo tt) r0"
      using Suc.prems(1,2) by (simp add: gf_mul_xor_left gf_mul_assoc)
    moreover have "\<not> bit rem i" if "n \<le> i" for i
    proof -
      have "high_bit r < Suc n" using high_bit_bound(1) [OF False] Suc.prems(3) not_less by blast
      then show ?thesis using c(2) [of i] that by simp
    qed
    ultimately show ?thesis
      using Suc.IH [of rem "old_t XOR gf_mul poly quo tt" r tt] Suc.prems(1) False d
      by (simp add: gbf_mul_is_gf_mul)
  qed
qed

text \<open>The division before the loop, whose dividend does not fit in the word.\<close>

lemma gbf_inv_start:
  assumes r: "r \<noteq> 0" and "r \<noteq> 1"
  obtains rem quo where "gbf_divide r (high_bit r) (poly XOR push_bit (16 - high_bit r) r, push_bit (16 - high_bit r) 1) = (rem, quo)"
    and "rem = gf_mul poly quo r" and "0 < high_bit r"
    and "gbf_inv (gbf_init poly) r = (case gbf_inv_loop (gbf_init poly) 16 rem r quo 1 of
       None \<Rightarrow> None | Some (old_r, tt, old_t) \<Rightarrow> if old_r = 1 then Some (tt XOR old_t) else None)"
proof -
  let ?h = "high_bit r"
  note hb = high_bit_bound [OF r]
  have h0: "0 < ?h"
  proof (rule ccontr)
    assume "\<not> 0 < ?h"
    then have "r = 1" using hb by (intro bit_word_eqI) (auto simp: bit_1_iff)
    then show False using assms(2) by simp
  qed
  let ?a = "poly XOR push_bit (16 - ?h) r" and ?q = "push_bit (16 - ?h) 1 :: u16"
  obtain rem quo where d: "gbf_divide r ?h (?a, ?q) = (rem, quo)" by fastforce
  have q: "\<not> bit ?q i" if "i < 16 - ?h" for i
    using that by (simp only: bit_exp_iff) simp
  have c: "rem XOR gf_mul poly quo r = ?a XOR gf_mul poly ?q r"
    by (rule gbf_divide_correct(1) [OF r _ d]) (rule q)
  have "clmod": "gbf_clmod (gbf_init poly) ! 1 = poly"
    by (simp add: gbf_init_def clmod_entry.simps)
  have "gf_mul poly ?q r = (xtime poly ^^ (16 - ?h)) r"
    using h0 by (intro gf_mul_exp) simp
  also have "\<dots> = xtime poly (push_bit (15 - ?h) r)"
  proof -
    have "16 - ?h = Suc (15 - ?h)" using hb(2) by simp
    then show ?thesis using funpow_xtime_shift [of "15 - ?h" r poly] hb(2,3) by (simp add: not_le)
  qed
  also have "\<dots> = push_bit 1 (push_bit (15 - ?h) r) XOR poly"
  proof -
    have "bit (push_bit (15 - ?h) r) 15" using hb(1,2) by (simp add: bit_push_bit_iff)
    then show ?thesis unfolding xtime_def by (simp only: if_True)
  qed
  also have "push_bit 1 (push_bit (15 - ?h) r) = push_bit (16 - ?h) r"
    using hb(2) Suc_diff_le [of ?h 15] by (simp only: push_bit_push_bit plus_1_eq_Suc) simp
  finally have "?a XOR gf_mul poly ?q r = 0" by (simp add: xor_ac)
  with c have "rem XOR gf_mul poly quo r = 0" by (rule trans)
  then have rem: "rem = gf_mul poly quo r" by (rule xor_eq_0 [THEN iffD1])
  have "gbf_inv (gbf_init poly) r = (case gbf_inv_loop (gbf_init poly) 16 rem r quo 1 of
       None \<Rightarrow> None | Some (old_r, tt, old_t) \<Rightarrow> if old_r = 1 then Some (tt XOR old_t) else None)"
    using assms d by (simp only: gbf_inv_def Let_def gbf_mul_is_gf_mul "clmod" if_False xor.left_neutral gf_mul_1_right prod.case)
  with d rem h0 show ?thesis by (rule that)
qed

theorem gbf_inv_correct:
  assumes "gbf_inv (gbf_init poly) r = Some v"
  shows "gf_mul poly v r = 1"
proof (cases "r = 1")
  case True
  then show ?thesis using assms by (simp add: gbf_inv_def)
next
  case False
  from assms have r: "r \<noteq> 0" by (auto simp: gbf_inv_def)
  obtain rem quo where rem: "rem = gf_mul poly quo r"
    and i: "gbf_inv (gbf_init poly) r = (case gbf_inv_loop (gbf_init poly) 16 rem r quo 1 of
       None \<Rightarrow> None | Some (old_r, tt, old_t) \<Rightarrow> if old_r = 1 then Some (tt XOR old_t) else None)"
    by (rule gbf_inv_start [OF r False])
  have bits: "\<not> bit rem i" if "16 \<le> i" for i
    using that bit_imp_le_length [of rem i] by auto
  obtain g u w where l: "gbf_inv_loop (gbf_init poly) 16 rem r quo 1 = Some (g, u, w)"
      and uw: "gf_mul poly u r = 0" "gf_mul poly w r = g"
    using gbf_inv_loop_correct [OF rem gf_mul_1_left [symmetric] bits] by metis
  have "v = u XOR w" and "g = 1"
    using assms i l by (simp_all split: if_splits)
  then show ?thesis using uw by (simp add: gf_mul_xor_left)
qed

end
