(* ===== verification/Redundancy_Code.thy ===== *)
theory Redundancy_Code
  imports Redundancy_Field
begin

text \<open>Linear algebra over GF(2^16) for the erasure code: what the row operations of
  \<open>gbf_invmatrix\<close> keep, why its result is an inverse, that \<open>gbf_encode_one\<close> evaluates a
  polynomial, and the round trip of \<open>gbf_encode_one\<close> and \<open>gbf_decode\<close>.\<close>

section \<open>Sums and matrices\<close>

fun gf_sum :: "(nat \<Rightarrow> u16) \<Rightarrow> nat \<Rightarrow> u16" where
  "gf_sum f 0 = 0"
| "gf_sum f (Suc n) = gf_sum f n XOR f n"

lemma xor_cancel: "a XOR (a XOR b) = (b :: u16)"
  by (simp only: xor.assoc [symmetric] xor_self_eq xor.left_neutral)

lemma gf_sum_foldl: "foldl (\<lambda>v j. v XOR f j) 0 [0..<n] = gf_sum f n"
  by (induction n) simp_all

lemma gf_sum_cong: "(\<And>k. k < n \<Longrightarrow> f k = g k) \<Longrightarrow> gf_sum f n = gf_sum g n"
  by (induction n) simp_all

lemma gf_sum_first: "gf_sum f (Suc n) = f 0 XOR gf_sum (\<lambda>k. f (Suc k)) n"
  by (induction n) (simp_all add: xor_ac)

lemma gf_sum_xor: "gf_sum (\<lambda>k. f k XOR g k) n = gf_sum f n XOR gf_sum g n"
  by (induction n) (simp_all add: xor_ac)

lemma gf_sum_mul: "gf_sum (\<lambda>k. gf_mul poly c (f k)) n = gf_mul poly c (gf_sum f n)"
  by (induction n) (simp_all add: gf_mul_xor_right)

text \<open>The system of equations that an array stands for: \<open>y r = m[r][0] * x 0 + m[r][1] * x 1 + ...\<close>.\<close>

definition row_value :: "u16 \<Rightarrow> nat \<Rightarrow> u16 list \<Rightarrow> nat \<Rightarrow> (nat \<Rightarrow> u16) \<Rightarrow> u16" where
  "row_value poly sz m r x = gf_sum (\<lambda>k. gf_mul poly (m ! (r * sz + k)) (x k)) sz"

definition solves :: "u16 \<Rightarrow> nat \<Rightarrow> u16 list \<Rightarrow> (nat \<Rightarrow> u16) \<Rightarrow> (nat \<Rightarrow> u16) \<Rightarrow> bool" where
  "solves poly sz m x y \<longleftrightarrow> (\<forall>r < sz. y r = row_value poly sz m r x)"

lemma matrix_index: "r < sz \<Longrightarrow> k < sz \<Longrightarrow> r * sz + k < sz * sz" for r sz k :: nat
proof -
  assume "r < sz" and "k < sz"
  then have "Suc r * sz \<le> sz * sz" by (intro mult_le_mono1) simp
  then show ?thesis using \<open>k < sz\<close> by simp
qed

lemma matrix_index_eq:
  fixes r sz k r' k' :: nat
  assumes "k < sz" and "k' < sz"
  shows "r * sz + k = r' * sz + k' \<longleftrightarrow> r = r' \<and> k = k'"
proof
  assume e: "r * sz + k = r' * sz + k'"
  have "r = (r * sz + k) div sz" and "r' = (r' * sz + k') div sz" using assms by simp_all
  then have "r = r'" using e by simp
  then show "r = r' \<and> k = k'" using e by simp
qed simp

text \<open>One pass over a row that moves every entry one place to the left.\<close>

lemma row_range:
  fixes r sz k i w :: nat
  assumes "k < sz" and "w \<le> sz"
  shows "i * sz \<le> r * sz + k \<and> r * sz + k < i * sz + w \<longleftrightarrow> r = i \<and> k < w"
proof
  assume a: "i * sz \<le> r * sz + k \<and> r * sz + k < i * sz + w"
  define d where "d = r * sz + k - i * sz"
  have "r * sz + k = i * sz + d" and "d < w" using a by (auto simp: d_def)
  moreover from this have "d < sz" using assms(2) by simp
  ultimately show "r = i \<and> k < w" using matrix_index_eq [OF assms(1), of d r i] by simp
qed auto

text \<open>One pass over a row that moves every entry one place to the left.\<close>

definition shift_row :: "nat \<Rightarrow> nat \<Rightarrow> (u16 \<Rightarrow> u16 \<Rightarrow> u16) \<Rightarrow> u16 list \<Rightarrow> nat \<Rightarrow> u16 list" where
  "shift_row b c h m n = foldl (\<lambda>m k. m[b + k := h (m ! (b + k + 1)) (m ! (c + k))]) m [0..<n]"

lemma shift_row_Suc: "shift_row b c h m (Suc n) = (shift_row b c h m n)[b + n :=
    h (shift_row b c h m n ! (b + n + 1)) (shift_row b c h m n ! (c + n))]"
  by (simp add: shift_row_def)

lemma length_shift_row [simp]: "length (shift_row b c h m n) = length m"
  by (induction n) (simp_all add: shift_row_Suc, simp add: shift_row_def)

lemma shift_row_nth:
  assumes "b + n < length m"
    and "\<And>k. k < n \<Longrightarrow> (c + k < length m \<and> (c + k < b \<or> b + n \<le> c + k)) \<or> (\<forall>x y z. h x y = h x z)"
  shows "p < length m \<Longrightarrow>
    shift_row b c h m n ! p = (if b \<le> p \<and> p < b + n then h (m ! (p + 1)) (m ! (c + (p - b))) else m ! p)"
  using assms
proof (induction n arbitrary: p)
  case 0
  then show ?case by (auto simp: shift_row_def)
next
  case (Suc n)
  have d: "(c + k < length m \<and> (c + k < b \<or> b + n \<le> c + k)) \<or> (\<forall>x y z. h x y = h x z)" if "k < n" for k
    using Suc.prems(3) [of k] that by auto
  note IH = Suc.IH [OF _ _ d]
  have b1: "shift_row b c h m n ! (b + n + 1) = m ! (b + n + 1)" using IH [of "b + n + 1"] Suc.prems(2) by simp
  have c1: "h x (shift_row b c h m n ! (c + n)) = h x (m ! (c + n))" for x
    using IH [of "c + n"] Suc.prems(2) Suc.prems(3) [of n] by auto
  show ?case
  proof (cases "p = b + n")
    case True
    then show ?thesis using Suc.prems(1) b1 c1 by (simp add: shift_row_Suc)
  next
    case False
    then show ?thesis using IH [OF Suc.prems(1)] Suc.prems(2) by (simp add: shift_row_Suc)
  qed
qed

text \<open>The entries of the array after each of the two row operations, for a row length of \<open>Suc w\<close>.\<close>

lemma scale_row_nth:
  assumes "length m = sz * sz" and "i < sz" and "r < sz" and "k < sz"
  shows "scale_row t sz i iv m ! (r * sz + k) =
     (if r = i then (if k = sz - 1 then iv else gbf_mul t (m ! (r * sz + k + 1)) iv) else m ! (r * sz + k))"
proof -
  have b: "i * sz + (sz - 1) < length m" and p: "r * sz + k < length m"
    using matrix_index [of i sz "sz - 1"] matrix_index [of r sz k] assms by simp_all
  have s: "scale_row t sz i iv m = (shift_row (i * sz) 0 (\<lambda>x y. gbf_mul t x iv) m (sz - 1))[i * sz + (sz - 1) := iv]"
    by (simp add: scale_row_def shift_row_def)
  have e: "i * sz + (sz - 1) = r * sz + k \<longleftrightarrow> r = i \<and> k = sz - 1"
    using matrix_index_eq [of "sz - 1" sz k i r] assms by auto
  have nth: "shift_row (i * sz) 0 (\<lambda>x y. gbf_mul t x iv) m (sz - 1) ! (r * sz + k) =
      (if r = i \<and> k < sz - 1 then gbf_mul t (m ! (r * sz + k + 1)) iv else m ! (r * sz + k))"
    unfolding row_range [OF assms(4) diff_le_self, of i r 1, symmetric]
    by (rule shift_row_nth [OF b _ p]) simp
  show ?thesis
    unfolding s nth_list_update [OF b [folded length_shift_row [of "i * sz" 0 "\<lambda>x y. gbf_mul t x iv" m "sz - 1"]]] e nth
    using assms(4) by auto
qed

lemma length_scale_row [simp]: "length (scale_row t sz i iv m) = length m"
proof -
  have "length (foldl (\<lambda>m j. m[i * sz + j := gbf_mul t (m ! (i * sz + j + 1)) iv]) m [0..<n]) = length m" for n
    by (induction n) simp_all
  then show ?thesis by (simp add: scale_row_def)
qed

lemma length_eliminate_row [simp]: "length (eliminate_row t sz i j m) = length m"
proof -
  have "length (foldl (\<lambda>m k. m[j * sz + k := m ! (j * sz + k + 1) XOR gbf_mul t mul (m ! (i * sz + k))]) m [0..<n]) = length m" for n mul
    by (induction n) simp_all
  then show ?thesis by (simp add: eliminate_row_def Let_def)
qed

lemma eliminate_row_nth:
  assumes "length m = sz * sz" and "i < sz" and "j < sz" and "r < sz" and "k < sz" and "i \<noteq> j"
  shows "eliminate_row t sz i j m ! (r * sz + k) =
     (if r = j then (if k = sz - 1 then 0 else m ! (r * sz + k + 1)) XOR
         gbf_mul t (m ! (j * sz)) (m ! (i * sz + k)) else m ! (r * sz + k))"
proof -
  let ?h = "\<lambda>x y. x XOR gbf_mul t (m ! (j * sz)) y"
  let ?s = "shift_row (j * sz) (i * sz) ?h m (sz - 1)"
  have idx: "a * sz + x < length m" if "a < sz" "x < sz" for a x
    using matrix_index [OF that] assms(1) by simp
  have dis: "i * sz + x < j * sz \<or> j * sz + (sz - 1) \<le> i * sz + x" if "x < sz - 1" for x
    using row_range [of x sz "sz - 1" j i] that assms(6) by auto
  have b: "j * sz + (sz - 1) < length m" using idx [of j "sz - 1"] assms(3) by simp
  have nth: "?s ! (a * sz + x) =
      (if a = j \<and> x < sz - 1 then ?h (m ! (a * sz + x + 1)) (m ! (i * sz + x)) else m ! (a * sz + x))"
    if "a < sz" "x < sz" for a x
  proof -
    have "?s ! (a * sz + x) = (if j * sz \<le> a * sz + x \<and> a * sz + x < j * sz + (sz - 1)
        then ?h (m ! (a * sz + x + 1)) (m ! (i * sz + (a * sz + x - j * sz))) else m ! (a * sz + x))"
      by (rule shift_row_nth [OF b _ idx [OF that]]) (use idx assms(2) dis in auto)
    then show ?thesis
      unfolding row_range [OF that(2) diff_le_self, of j a 1] by (auto split: if_splits)
  qed
  have "?s ! (i * sz + (sz - 1)) = m ! (i * sz + (sz - 1))"
    using nth [of i "sz - 1"] assms(2) by simp
  then have s: "eliminate_row t sz i j m = ?s[j * sz + (sz - 1) := gbf_mul t (m ! (j * sz)) (m ! (i * sz + (sz - 1)))]"
    unfolding eliminate_row_def Let_def shift_row_def by simp
  have e: "j * sz + (sz - 1) = r * sz + k \<longleftrightarrow> r = j \<and> k = sz - 1"
    using matrix_index_eq [of "sz - 1" sz k j r] assms by auto
  have b': "j * sz + (sz - 1) < length ?s" using b by simp
  show ?thesis
    unfolding s nth_list_update [OF b'] e nth [OF assms(4,5)]
    using assms(5) by auto
qed

text \<open>All rows are eliminated, except the pivot row.\<close>

lemma eliminate_rows_nth:
  assumes "length m = sz * sz" and "i < sz" and "n \<le> sz" and "r < sz" and "k < sz"
  shows "foldl (\<lambda>m j. if i = j then m else eliminate_row t sz i j m) m [0..<n] ! (r * sz + k) =
     (if r < n \<and> r \<noteq> i then (if k = sz - 1 then 0 else m ! (r * sz + k + 1)) XOR
         gbf_mul t (m ! (r * sz)) (m ! (i * sz + k)) else m ! (r * sz + k))
    \<and> length (foldl (\<lambda>m j. if i = j then m else eliminate_row t sz i j m) m [0..<n]) = sz * sz"
  using assms(3,4,5)
proof (induction n arbitrary: r k)
  case 0
  then show ?case using assms(1) by simp
next
  case (Suc n)
  let ?m = "foldl (\<lambda>m j. if i = j then m else eliminate_row t sz i j m) m [0..<n]"
  have n: "n < sz" using Suc.prems(1) by simp
  have IH: "?m ! (a * sz + x) = (if a < n \<and> a \<noteq> i then (if x = sz - 1 then 0 else m ! (a * sz + x + 1)) XOR
         gbf_mul t (m ! (a * sz)) (m ! (i * sz + x)) else m ! (a * sz + x))" if "a < sz" "x < sz" for a x
    using Suc.IH [OF _ that] n by simp
  have l: "length ?m = sz * sz" using Suc.IH [of r k] Suc.prems by simp
  show ?case
  proof (cases "i = n")
    case True
    then show ?thesis using IH [OF Suc.prems(2,3)] l by (auto simp: less_Suc_eq)
  next
    case False
    have 1: "?m ! (n * sz) = m ! (n * sz)" using IH [of n 0] n by simp
    have 2: "?m ! (i * sz + k) = m ! (i * sz + k)" using IH [of i k] assms(2) Suc.prems by simp
    have 3: "?m ! (n * sz + k + 1) = m ! (n * sz + k + 1)" if "k \<noteq> sz - 1"
      using IH [of n "k + 1"] n Suc.prems(3) that by simp
    have "eliminate_row t sz i n ?m ! (r * sz + k) =
      (if r = n then (if k = sz - 1 then 0 else ?m ! (r * sz + k + 1)) XOR
         gbf_mul t (?m ! (n * sz)) (?m ! (i * sz + k)) else ?m ! (r * sz + k))"
      by (rule eliminate_row_nth) (use l assms(2) n Suc.prems False in auto)
    then show ?thesis
      using False l 1 2 3 IH [OF Suc.prems(2,3)] by (cases "r = n") (auto simp: less_Suc_eq)
  qed
qed

text \<open>One round exchanges the unknown \<open>x 0\<close> with the value \<open>y i\<close>.\<close>

lemma invmatrix_round_nth:
  assumes "invmatrix_round t sz i m = Some m'" and "length m = sz * sz" and "i < sz"
  obtains iv where "gbf_inv t (m ! (i * sz)) = Some iv" and "length m' = sz * sz"
    and "\<And>k. k < sz \<Longrightarrow> m' ! (i * sz + k) = gbf_mul t (if k = sz - 1 then 1 else m ! (i * sz + k + 1)) iv
           \<or> k = sz - 1 \<and> m' ! (i * sz + k) = iv"
    and "\<And>r k. r < sz \<Longrightarrow> k < sz \<Longrightarrow> r \<noteq> i \<Longrightarrow> m' ! (r * sz + k) =
           (if k = sz - 1 then 0 else m ! (r * sz + k + 1)) XOR gbf_mul t (m ! (r * sz)) (m' ! (i * sz + k))"
proof -
  from assms(1) obtain iv where iv: "gbf_inv t (m ! (i * sz)) = Some iv"
    and m': "m' = foldl (\<lambda>m j. if i = j then m else eliminate_row t sz i j m) (scale_row t sz i iv m) [0..<sz]"
    by (auto simp: invmatrix_round_def split: option.splits)
  let ?s = "scale_row t sz i iv m"
  have l: "length ?s = sz * sz" using assms(2) by simp
  note e = eliminate_rows_nth [OF l assms(3) order_refl]
  have pivot: "m' ! (i * sz + k) = ?s ! (i * sz + k)" if "k < sz" for k
    using e [OF assms(3) that, of t] m' by simp
  have other: "?s ! (r * sz + k) = m ! (r * sz + k)" if "r < sz" "k < sz" "r \<noteq> i" for r k
    using scale_row_nth [OF assms(2,3) that(1,2), of t iv] that(3) by simp
  show ?thesis
  proof (rule that [OF iv])
    show "length m' = sz * sz" using e [OF assms(3) assms(3), of t] m' by simp
    show "m' ! (i * sz + k) = gbf_mul t (if k = sz - 1 then 1 else m ! (i * sz + k + 1)) iv
           \<or> k = sz - 1 \<and> m' ! (i * sz + k) = iv" if "k < sz" for k
      using pivot [OF that] scale_row_nth [OF assms(2,3,3) that, of t iv] by simp
    show "m' ! (r * sz + k) = (if k = sz - 1 then 0 else m ! (r * sz + k + 1)) XOR gbf_mul t (m ! (r * sz)) (m' ! (i * sz + k))"
      if "r < sz" "k < sz" "r \<noteq> i" for r k
      using e [OF that(1,2), of t] m' pivot [OF that(2)] other [OF that(1) _ that(3), of 0]
        other [OF that(1) _ that(3), of "k + 1"] that by (auto split: if_splits)
  qed
qed

lemma invmatrix_round_solves:
  assumes "invmatrix_round (gbf_init poly) sz i m = Some m'" and "length m = sz * sz" and "i < sz"
    and "solves poly sz m x y"
  shows "solves poly sz m' (\<lambda>k. if k < sz - 1 then x (Suc k) else y i) (y(i := x 0)) \<and> length m' = sz * sz"
proof -
  obtain w where w: "sz = Suc w" using assms(3) by (cases sz) simp_all
  from invmatrix_round_nth [OF assms(1-3)] obtain iv where
    iv: "gbf_inv (gbf_init poly) (m ! (i * sz)) = Some iv" and l: "length m' = sz * sz"
    and pivot': "\<And>k. k < sz \<Longrightarrow> m' ! (i * sz + k) = gbf_mul (gbf_init poly) (if k = sz - 1 then 1 else m ! (i * sz + k + 1)) iv
           \<or> k = sz - 1 \<and> m' ! (i * sz + k) = iv"
    and other: "\<And>r k. r < sz \<Longrightarrow> k < sz \<Longrightarrow> r \<noteq> i \<Longrightarrow> m' ! (r * sz + k) =
           (if k = sz - 1 then 0 else m ! (r * sz + k + 1)) XOR gbf_mul (gbf_init poly) (m ! (r * sz)) (m' ! (i * sz + k))"
    by metis
  have inv: "gf_mul poly iv (m ! (i * sz)) = 1" by (rule gbf_inv_correct [OF iv])
  have pivot: "m' ! (i * sz + k) = gf_mul poly iv (m ! (i * sz + k + 1))" if "k < w" for k
    using pivot' [of k] that w by (simp add: gbf_mul_is_gf_mul gf_mul_commute)
  have pivot_last: "m' ! (i * sz + w) = iv"
    using pivot' [of w] w by (auto simp: gbf_mul_is_gf_mul gf_mul_1_left)
  define S where "S r = gf_sum (\<lambda>k. gf_mul poly (m ! (r * sz + k + 1)) (x (Suc k))) w" for r
  have y: "y r = gf_mul poly (m ! (r * sz)) (x 0) XOR S r" if "r < sz" for r
    using assms(4) that unfolding solves_def row_value_def w gf_sum_first by (simp add: S_def w)
  let ?x = "\<lambda>k. if k < sz - 1 then x (Suc k) else y i"
  have split: "row_value poly sz m' r ?x =
      gf_sum (\<lambda>k. gf_mul poly (m' ! (r * sz + k)) (x (Suc k))) w XOR gf_mul poly (m' ! (r * sz + w)) (y i)" for r
  proof -
    have "gf_sum (\<lambda>k. gf_mul poly (m' ! (r * sz + k)) (?x k)) w = gf_sum (\<lambda>k. gf_mul poly (m' ! (r * sz + k)) (x (Suc k))) w"
      by (rule gf_sum_cong) (simp add: w)
    then show ?thesis by (simp add: row_value_def w)
  qed
  have ri: "row_value poly sz m' i ?x = x 0"
  proof -
    have "gf_sum (\<lambda>k. gf_mul poly (m' ! (i * sz + k)) (x (Suc k))) w = gf_sum (\<lambda>k. gf_mul poly iv (gf_mul poly (m ! (i * sz + k + 1)) (x (Suc k)))) w"
      by (rule gf_sum_cong) (simp add: pivot gf_mul_assoc)
    also have "\<dots> = gf_mul poly iv (S i)" by (simp only: gf_sum_mul S_def)
    finally have "row_value poly sz m' i ?x = gf_mul poly iv (S i) XOR gf_mul poly iv (y i)"
      by (simp only: split pivot_last)
    also have "\<dots> = gf_mul poly (gf_mul poly iv (m ! (i * sz))) (x 0)"
      by (simp only: y [OF assms(3)] gf_mul_xor_right gf_mul_assoc xor.commute [of _ "gf_mul poly iv (S i)"] xor_cancel)
    finally show ?thesis by (simp only: inv gf_mul_1_left)
  qed
  have rr: "row_value poly sz m' r ?x = y r" if "r < sz" "r \<noteq> i" for r
  proof -
    let ?c = "m ! (r * sz)"
    have "gf_sum (\<lambda>k. gf_mul poly (m' ! (r * sz + k)) (x (Suc k))) w =
        gf_sum (\<lambda>k. gf_mul poly (m ! (r * sz + k + 1)) (x (Suc k)) XOR gf_mul poly ?c (gf_mul poly (m' ! (i * sz + k)) (x (Suc k)))) w"
    proof (rule gf_sum_cong)
      fix k assume "k < w"
      then have "k < sz" and "k \<noteq> sz - 1" using w by simp_all
      then have "m' ! (r * sz + k) = m ! (r * sz + k + 1) XOR gf_mul poly ?c (m' ! (i * sz + k))"
        using other [OF that(1) _ that(2), of k] by (simp add: gbf_mul_is_gf_mul)
      then show "gf_mul poly (m' ! (r * sz + k)) (x (Suc k)) = gf_mul poly (m ! (r * sz + k + 1)) (x (Suc k)) XOR
          gf_mul poly ?c (gf_mul poly (m' ! (i * sz + k)) (x (Suc k)))"
        by (simp only: gf_mul_xor_left gf_mul_assoc)
    qed
    also have "\<dots> = S r XOR gf_mul poly ?c (gf_sum (\<lambda>k. gf_mul poly (m' ! (i * sz + k)) (x (Suc k))) w)"
      by (simp only: gf_sum_xor gf_sum_mul S_def)
    finally have s: "gf_sum (\<lambda>k. gf_mul poly (m' ! (r * sz + k)) (x (Suc k))) w =
        S r XOR gf_mul poly ?c (gf_sum (\<lambda>k. gf_mul poly (m' ! (i * sz + k)) (x (Suc k))) w)" .
    have "w < sz" and "w = sz - 1" using w by simp_all
    then have "m' ! (r * sz + w) = gf_mul poly ?c (m' ! (i * sz + w))"
      using other [OF that(1) _ that(2), of w] by (simp add: gbf_mul_is_gf_mul)
    then have "row_value poly sz m' r ?x = S r XOR gf_mul poly ?c (row_value poly sz m' i ?x)"
      unfolding split s by (simp only: gf_mul_xor_right gf_mul_assoc xor.assoc)
    then show ?thesis unfolding ri y [OF that(1)] by (simp only: xor.commute)
  qed
  show ?thesis
    unfolding solves_def using ri rr l by simp
qed

lemma invmatrix_solves:
  assumes "length m = sz * sz" and "solves poly sz m x y"
  shows "n \<le> sz \<Longrightarrow> foldl (\<lambda>m i. Option.bind m (invmatrix_round (gbf_init poly) sz i)) (Some m) [0..<n] = Some m' \<Longrightarrow>
    solves poly sz m' (\<lambda>k. if k + n < sz then x (k + n) else y (k + n - sz)) (\<lambda>r. if r < n then x r else y r)
    \<and> length m' = sz * sz"
proof (induction n arbitrary: m')
  case 0
  then have "solves poly sz m (\<lambda>k. if k + 0 < sz then x (k + 0) else y (k + 0 - sz)) (\<lambda>r. if r < 0 then x r else y r)"
    using assms(2) unfolding solves_def row_value_def by (simp cong: gf_sum_cong)
  then show ?case using 0 assms by simp
next
  case (Suc n)
  from Suc.prems(2) obtain m1 where
    m1: "foldl (\<lambda>m i. Option.bind m (invmatrix_round (gbf_init poly) sz i)) (Some m) [0..<n] = Some m1"
    and r: "invmatrix_round (gbf_init poly) sz n m1 = Some m'"
    by (auto simp: bind_eq_Some_conv)
  let ?x = "\<lambda>k. if k + n < sz then x (k + n) else y (k + n - sz)" and ?y = "\<lambda>r. if r < n then x r else y r"
  have n: "n < sz" using Suc.prems(1) by simp
  have "solves poly sz m1 ?x ?y" and "length m1 = sz * sz"
    using Suc.IH [OF _ m1] n by simp_all
  from invmatrix_round_solves [OF r this(2) n this(1)]
  have "solves poly sz m' (\<lambda>k. if k < sz - 1 then ?x (Suc k) else ?y n) (?y(n := ?x 0))" and "length m' = sz * sz"
    by auto
  moreover have "?y(n := ?x 0) = (\<lambda>r. if r < Suc n then x r else y r)"
    using n by (auto simp: fun_eq_iff less_Suc_eq)
  moreover have "row_value poly sz m' r (\<lambda>k. if k < sz - 1 then ?x (Suc k) else ?y n)
      = row_value poly sz m' r (\<lambda>k. if k + Suc n < sz then x (k + Suc n) else y (k + Suc n - sz))" for r
  proof -
    have "(if k < sz - 1 then ?x (Suc k) else ?y n) = (if k + Suc n < sz then x (k + Suc n) else y (k + Suc n - sz))" if "k < sz" for k
    proof (cases "k = sz - 1")
      case True
      then show ?thesis using n by simp
    next
      case False
      then have "k < sz - 1" using that by simp
      then show ?thesis by simp
    qed
    then show ?thesis unfolding row_value_def by (intro gf_sum_cong) (simp only:)
  qed
  ultimately show ?case by (simp only: solves_def simp_thms)
qed

theorem gbf_invmatrix_correct:
  assumes "gbf_invmatrix (gbf_init poly) m sz = Some m'" and "length m = sz * sz" and "solves poly sz m x y"
  shows "solves poly sz m' y x"
proof -
  have "solves poly sz m' (\<lambda>k. if k + sz < sz then x (k + sz) else y (k + sz - sz)) (\<lambda>r. if r < sz then x r else y r)"
    using invmatrix_solves [OF assms(2,3), of sz m'] assms(1) by (simp add: gbf_invmatrix_def)
  then show ?thesis by (simp add: solves_def)
qed

section \<open>Encoding and decoding\<close>

lemma gbf_powers_nth:
  "0 < n \<Longrightarrow> length (gbf_powers (gbf_init poly) vec n) = n \<and>
    (\<forall>j < n. gbf_powers (gbf_init poly) vec n ! j = gf_pow poly vec j)"
proof (induction n rule: nat_induct_non_zero)
  case 1
  then show ?case by (simp add: gbf_powers_def)
next
  case (Suc n)
  let ?p = "gbf_powers (gbf_init poly) vec"
  have s: "?p (Suc n) = ?p n @ [gbf_mul (gbf_init poly) (last (?p n)) vec]"
    using Suc.hyps by (simp add: gbf_powers_def)
  have "last (?p n) = gf_pow poly vec (n - 1)"
    using Suc by (subst last_conv_nth) auto
  then have "gbf_mul (gbf_init poly) (last (?p n)) vec = gf_pow poly vec n"
    using Suc.hyps by (cases n) (simp_all add: gbf_mul_is_gf_mul gf_mul_commute)
  then show ?case using s Suc by (auto simp: nth_append less_Suc_eq)
qed

definition poly_value :: "u16 \<Rightarrow> (nat \<Rightarrow> u16) \<Rightarrow> nat \<Rightarrow> u16 \<Rightarrow> u16" where
  "poly_value poly c n v = gf_sum (\<lambda>j. gf_mul poly (c j) (gf_pow poly v j)) n"

theorem gbf_encode_one_correct:
  assumes "0 < n" and "gbf_encode_one (gbf_init poly) mem data vec n sz = Some out"
  shows "out = map (\<lambda>i. poly_value poly (\<lambda>j. data ! (i * n + j)) n vec) [0..<sz]"
proof -
  have "foldl (\<lambda>v j. v XOR gbf_mul (gbf_init poly) (data ! (i * n + j)) (gbf_powers (gbf_init poly) vec n ! j)) 0 [0..<n]
      = poly_value poly (\<lambda>j. data ! (i * n + j)) n vec" for i
    unfolding gf_sum_foldl poly_value_def
    by (rule gf_sum_cong) (use gbf_powers_nth [OF assms(1)] in \<open>simp add: gbf_mul_is_gf_mul\<close>)
  then show ?thesis
    using assms(2) by (auto simp: gbf_encode_one_def Let_def split: if_splits)
qed

lemma decode_store:
  assumes "\<And>i j. i < n \<Longrightarrow> j < sz \<Longrightarrow> j * n + i < length out"
  shows "m \<le> n \<Longrightarrow> length (foldl (\<lambda>out i. foldl (\<lambda>out j. out[j * n + i := f i j]) out [0..<sz]) out [0..<m]) = length out \<and>
    (\<forall>i < n. \<forall>j < sz. foldl (\<lambda>out i. foldl (\<lambda>out j. out[j * n + i := f i j]) out [0..<sz]) out [0..<m] ! (j * n + i) =
       (if i < m then f i j else out ! (j * n + i)))"
proof (induction m)
  case 0
  then show ?case by simp
next
  case (Suc m)
  let ?o = "foldl (\<lambda>out i. foldl (\<lambda>out j. out[j * n + i := f i j]) out [0..<sz]) out [0..<m]"
  have IH: "length ?o = length out" "\<And>i j. i < n \<Longrightarrow> j < sz \<Longrightarrow> ?o ! (j * n + i) = (if i < m then f i j else out ! (j * n + i))"
    using Suc by simp_all
  have m: "m < n" using Suc.prems by simp
  have inner: "length (foldl (\<lambda>out j. out[j * n + m := f m j]) ?o [0..<k]) = length out \<and>
     (\<forall>i < n. \<forall>j < sz. foldl (\<lambda>out j. out[j * n + m := f m j]) ?o [0..<k] ! (j * n + i) =
        (if i = m \<and> j < k then f m j else ?o ! (j * n + i)))" if "k \<le> sz" for k
    using that
  proof (induction k)
    case 0
    then show ?case using IH by simp
  next
    case (Suc k)
    then show ?case
      using matrix_index_eq [OF m, of _ k] assms [OF m, of k] by (auto simp: nth_list_update less_Suc_eq)
  qed
  show ?case
    using inner [of sz] IH m by (auto simp: less_Suc_eq)
qed

theorem gbf_decode_encode:
  assumes n: "0 < n" and vec: "length vec = n" and orig: "length orig = n * sz"
    and enc: "map (\<lambda>v. gbf_encode_one (gbf_init poly) mem orig v n sz) vec = map Some frags"
    and dec: "gbf_decode (gbf_init poly) mem' (concat frags) vec n sz = Some out"
  shows "out = orig"
proof -
  have lf: "length frags = n" using enc vec by (metis length_map)
  have frag: "frags ! k = map (\<lambda>i. poly_value poly (\<lambda>j. orig ! (i * n + j)) n (vec ! k)) [0..<sz]" if "k < n" for k
  proof (rule gbf_encode_one_correct [OF n])
    show "gbf_encode_one (gbf_init poly) mem orig (vec ! k) n sz = Some (frags ! k)"
      using arg_cong [OF enc, of "\<lambda>xs. xs ! k"] that vec lf by simp
  qed
  then have frags: "frags = map (\<lambda>k. map (\<lambda>j. poly_value poly (\<lambda>l. orig ! (j * n + l)) n (vec ! k)) [0..<sz]) [0..<n]"
    using lf by (intro nth_equalityI) simp_all
  have data: "concat frags ! (k * sz + j) = poly_value poly (\<lambda>l. orig ! (j * n + l)) n (vec ! k)" if "k < n" "j < sz" for k j
    unfolding frags by (rule nth_concat_rows [OF that])
  let ?V = "concat (map (\<lambda>i. gbf_powers (gbf_init poly) (vec ! i) n) [0..<n])"
  have V: "?V = concat (map (\<lambda>i. map (\<lambda>j. gf_pow poly (vec ! i) j) [0..<n]) [0..<n])"
    using gbf_powers_nth [OF n] by (intro arg_cong [of _ _ concat] map_cong refl nth_equalityI) auto
  from dec obtain x where x: "gbf_invmatrix (gbf_init poly) ?V n = Some x" and
    out: "out = foldl (\<lambda>out i. foldl (\<lambda>out j. out[j * n + i :=
         foldl (\<lambda>v k. v XOR gbf_mul (gbf_init poly) (concat frags ! (k * sz + j)) (x ! (i * n + k))) 0 [0..<n]])
       out [0..<sz]) (replicate (n * sz) 0) [0..<n]"
    by (auto simp: gbf_decode_def split: if_splits option.splits)
  have lV: "length ?V = n * n" unfolding V by (simp add: length_concat comp_def sum_list_triv)
  have sol: "solves poly n x (\<lambda>k. concat frags ! (k * sz + j)) (\<lambda>l. orig ! (j * n + l))" if "j < sz" for j
  proof (rule gbf_invmatrix_correct [OF x lV])
    show "solves poly n ?V (\<lambda>l. orig ! (j * n + l)) (\<lambda>k. concat frags ! (k * sz + j))"
      unfolding solves_def
    proof (intro allI impI)
      fix r assume r: "r < n"
      have "row_value poly n ?V r (\<lambda>l. orig ! (j * n + l)) = poly_value poly (\<lambda>l. orig ! (j * n + l)) n (vec ! r)"
        unfolding row_value_def poly_value_def V
      proof (rule gf_sum_cong)
        fix k assume "k < n"
        then show "gf_mul poly (concat (map (\<lambda>i. map (\<lambda>j. gf_pow poly (vec ! i) j) [0..<n]) [0..<n]) ! (r * n + k)) (orig ! (j * n + k))
            = gf_mul poly (orig ! (j * n + k)) (gf_pow poly (vec ! r) k)"
          using nth_concat_rows [OF r, of k n "\<lambda>i j. gf_pow poly (vec ! i) j"] by (simp only: gf_mul_commute)
      qed
      then show "concat frags ! (r * sz + j) = row_value poly n ?V r (\<lambda>l. orig ! (j * n + l))"
        using data [OF r that] by simp
    qed
  qed
  have val: "foldl (\<lambda>v k. v XOR gbf_mul (gbf_init poly) (concat frags ! (k * sz + j)) (x ! (i * n + k))) 0 [0..<n]
      = orig ! (j * n + i)" if "i < n" "j < sz" for i j
  proof -
    have "orig ! (j * n + i) = gf_sum (\<lambda>k. gf_mul poly (x ! (i * n + k)) (concat frags ! (k * sz + j))) n"
      using sol [OF that(2)] that(1) by (simp add: solves_def row_value_def)
    then show ?thesis
      unfolding gf_sum_foldl by (simp add: gbf_mul_is_gf_mul gf_mul_commute)
  qed
  have idx: "j * n + i < n * sz" if "i < n" "j < sz" for i j
  proof -
    have "Suc j * n \<le> sz * n" using that(2) by (intro mult_le_mono1) simp
    then show ?thesis using that(1) by (simp add: mult.commute)
  qed
  have st: "length out = n * sz \<and> (\<forall>i < n. \<forall>j < sz. out ! (j * n + i) = orig ! (j * n + i))"
    using decode_store [of n sz "replicate (n * sz) 0" n "\<lambda>i j. foldl (\<lambda>v k. v XOR gbf_mul (gbf_init poly) (concat frags ! (k * sz + j)) (x ! (i * n + k))) 0 [0..<n]"]
      idx val unfolding out by simp
  show ?thesis
  proof (rule nth_equalityI)
    show "length out = length orig" using st orig by simp
    fix p assume "p < length out"
    then have p: "p < n * sz" using st by simp
    have "p div n < sz" using p by (simp add: div_less_iff_less_mult n mult.commute)
    moreover have "p mod n < n" using n by simp
    ultimately have "out ! (p div n * n + p mod n) = orig ! (p div n * n + p mod n)" using st by blast
    then show "out ! p = orig ! p" by simp
  qed
qed

end
