(* ===== verification/Redundancy_Total.thy ===== *)
theory Redundancy_Total
  imports Redundancy_Code
begin

text \<open>
  With the polynomial \<open>GBF_POLYNOME\<close> the arithmetic is that of a field: 3 generates the multiplicative
  group.  So \<open>gbf_inv\<close> answers for every nonzero element, the elimination without pivoting in
  \<open>gbf_invmatrix\<close> never meets a zero pivot in a matrix of powers of distinct values, and every
  encoded message can be decoded.
\<close>

section \<open>The field of the default polynomial\<close>

text \<open>
  The powers of 3 run through all nonzero elements when the polynomial is \<open>GBF_POLYNOME\<close>: the order
  of 3 is 65535, since its powers with the exponents 65535 / p for the prime factors p are not 1.
\<close>

fun square_multiply :: "u16 \<Rightarrow> u16 \<Rightarrow> bool list \<Rightarrow> u16 \<Rightarrow> u16" where
  "square_multiply poly a [] acc = acc"
| "square_multiply poly a (b # bs) acc =
     square_multiply poly a bs (if b then gf_mul poly (gf_mul poly acc acc) a else gf_mul poly acc acc)"

fun binary :: "bool list \<Rightarrow> nat \<Rightarrow> nat" where
  "binary [] n = n"
| "binary (b # bs) n = binary bs (2 * n + of_bool b)"

lemma gf_pow_double: "gf_mul poly (gf_pow poly a n) (gf_pow poly a n) = gf_pow poly a (2 * n)"
  by (simp add: gf_pow_add mult_2)

lemma square_multiply_correct: "square_multiply poly a bs (gf_pow poly a n) = gf_pow poly a (binary bs n)"
proof (induction bs arbitrary: n)
  case Nil
  then show ?case by simp
next
  case (Cons b bs)
  have "gf_mul poly (gf_pow poly a (2 * n)) a = gf_pow poly a (Suc (2 * n))"
    by (simp add: gf_mul_commute)
  then show ?case
    using Cons [of "2 * n + of_bool b"] by (cases b) (simp_all add: gf_pow_double)
qed

lemma gf_pow_bits: "gf_pow poly a (binary bs 0) = square_multiply poly a bs 1"
  using square_multiply_correct [of poly a bs 0] by simp

lemma order_3_65535: "gf_pow GBF_POLYNOME 3 65535 = 1"
proof -
  have "square_multiply GBF_POLYNOME 3
      [True, True, True, True, True, True, True, True, True, True, True, True, True, True, True, True] 1 = 1"
    by code_simp
  then show ?thesis unfolding gf_pow_bits [symmetric] by simp
qed

lemma order_3_21845: "gf_pow GBF_POLYNOME 3 21845 \<noteq> 1"
proof -
  have "square_multiply GBF_POLYNOME 3
      [True, False, True, False, True, False, True, False, True, False, True, False, True, False, True] 1 \<noteq> 1"
    by code_simp
  then show ?thesis unfolding gf_pow_bits [symmetric] by simp
qed

lemma order_3_13107: "gf_pow GBF_POLYNOME 3 13107 \<noteq> 1"
proof -
  have "square_multiply GBF_POLYNOME 3
      [True, True, False, False, True, True, False, False, True, True, False, False, True, True] 1 \<noteq> 1"
    by code_simp
  then show ?thesis unfolding gf_pow_bits [symmetric] by simp
qed

lemma order_3_3855: "gf_pow GBF_POLYNOME 3 3855 \<noteq> 1"
proof -
  have "square_multiply GBF_POLYNOME 3
      [True, True, True, True, False, False, False, False, True, True, True, True] 1 \<noteq> 1"
    by code_simp
  then show ?thesis unfolding gf_pow_bits [symmetric] by simp
qed

lemma order_3_255: "gf_pow GBF_POLYNOME 3 255 \<noteq> 1"
proof -
  have "square_multiply GBF_POLYNOME 3
      [True, True, True, True, True, True, True, True] 1 \<noteq> 1"
    by code_simp
  then show ?thesis unfolding gf_pow_bits [symmetric] by simp
qed

lemmas order_3 = order_3_65535 order_3_21845 order_3_13107 order_3_3855 order_3_255

lemma gf_pow_mult: "gf_pow poly (gf_pow poly a m) n = gf_pow poly a (m * n)"
  by (induction n) (simp_all add: gf_pow_add)

lemma gf_pow_1 [simp]: "gf_pow poly 1 n = 1"
  by (induction n) simp_all


lemma dvd_prime_257: "g dvd (257::nat) \<Longrightarrow> g = 1 \<or> g = 257"
proof -
  assume "g dvd (257::nat)"
  then obtain h where gh: "257 = g * h" by (elim dvdE)
  have small: "x = 1" if "x dvd (257::nat)" "x < 17" for x
  proof -
    have "x = 0 \<or> x = 1 \<or> x = 2 \<or> x = 3 \<or> x = 4 \<or> x = 5 \<or> x = 6 \<or> x = 7 \<or> x = 8 \<or> x = 9 \<or> x = 10 \<or> x = 11 \<or> x = 12 \<or> x = 13 \<or> x = 14 \<or> x = 15 \<or> x = 16" using that(2) by presburger
    then show ?thesis using that(1) by (elim disjE) simp_all
  qed
  show ?thesis
  proof (cases "g < 17")
    case True
    then show ?thesis using small \<open>g dvd 257\<close> by simp
  next
    case False
    have "h < 17"
    proof (rule ccontr)
      assume "\<not> h < 17"
      then have "17 * 17 \<le> g * h" using False by (intro mult_le_mono) simp_all
      then show False using gh by simp
    qed
    then have "h = 1" using small [of h] gh by (metis dvd_triv_right)
    then show ?thesis using gh by simp
  qed
qed

lemma dvd_prime_17: "g dvd (17::nat) \<Longrightarrow> g = 1 \<or> g = 17"
proof -
  assume g: "g dvd (17::nat)"
  then have "g \<le> 17" by (intro dvd_imp_le) simp_all
  then have "g = 0 \<or> g = 1 \<or> g = 2 \<or> g = 3 \<or> g = 4 \<or> g = 5 \<or> g = 6 \<or> g = 7 \<or> g = 8 \<or> g = 9 \<or> g = 10 \<or> g = 11 \<or> g = 12 \<or> g = 13 \<or> g = 14 \<or> g = 15 \<or> g = 16 \<or> g = 17" by presburger
  then show ?thesis using g by (elim disjE) simp_all
qed

lemma dvd_prime_5: "g dvd (5::nat) \<Longrightarrow> g = 1 \<or> g = 5"
proof -
  assume g: "g dvd (5::nat)"
  then have "g \<le> 5" by (intro dvd_imp_le) simp_all
  then have "g \<in> {0,1,2,3,4,5}" by auto
  then show ?thesis using g by auto
qed

lemma dvd_prime_3: "g dvd (3::nat) \<Longrightarrow> g = 1 \<or> g = 3"
proof -
  assume g: "g dvd (3::nat)"
  then have "g \<le> 3" by (intro dvd_imp_le) simp_all
  then have "g \<in> {0,1,2,3}" by auto
  then show ?thesis using g by auto
qed

lemma factor_dvd:
  fixes d p m :: nat
  assumes "d dvd p * m" and "\<not> d dvd m" and "\<And>g. g dvd p \<Longrightarrow> g = 1 \<or> g = p"
  shows "p dvd d"
proof -
  have "gcd d p = 1 \<or> gcd d p = p" by (rule assms(3)) simp
  moreover have "gcd d p \<noteq> 1"
    using assms(1,2) coprime_dvd_mult_right_iff [of d p m] by (auto simp: coprime_iff_gcd_eq_1)
  ultimately show ?thesis by (metis gcd_dvd1)
qed

lemma coprime_257: "coprime (255::nat) 257"
  using gcd_red_nat [of 257 255] gcd_red_nat [of 255 2]
  by (simp add: coprime_iff_gcd_eq_1 gcd.commute)

lemma dvd_65535: "3 dvd d \<Longrightarrow> 5 dvd d \<Longrightarrow> 17 dvd d \<Longrightarrow> 257 dvd d \<Longrightarrow> 65535 dvd (d :: nat)"
proof -
  assume a: "3 dvd d" "5 dvd d" "17 dvd d" "257 dvd d"
  have "15 dvd d" using a(1,2) by presburger
  then have "255 dvd d" using a(3) by presburger
  then show ?thesis using divides_mult [OF _ a(4) coprime_257] by simp
qed


abbreviation pow3 :: "nat \<Rightarrow> u16" where "pow3 k \<equiv> gf_pow GBF_POLYNOME 3 k"

lemma pow3_mult_1: "pow3 k = 1 \<Longrightarrow> pow3 (k * n) = 1"
  by (simp add: gf_pow_mult [symmetric])

lemma pow3_gcd: "pow3 k = 1 \<Longrightarrow> 0 < k \<Longrightarrow> pow3 (gcd k 65535) = 1"
proof -
  assume k: "pow3 k = 1" "0 < k"
  then obtain x y where "k * x = 65535 * y + gcd k 65535" using bezout_nat [of k 65535] by auto
  then have "gf_mul GBF_POLYNOME (pow3 (65535 * y)) (pow3 (gcd k 65535)) = pow3 (k * x)"
    by (simp add: gf_pow_add)
  then show ?thesis
    using pow3_mult_1 [OF k(1), of x] pow3_mult_1 [OF order_3(1), of y] by (simp add: gf_mul_1_left)
qed

lemma order_of_3:
  assumes "pow3 k = 1" and "0 < k"
  shows "65535 \<le> k"
proof -
  let ?d = "gcd k 65535"
  have d: "pow3 ?d = 1" by (rule pow3_gcd [OF assms])
  have nd: "\<not> ?d dvd m" if "pow3 m \<noteq> 1" for m
    using that pow3_mult_1 [OF d] by (auto elim!: dvdE)
  have d65535: "?d dvd 65535" by simp
  have "3 dvd ?d" by (rule factor_dvd [OF _ nd [OF order_3(2)] dvd_prime_3]) (use d65535 in simp_all)
  moreover have "5 dvd ?d" by (rule factor_dvd [OF _ nd [OF order_3(3)] dvd_prime_5]) (use d65535 in simp_all)
  moreover have "17 dvd ?d" by (rule factor_dvd [OF _ nd [OF order_3(4)] dvd_prime_17]) (use d65535 in simp_all)
  moreover have "257 dvd ?d" by (rule factor_dvd [OF _ nd [OF order_3(5)] dvd_prime_257]) (use d65535 in simp_all)
  ultimately have "65535 dvd ?d" by (rule dvd_65535)
  then have "65535 dvd k" by (rule dvd_trans) simp
  then show ?thesis using assms(2) by (rule dvd_imp_le)
qed

lemma pow3_nonzero: "pow3 k \<noteq> 0"
proof
  assume z: "pow3 k = 0"
  have "65535 * k = k + 65534 * k" by simp
  then have "pow3 (65535 * k) = gf_mul GBF_POLYNOME (pow3 k) (pow3 (65534 * k))" by (simp only: gf_pow_add)
  then show False using pow3_mult_1 [OF order_3(1), of k] z by simp
qed

lemma pow3_inj: "inj_on pow3 {..<65535}"
proof -
  have ne: "pow3 i \<noteq> pow3 j" if "i < j" "j < 65535" for i j
  proof
    assume e: "pow3 i = pow3 j"
    have "gf_mul GBF_POLYNOME (pow3 (65535 - i)) (pow3 i) = pow3 65535"
      using that by (simp flip: gf_pow_add)
    then have 1: "gf_mul GBF_POLYNOME (pow3 (65535 - i)) (pow3 j) = 1" using e order_3(1) by simp
    have "65535 - i + j = 65535 + (j - i)" using that by simp
    then have "pow3 (65535 - i + j) = gf_mul GBF_POLYNOME (pow3 65535) (pow3 (j - i))" by (simp only: gf_pow_add)
    then have "pow3 (j - i) = 1" using 1 order_3(1) by (simp only: gf_pow_add gf_mul_1_left)
    then show False using order_of_3 [of "j - i"] that by simp
  qed
  show ?thesis
  proof (rule inj_onI)
    fix i j assume "i \<in> {..<65535}" "j \<in> {..<65535}" "pow3 i = pow3 j"
    then show "i = j" using ne [of i j] ne [of j i] by (cases i j rule: linorder_cases) auto
  qed
qed

text \<open>Every nonzero element is a power of 3, so the ring is a field.\<close>

lemma power_of_3: "r \<noteq> 0 \<Longrightarrow> \<exists>k < 65535. r = pow3 k"
proof -
  assume r: "r \<noteq> 0"
  have "card (pow3 ` {..<65535}) = 65535" using card_image [OF pow3_inj] by simp
  moreover have "card (UNIV - {0 :: u16}) = 65535" by (simp add: card_word)
  moreover have "pow3 ` {..<65535} \<subseteq> UNIV - {0}" using pow3_nonzero by auto
  ultimately have "pow3 ` {..<65535} = UNIV - {0}" by (intro card_subset_eq) simp_all
  then show ?thesis using r by auto
qed

lemma no_zero_divisors:
  assumes "gf_mul GBF_POLYNOME a b = 0" and "b \<noteq> 0"
  shows "a = 0"
proof (rule ccontr)
  assume "a \<noteq> 0"
  then obtain i j where "a = pow3 i" and "b = pow3 j" using power_of_3 assms(2) by metis
  then have "pow3 (i + j) = 0" using assms(1) by (simp add: gf_pow_add)
  then show False using pow3_nonzero by simp
qed

lemma gf_mul_nonzero: "a \<noteq> 0 \<Longrightarrow> b \<noteq> 0 \<Longrightarrow> gf_mul GBF_POLYNOME a b \<noteq> 0"
  using no_zero_divisors by blast

lemma gf_pow_order: "r \<noteq> 0 \<Longrightarrow> gf_pow GBF_POLYNOME r 65535 = 1"
proof -
  assume "r \<noteq> 0"
  then obtain k where "r = pow3 k" using power_of_3 by blast
  then show ?thesis using pow3_mult_1 [OF order_3(1), of k] by (simp add: gf_pow_mult mult.commute)
qed

lemma inverse_unique:
  assumes "gf_mul GBF_POLYNOME a r = 1" and "gf_mul GBF_POLYNOME b r = 1"
  shows "a = b"
proof -
  have "gf_mul GBF_POLYNOME a (gf_mul GBF_POLYNOME b r) = gf_mul GBF_POLYNOME b (gf_mul GBF_POLYNOME a r)"
    by (metis gf_mul_assoc gf_mul_commute)
  then show ?thesis using assms by simp
qed


section \<open>The extended Euclidean algorithm ends with the greatest common divisor 1\<close>

text \<open>Products whose degrees add up to less than 16 are not reduced.\<close>

lemma gf_mul_degree_bound:
  assumes "\<And>i. m < i \<Longrightarrow> \<not> bit a i"
  shows "m + n \<le> 16 \<Longrightarrow> (\<And>i. n \<le> i \<Longrightarrow> \<not> bit b i) \<Longrightarrow> m + n \<le> i \<Longrightarrow> \<not> bit (gf_mul poly b a) i"
proof (induction n arbitrary: b i)
  case 0
  then have "b = 0" by (simp add: bit_eq_iff)
  then show ?case by simp
next
  case (Suc n)
  define b' where "b' = (if bit b n then b XOR push_bit n 1 else b)"
  have n: "n < 16" using Suc.prems(1) by simp
  have b: "b = b' XOR (if bit b n then push_bit n 1 else 0)"
    unfolding b'_def by (cases "bit b n") (simp_all only: if_True if_False xor.assoc xor_self_eq xor.right_neutral)
  have b': "\<not> bit b' i" if "n \<le> i" for i
    using that Suc.prems(2) [of i] n unfolding b'_def
    by (cases "i = n") (simp_all only: bit_xor_iff bit_exp_iff split: if_split, auto)
  have "\<not> bit (gf_mul poly b' a) i" using Suc.IH [of b' i] b' Suc.prems(1,3) by simp
  moreover have "\<not> bit (gf_mul poly (push_bit n 1) a) i"
  proof -
    have "gf_mul poly (push_bit n 1) a = push_bit n a"
      using gf_mul_exp [OF n] funpow_xtime_shift [of n a poly] assms Suc.prems(1) by simp
    then show ?thesis using assms [of "i - n"] Suc.prems(3) by (auto simp only: bit_push_bit_iff)
  qed
  ultimately show ?case
    by (subst b) (simp only: gf_mul_xor_left bit_xor_iff gf_mul_0 bit_0_eq bot_apply split: if_split, auto)
qed

lemma gf_mul_degree:
  assumes "\<And>i. m < i \<Longrightarrow> \<not> bit a i" and "bit a m" and "\<And>i. n < i \<Longrightarrow> \<not> bit b i" and "bit b n" and "m + n < 16"
  shows "bit (gf_mul poly b a) (m + n)"
proof -
  define b' where "b' = b XOR push_bit n 1"
  have n: "n < 16" using assms(5) by simp
  have b: "b = b' XOR push_bit n 1" unfolding b'_def by (simp only: xor.assoc xor_self_eq xor.right_neutral)
  have b': "\<not> bit b' i" if "n \<le> i" for i
    using that assms(3) [of i] assms(4) n unfolding b'_def
    by (cases "i = n") (simp_all only: bit_xor_iff bit_exp_iff, auto)
  have "\<not> bit (gf_mul poly b' a) (m + n)"
    using gf_mul_degree_bound [of m a n b' "m + n"] assms(1,5) b' by simp
  moreover have "gf_mul poly (push_bit n 1) a = push_bit n a"
    using gf_mul_exp [OF n] funpow_xtime_shift [of n a poly] assms(1,5) by simp
  moreover have "bit (push_bit n a) (m + n)" using assms(2,5) by (simp only: bit_push_bit_iff) simp
  ultimately show ?thesis by (subst b) (simp only: gf_mul_xor_left bit_xor_iff simp_thms)
qed

lemma high_bit_eqI: "bit r m \<Longrightarrow> (\<And>i. m < i \<Longrightarrow> \<not> bit r i) \<Longrightarrow> high_bit r = m"
proof -
  assume m: "bit r m" "\<And>i. m < i \<Longrightarrow> \<not> bit r i"
  then have "r \<noteq> 0" by auto
  from high_bit_bound [OF this] m show ?thesis by (metis linorder_neqE_nat)
qed

text \<open>The quotient of a division step.\<close>

lemma gbf_divide_quotient:
  assumes "gbf_divide r h (a, q) = (a', q')" and "16 - h \<le> i"
  shows "bit q' i \<longleftrightarrow> bit q i"
proof -
  have "h \<le> n \<Longrightarrow> n \<le> 16 \<Longrightarrow> foldl (\<lambda>(old_r, quo) b.
        if drop_bit b old_r \<noteq> 0
        then (old_r XOR push_bit (b - h) r, quo OR push_bit (b - h) 1) else (old_r, quo))
      (a, q) (rev [h..<n]) = (a', q') \<Longrightarrow> bit q' i \<longleftrightarrow> bit q i" for n
  proof (induction n arbitrary: a q)
    case 0
    then show ?case by simp
  next
    case (Suc n)
    show ?case
    proof (cases "h = Suc n")
      case True
      then show ?thesis using Suc.prems by simp
    next
      case False
      then have hn: "h \<le> n" using Suc.prems(1) by simp
      have ne: "i \<noteq> n - h" using assms(2) Suc.prems(2) hn by simp
      have "bit (q OR push_bit (n - h) 1) i \<longleftrightarrow> bit q i"
        using ne by (simp only: bit_or_iff bit_exp_iff simp_thms)
      then show ?thesis
        using Suc.IH [OF hn, of a q] Suc.IH [OF hn, of "a XOR push_bit (n - h) r" "q OR push_bit (n - h) 1"] Suc.prems hn
        by (simp split: if_splits)
    qed
  qed
  then show ?thesis using assms by (cases "h \<le> 16") (auto simp: gbf_divide_def)
qed


text \<open>
  While \<open>old_r\<close> has the degree \<open>d > 0\<close>, the coefficient \<open>tt\<close> of \<open>r\<close> has the degree \<open>16 - d\<close>, so that it
  is not zero and, in a field, neither is \<open>r\<close>.
\<close>

definition euclid :: "u16 \<Rightarrow> u16 \<Rightarrow> u16 \<Rightarrow> u16 \<Rightarrow> u16 \<Rightarrow> bool" where
  "euclid r0 r old_r tt old_t \<longleftrightarrow> r = gf_mul GBF_POLYNOME tt r0 \<and> old_r \<noteq> 0 \<and>
     (\<forall>i \<ge> high_bit old_r. \<not> bit r i) \<and>
     (let e = 16 - high_bit old_r in
      0 < high_bit old_r \<longrightarrow> bit tt e \<and> (\<forall>i > e. \<not> bit tt i) \<and> (\<forall>i \<ge> e. \<not> bit old_t i))"

lemma high_bit_0: "r \<noteq> 0 \<Longrightarrow> high_bit r = 0 \<Longrightarrow> r = 1"
  using high_bit_bound [of r] by (intro bit_word_eqI) (auto simp: bit_1_iff)

lemma quotient_degree:
  assumes r: "r \<noteq> 0" and hr: "high_bit r < high_bit a" and a: "a \<noteq> 0" and d: "gbf_divide r (high_bit r) (a, 0) = (rem, quo)"
  shows "bit quo (high_bit a - high_bit r)" and "\<And>i. high_bit a - high_bit r < i \<Longrightarrow> \<not> bit quo i"
proof -
  let ?h = "high_bit r"
  note c = gbf_divide_correct [OF r _ d]
  have eq: "a = rem XOR gf_mul GBF_POLYNOME quo r" using c(1) [of GBF_POLYNOME] by simp
  have rem: "\<not> bit rem i" if "?h \<le> i" for i using c(2) that by simp
  have "quo \<noteq> 0"
  proof
    assume "quo = 0"
    then have "a = rem" using eq by simp
    then show False using rem [of "high_bit a"] high_bit_bound(1) [OF a] hr by simp
  qed
  note q = high_bit_bound [OF this]
  have "\<not> 16 - ?h \<le> high_bit quo" using gbf_divide_quotient [OF d] q(1) by auto
  then have e: "?h + high_bit quo < 16" by simp
  have "bit (gf_mul GBF_POLYNOME quo r) (?h + high_bit quo)"
    using gf_mul_degree [OF high_bit_bound(3) [OF r] high_bit_bound(1) [OF r] q(3,1) e] .
  moreover have "\<not> bit (gf_mul GBF_POLYNOME quo r) i" if "?h + high_bit quo < i" for i
    by (rule gf_mul_degree_bound [where m = ?h and n = "Suc (high_bit quo)"]) (use e q(3) high_bit_bound(3) [OF r] that in auto)
  ultimately have "high_bit a = ?h + high_bit quo"
    using rem by (intro high_bit_eqI) (simp_all add: eq bit_xor_iff)
  then have h: "high_bit quo = high_bit a - ?h" by simp
  show "bit quo (high_bit a - ?h)" using q(1) h by simp
  show "\<not> bit quo i" if "high_bit a - ?h < i" for i using q(3) [of i] h that by simp
qed

lemma euclid_step:
  assumes e: "euclid r0 r old_r tt old_t" and r0: "r0 \<noteq> 0" and r: "r \<noteq> 0"
    and d: "gbf_divide r (high_bit r) (old_r, 0) = (rem, quo)"
    and old: "old_r = gf_mul GBF_POLYNOME old_t r0"
  shows "euclid r0 rem r (old_t XOR gf_mul GBF_POLYNOME quo tt) tt"
proof -
  let ?h = "high_bit r" and ?d = "high_bit old_r"
  have o: "old_r \<noteq> 0" and rt: "r = gf_mul GBF_POLYNOME tt r0" using e by (simp_all add: euclid_def)
  have hd: "?h < ?d" using e high_bit_bound(1) [OF r] not_less unfolding euclid_def by blast
  then have tt: "bit tt (16 - ?d)" "\<And>i. 16 - ?d < i \<Longrightarrow> \<not> bit tt i" "\<And>i. 16 - ?d \<le> i \<Longrightarrow> \<not> bit old_t i"
    using e by (auto simp: euclid_def Let_def)
  note c = gbf_divide_correct [OF r _ d]
  have "rem XOR gf_mul GBF_POLYNOME quo r = old_r" using c(1) [of GBF_POLYNOME] by simp
  then have rem: "rem = old_r XOR gf_mul GBF_POLYNOME quo r" by (metis xor.assoc xor.right_neutral xor_self_eq)
  have 1: "rem = gf_mul GBF_POLYNOME (old_t XOR gf_mul GBF_POLYNOME quo tt) r0"
    using rem rt old by (simp add: gf_mul_xor_left gf_mul_assoc)
  note q = quotient_degree [OF r hd o d]
  have d16: "?d < 16" by (rule high_bit_bound(2) [OF o])
  have 2: "bit (old_t XOR gf_mul GBF_POLYNOME quo tt) (16 - ?h) \<and> (\<forall>i > 16 - ?h. \<not> bit (old_t XOR gf_mul GBF_POLYNOME quo tt) i) \<and>
      (\<forall>i \<ge> 16 - ?h. \<not> bit tt i)" if h: "0 < ?h"
  proof -
    have s: "16 - ?d + (?d - ?h) = 16 - ?h" using hd d16 by simp
    have "bit (gf_mul GBF_POLYNOME quo tt) (16 - ?d + (?d - ?h))"
      using gf_mul_degree [OF tt(2,1) q(2,1)] s h by simp
    moreover have "\<not> bit (gf_mul GBF_POLYNOME quo tt) i" if "16 - ?h < i" for i
      by (rule gf_mul_degree_bound [where m = "16 - ?d" and n = "Suc (?d - ?h)"]) (use tt(2) q(2) that s h in auto)
    moreover have "\<not> bit old_t i" if "16 - ?h \<le> i" for i using tt(3) that hd by simp
    moreover have "\<not> bit tt i" if "16 - ?h \<le> i" for i using tt(2) that hd d16 by simp
    ultimately show ?thesis using s by (simp add: bit_xor_iff)
  qed
  show ?thesis
    unfolding euclid_def Let_def using 1 2 r c(2) by simp
qed

lemma gbf_inv_loop_one:
  assumes "euclid r0 r old_r tt old_t" and "r0 \<noteq> 0" and "old_r = gf_mul GBF_POLYNOME old_t r0"
    and "\<And>i. n \<le> i \<Longrightarrow> \<not> bit r i"
  shows "\<exists>u v. gbf_inv_loop (gbf_init GBF_POLYNOME) n r old_r tt old_t = Some (1, u, v)"
  using assms
proof (induction n arbitrary: r old_r tt old_t)
  case 0
  have one: "old_r = 1" if "r = 0"
  proof (rule high_bit_0)
    show "old_r \<noteq> 0" using 0 by (simp add: euclid_def)
    show "high_bit old_r = 0"
    proof (rule ccontr)
      assume "high_bit old_r \<noteq> 0"
      then have "tt \<noteq> 0" using 0(1) by (auto simp: euclid_def Let_def)
      then show False using gf_mul_nonzero [OF _ 0(2), of tt] 0(1) that by (simp add: euclid_def)
    qed
  qed
  have "r = 0" using 0(4) by (simp add: bit_eq_iff)
  then show ?case using one by simp
next
  case (Suc n)
  show ?case
  proof (cases "r = 0")
    case True
    have "high_bit old_r = 0"
    proof (rule ccontr)
      assume "high_bit old_r \<noteq> 0"
      then have "tt \<noteq> 0" using Suc.prems(1) by (auto simp: euclid_def Let_def)
      then show False using gf_mul_nonzero [OF _ Suc.prems(2), of tt] Suc.prems(1) True by (simp add: euclid_def)
    qed
    then have "old_r = 1" using Suc.prems(1) by (intro high_bit_0) (simp_all add: euclid_def)
    then show ?thesis using True by simp
  next
    case False
    obtain rem quo where d: "gbf_divide r (high_bit r) (old_r, 0) = (rem, quo)" by fastforce
    note c = gbf_divide_correct [OF False _ d]
    have bits: "\<not> bit rem i" if "n \<le> i" for i
    proof -
      have "high_bit r < Suc n" using high_bit_bound(1) [OF False] Suc.prems(4) not_less by blast
      then show ?thesis using c(2) [of i] that by simp
    qed
    have "r = gf_mul GBF_POLYNOME tt r0" using Suc.prems(1) by (simp add: euclid_def)
    from Suc.IH [OF euclid_step [OF Suc.prems(1,2) False d Suc.prems(3)] Suc.prems(2) this bits]
    show ?thesis using False d by (simp add: gbf_mul_is_gf_mul)
  qed
qed


theorem gbf_inv_total:
  assumes r: "r \<noteq> 0"
  shows "gbf_inv (gbf_init GBF_POLYNOME) r \<noteq> None"
proof (cases "r = 1")
  case True
  then show ?thesis by (simp add: gbf_inv_def)
next
  case False
  let ?h = "high_bit r"
  obtain rem quo where d: "gbf_divide r ?h (GBF_POLYNOME XOR push_bit (16 - ?h) r, push_bit (16 - ?h) 1) = (rem, quo)"
    and rem: "rem = gf_mul GBF_POLYNOME quo r" and h: "0 < ?h"
    and i: "gbf_inv (gbf_init GBF_POLYNOME) r = (case gbf_inv_loop (gbf_init GBF_POLYNOME) 16 rem r quo 1 of
       None \<Rightarrow> None | Some (old_r, tt, old_t) \<Rightarrow> if old_r = 1 then Some (tt XOR old_t) else None)"
    by (rule gbf_inv_start [OF r False])
  have q: "\<not> bit (push_bit (16 - ?h) 1 :: u16) i" if "i < 16 - ?h" for i
    using that by (simp only: bit_exp_iff) simp
  have quo: "bit quo i \<longleftrightarrow> i = 16 - ?h" if "16 - ?h \<le> i" for i
    using gbf_divide_quotient [OF d that] h by (simp only: bit_exp_iff) simp
  have b: "\<not> bit rem i" if "?h \<le> i" for i
    by (rule gbf_divide_correct(2) [OF r _ d that]) (rule q)
  have "euclid r rem r quo 1"
    unfolding euclid_def Let_def using rem r b quo high_bit_bound(2) [OF r] by (auto simp: bit_1_iff)
  then obtain u v where "gbf_inv_loop (gbf_init GBF_POLYNOME) 16 rem r quo 1 = Some (1, u, v)"
    using gbf_inv_loop_one [of r rem r quo 1 16] r b high_bit_bound(2) [OF r] by (auto simp: gf_mul_1_left)
  then show ?thesis using i by simp
qed

text \<open>Both inversions compute the inverse.\<close>

theorem gbf_inv_phi_correct: "r \<noteq> 0 \<Longrightarrow> gbf_inv (gbf_init GBF_POLYNOME) r = gbf_inv_phi (gbf_init GBF_POLYNOME) r"
proof -
  assume r: "r \<noteq> 0"
  obtain v where v: "gbf_inv (gbf_init GBF_POLYNOME) r = Some v" using gbf_inv_total [OF r] by blast
  have "unat (- 2 :: u16) = 65534" by simp
  then have p: "gbf_inv_phi (gbf_init GBF_POLYNOME) r = Some (gf_pow GBF_POLYNOME r 65534)"
    using r by (simp add: gbf_inv_phi_def gbf_pwr_def gbf_pwr_loop_correct gf_mul_1_left)
  have "gf_mul GBF_POLYNOME (gf_pow GBF_POLYNOME r 65534) r = gf_pow GBF_POLYNOME r (Suc 65534)"
    by (simp only: gf_pow.simps gf_mul_commute)
  then have "gf_mul GBF_POLYNOME (gf_pow GBF_POLYNOME r 65534) r = 1" using gf_pow_order [OF r] by simp
  then show ?thesis using v p inverse_unique gbf_inv_correct [OF v] by metis
qed


section \<open>Every pivot of the decoding matrix is invertible\<close>

text \<open>The product of the factors \<open>v XOR a\<close>, and the polynomial with the zeros \<open>vs\<close>.\<close>

fun factors :: "u16 \<Rightarrow> u16 list \<Rightarrow> u16 \<Rightarrow> u16" where
  "factors poly [] v = 1"
| "factors poly (a # vs) v = gf_mul poly (v XOR a) (factors poly vs v)"

lemma factors_nonzero: "v \<notin> set vs \<Longrightarrow> factors GBF_POLYNOME vs v \<noteq> 0"
  by (induction vs) (simp_all add: gf_mul_nonzero xor_eq_0)

lemma factors_zero: "v \<in> set vs \<Longrightarrow> factors poly vs v = 0"
  by (induction vs) auto

lemma gf_sum_0 [simp]: "gf_sum (\<lambda>k. 0) n = 0"
  by (induction n) simp_all

lemma poly_value_shift:
  assumes "\<And>k. m < k \<Longrightarrow> c k = 0" and "Suc m < n"
  shows "poly_value poly (\<lambda>k. if k = 0 then 0 else c (k - 1)) n v = gf_mul poly v (poly_value poly c n v)"
proof -
  obtain n' where n: "n = Suc n'" using assms(2) by (cases n) simp_all
  have "poly_value poly (\<lambda>k. if k = 0 then 0 else c (k - 1)) n v
      = gf_sum (\<lambda>k. gf_mul poly v (gf_mul poly (c k) (gf_pow poly v k))) n'"
    unfolding poly_value_def n gf_sum_first
    by (simp, rule gf_sum_cong) (metis gf_mul_assoc gf_mul_commute)
  also have "\<dots> = gf_mul poly v (poly_value poly c n v)"
    using assms by (simp add: gf_sum_mul poly_value_def n)
  finally show ?thesis .
qed

lemma factors_poly:
  "length vs < n \<Longrightarrow> \<exists>c. c (length vs) = 1 \<and> (\<forall>k > length vs. c k = 0) \<and> (\<forall>v. poly_value poly c n v = factors poly vs v)"
proof (induction vs)
  case Nil
  have "poly_value poly (\<lambda>k. if k = 0 then 1 else 0) n v = 1" for v
    using Nil by (cases n) (simp_all add: poly_value_def gf_sum_first del: gf_sum.simps)
  then show ?case by (intro exI [of _ "\<lambda>k. if k = 0 then 1 else 0"]) simp
next
  case (Cons a vs)
  then obtain c where c: "c (length vs) = 1" "\<And>k. length vs < k \<Longrightarrow> c k = 0"
    "\<And>v. poly_value poly c n v = factors poly vs v" by auto
  let ?c = "\<lambda>k. (if k = 0 then 0 else c (k - 1)) XOR gf_mul poly a (c k)"
  have "poly_value poly ?c n v = factors poly (a # vs) v" for v
  proof -
    have "poly_value poly ?c n v = poly_value poly (\<lambda>k. if k = 0 then 0 else c (k - 1)) n v XOR gf_mul poly a (poly_value poly c n v)"
      unfolding poly_value_def by (simp only: gf_mul_xor_left gf_sum_xor gf_mul_assoc gf_sum_mul)
    also have "\<dots> = gf_mul poly (v XOR a) (poly_value poly c n v)"
      using poly_value_shift [of "length vs" c n poly v] c(2) Cons.prems by (simp add: gf_mul_xor_left)
    finally show ?thesis by (simp add: c(3))
  qed
  then show ?case using c(1,2) by (intro exI [of _ ?c]) auto
qed

definition vandermonde :: "u16 \<Rightarrow> u16 list \<Rightarrow> nat \<Rightarrow> u16 list" where
  "vandermonde poly vec n = concat (map (\<lambda>i. gbf_powers (gbf_init poly) (vec ! i) n) [0..<n])"

lemma vandermonde_rows: "0 < n \<Longrightarrow> vandermonde poly vec n = concat (map (\<lambda>i. map (\<lambda>j. gf_pow poly (vec ! i) j) [0..<n]) [0..<n])"
  unfolding vandermonde_def using gbf_powers_nth
  by (intro arg_cong [of _ _ concat] map_cong refl nth_equalityI) auto

lemma length_vandermonde: "0 < n \<Longrightarrow> length (vandermonde poly vec n) = n * n"
  by (simp add: vandermonde_rows length_concat comp_def sum_list_triv)

lemma vandermonde_solves: "0 < n \<Longrightarrow> solves poly n (vandermonde poly vec n) c (\<lambda>r. poly_value poly c n (vec ! r))"
  unfolding solves_def
proof (intro allI impI)
  fix r assume n: "0 < n" and r: "r < n"
  show "poly_value poly c n (vec ! r) = row_value poly n (vandermonde poly vec n) r c"
    unfolding row_value_def poly_value_def vandermonde_rows [OF n]
  proof (rule gf_sum_cong)
    fix k assume "k < n"
    then show "gf_mul poly (c k) (gf_pow poly (vec ! r) k) =
        gf_mul poly (concat (map (\<lambda>i. map (\<lambda>j. gf_pow poly (vec ! i) j) [0..<n]) [0..<n]) ! (r * n + k)) (c k)"
      using nth_concat_rows [OF r, of k n "\<lambda>i j. gf_pow poly (vec ! i) j"] by (simp only: gf_mul_commute)
  qed
qed

lemma vandermonde_pivot:
  assumes "0 < n" and vec: "length vec = n" "distinct vec" and m: "m < n"
    and f: "foldl (\<lambda>m i. Option.bind m (invmatrix_round (gbf_init GBF_POLYNOME) n i)) (Some (vandermonde GBF_POLYNOME vec n)) [0..<m] = Some m'"
  shows "m' ! (m * n) \<noteq> 0"
proof -
  have "length (take m vec) < n" using vec(1) m by simp
  from factors_poly [OF this, of GBF_POLYNOME] obtain c where c: "c m = 1" "\<And>k. m < k \<Longrightarrow> c k = 0"
    and val: "\<And>v. poly_value GBF_POLYNOME c n v = factors GBF_POLYNOME (take m vec) v"
    using vec(1) m by auto
  let ?y = "\<lambda>r. poly_value GBF_POLYNOME c n (vec ! r)"
  have y0: "?y r = 0" if "r < m" for r
    unfolding val by (rule factors_zero) (use that m vec(1) in \<open>auto simp: in_set_conv_nth intro!: exI [of _ r]\<close>)
  have "vec ! m \<notin> set (take m vec)"
    using vec m by (auto simp: in_set_conv_nth nth_eq_iff_index_eq)
  then have ym: "?y m \<noteq> 0" unfolding val by (rule factors_nonzero)
  have sol: "solves GBF_POLYNOME n m' (\<lambda>k. if k + m < n then c (k + m) else ?y (k + m - n)) (\<lambda>r. if r < m then c r else ?y r)"
    using invmatrix_solves [OF length_vandermonde vandermonde_solves, OF assms(1,1) _ f] m by simp
  have "?y m = row_value GBF_POLYNOME n m' m (\<lambda>k. if k + m < n then c (k + m) else ?y (k + m - n))"
    using sol [unfolded solves_def, rule_format, OF m] by simp
  also have "\<dots> = gf_sum (\<lambda>k. if k = 0 then m' ! (m * n) else 0) n"
    unfolding row_value_def
  proof (rule gf_sum_cong)
    fix k assume k: "k < n"
    show "gf_mul GBF_POLYNOME (m' ! (m * n + k)) (if k + m < n then c (k + m) else ?y (k + m - n))
        = (if k = 0 then m' ! (m * n) else 0)"
      using c y0 [of "k + m - n"] k m by (cases "k = 0") simp_all
  qed
  also have "\<dots> = m' ! (m * n)"
  proof -
    obtain n' where "n = Suc n'" using assms(1) by (cases n) simp_all
    then show ?thesis by (simp only: gf_sum_first) simp
  qed
  finally show ?thesis using ym by simp
qed

lemma vandermonde_invertible:
  assumes "0 < n" and "length vec = n" and "distinct vec"
  shows "gbf_invmatrix (gbf_init GBF_POLYNOME) (vandermonde GBF_POLYNOME vec n) n \<noteq> None"
proof -
  have "m \<le> n \<Longrightarrow> foldl (\<lambda>m i. Option.bind m (invmatrix_round (gbf_init GBF_POLYNOME) n i)) (Some (vandermonde GBF_POLYNOME vec n)) [0..<m] \<noteq> None" for m
  proof (induction m)
    case 0
    then show ?case by simp
  next
    case (Suc m)
    then obtain m' where m': "foldl (\<lambda>m i. Option.bind m (invmatrix_round (gbf_init GBF_POLYNOME) n i)) (Some (vandermonde GBF_POLYNOME vec n)) [0..<m] = Some m'"
      by auto
    have "gbf_inv (gbf_init GBF_POLYNOME) (m' ! (m * n)) \<noteq> None"
      by (rule gbf_inv_total) (use vandermonde_pivot [OF assms _ m'] Suc.prems in simp)
    then have "invmatrix_round (gbf_init GBF_POLYNOME) n m m' \<noteq> None" by (auto simp: invmatrix_round_def)
    then show ?case using m' by simp
  qed
  then show ?thesis unfolding gbf_invmatrix_def by blast
qed

theorem gbf_decode_encode_total:
  assumes n: "0 < n" and vec: "length vec = n" "distinct vec" "0 \<notin> set vec" and orig: "length orig = n * sz"
    and mem: "mem \<or> 2 * n \<le> MAX_STACK_ALLOC" "mem' \<or> 2 * n * n \<le> MAX_STACK_ALLOC"
    and small: "n * n < 2 ^ 31" "n * sz < 2 ^ 31"
  shows "\<exists>frags. map (\<lambda>v. gbf_encode_one (gbf_init GBF_POLYNOME) mem orig v n sz) vec = map Some frags \<and>
     gbf_decode (gbf_init GBF_POLYNOME) mem' (concat frags) vec n sz = Some orig"
proof -
  have "gbf_encode_one (gbf_init GBF_POLYNOME) mem orig v n sz \<noteq> None" if "v \<in> set vec" for v
    using that vec(3) mem(1) n orig by (auto simp: gbf_encode_one_def Let_def)
  then have enc: "map (\<lambda>v. gbf_encode_one (gbf_init GBF_POLYNOME) mem orig v n sz) vec
      = map Some (map (\<lambda>v. the (gbf_encode_one (gbf_init GBF_POLYNOME) mem orig v n sz)) vec)" (is "_ = map Some ?frags")
    by auto
  have "length frag = sz" if "frag \<in> set ?frags" for frag
    using that vec(3) mem(1) n orig by (auto simp: gbf_encode_one_def Let_def)
  then have "map length ?frags = map (\<lambda>_. sz) ?frags" by (rule map_cong [OF refl])
  then have l: "length (concat ?frags) = n * sz"
    unfolding length_concat by (simp add: vec(1) comp_def map_replicate_const sum_list_replicate)
  have "gbf_decode (gbf_init GBF_POLYNOME) mem' (concat ?frags) vec n sz \<noteq> None"
    using vandermonde_invertible [OF n vec(1,2)] mem(2) small
    unfolding gbf_decode_def l vandermonde_def by (auto simp: vec(1) split: option.splits)
  then obtain out where "gbf_decode (gbf_init GBF_POLYNOME) mem' (concat ?frags) vec n sz = Some out" by blast
  then show ?thesis using gbf_decode_encode [OF n vec(1) orig enc] enc by blast
qed

section \<open>Properties\<close>

text \<open>C3: a message encoded into fragments with distinct nonzero vectors is decoded: the encoder and the
  decoder both return, and the decoder returns the original message, for any number and size of
  fragments for which the work arrays can be allocated and indexed with an \<open>int\<close>.\<close>

theorem encoded_message_is_decoded:
  assumes "0 < num_frag" and "length vec = num_frag" and "distinct vec" and "0 \<notin> set vec"
    and "length orig = num_frag * sz"
    and "mem \<or> 2 * num_frag \<le> MAX_STACK_ALLOC" and "mem' \<or> 2 * num_frag * num_frag \<le> MAX_STACK_ALLOC"
    and "num_frag * num_frag < 2 ^ 31" and "num_frag * sz < 2 ^ 31"
  shows "\<exists>frags. map (\<lambda>v. gbf_encode_one (gbf_init GBF_POLYNOME) mem orig v num_frag sz) vec = map Some frags \<and>
     gbf_decode (gbf_init GBF_POLYNOME) mem' (concat frags) vec num_frag sz = Some orig"
  using assms by (rule gbf_decode_encode_total)

theorem encoded_message_is_decoded_witness:
  "\<exists>frags. map (\<lambda>v. gbf_encode_one (gbf_init GBF_POLYNOME) False [10, 20, 30, 40, 50, 60] v 3 2) [7, 1, 65535] = map Some frags \<and>
     gbf_decode (gbf_init GBF_POLYNOME) False (concat frags) [7, 1, 65535] 3 2 = Some [10, 20, 30, 40, 50, 60]"
  by (rule encoded_message_is_decoded) (simp_all add: MAX_STACK_ALLOC_def)

text \<open>C30: for every nonzero element both inversion algorithms, extended Euclid and exponentiation, return, they
  return the same value, and it is the multiplicative inverse.\<close>

theorem inversion_algorithms_agree:
  assumes "r \<noteq> 0"
  shows "\<exists>v. gbf_inv (gbf_init GBF_POLYNOME) r = Some v \<and> gbf_inv_phi (gbf_init GBF_POLYNOME) r = Some v \<and>
     gbf_mul (gbf_init GBF_POLYNOME) v r = 1"
proof -
  obtain v where "gbf_inv (gbf_init GBF_POLYNOME) r = Some v" using gbf_inv_total [OF assms] by blast
  then show ?thesis using gbf_inv_phi_correct [OF assms] gbf_inv_correct [of _ r v] by (auto simp: gbf_mul_is_gf_mul)
qed

theorem inversion_algorithms_agree_witness:
  "\<exists>v. gbf_inv (gbf_init GBF_POLYNOME) 0x1234 = Some v \<and> gbf_inv_phi (gbf_init GBF_POLYNOME) 0x1234 = Some v \<and>
     gbf_mul (gbf_init GBF_POLYNOME) v 0x1234 = 1"
  by (rule inversion_algorithms_agree) simp

text \<open>C31: for any polynomial, the table-driven multiplication on blocks of four bits equals the product of the
  two polynomials reduced bit by bit, and it is associative, commutative and distributes over XOR.\<close>

theorem table_multiplication_is_polynomial_product:
  "gbf_mul (gbf_init poly) a b = horner poly a (map (bit b) [0..<16]) \<and>
   gbf_mul (gbf_init poly) (gbf_mul (gbf_init poly) a b) c = gbf_mul (gbf_init poly) a (gbf_mul (gbf_init poly) b c) \<and>
   gbf_mul (gbf_init poly) a b = gbf_mul (gbf_init poly) b a \<and>
   gbf_mul (gbf_init poly) (a XOR b) c = gbf_mul (gbf_init poly) a c XOR gbf_mul (gbf_init poly) b c"
  unfolding gbf_mul_is_gf_mul
  by (intro conjI gf_mul_assoc gf_mul_commute gf_mul_xor_left gf_mul_def [unfolded word_bits_def])

end
