(* ===== verification/Badge_World.thy ===== *)
theory Badge_World
  imports Badge_Prelude "HOL-Library.Monad_Syntax"
begin

text \<open>
  The world the drivers of components/badge run in.  What is not in the repository (ESP-IDF,
  FreeRTOS, the hardware) answers calls: every call is recorded in \<open>trace\<close>, newest first, and
  its answer, a return value and the bytes it delivers, is an arbitrary function \<open>env\<close> of the
  history.  \<open>config\<close> is the set of macros of \<open>sdkconfig.h\<close> and \<open>badge_pins.h\<close> the build defines.
  The other fields are the static variables of the drivers, one record per driver.

  A driver function takes the state and returns a value with the new state; the result is \<open>None\<close>
  where the C code aborts in an \<open>assert\<close> or leaves an array.  Log output is left out.
\<close>

section \<open>Constants of the ESP-IDF\<close>

type_synonym esp_err = int

abbreviation ESP_OK :: esp_err where "ESP_OK \<equiv> 0"
abbreviation ESP_FAIL :: esp_err where "ESP_FAIL \<equiv> - 1"
abbreviation ESP_ERR_NO_MEM :: esp_err where "ESP_ERR_NO_MEM \<equiv> 0x101"
abbreviation ESP_ERR_INVALID_ARG :: esp_err where "ESP_ERR_INVALID_ARG \<equiv> 0x102"
abbreviation ESP_ERR_INVALID_STATE :: esp_err where "ESP_ERR_INVALID_STATE \<equiv> 0x103"
abbreviation ESP_ERR_TIMEOUT :: esp_err where "ESP_ERR_TIMEOUT \<equiv> 0x107"
abbreviation pdTRUE :: int where "pdTRUE \<equiv> 1"
abbreviation portMAX_DELAY :: int where "portMAX_DELAY \<equiv> 0xffffffff"

section \<open>Calls and their answers\<close>

datatype ext_call = Ext (ext_name: string) (ext_args: "int list")

type_synonym environment = "ext_call list \<Rightarrow> int \<times> u8 list"

text \<open>A function pointer: null, a function the application installs, or a function of a driver.\<close>

datatype callback =
    CB_null
  | CB_user int
  | CB_cpt112s_intr        \<comment> \<open>\<open>badge_cpt112s_intr_handler\<close>\<close>
  | CB_cpt112s_event       \<comment> \<open>\<open>cpt112s_event_handler\<close>\<close>
  | CB_mpr121_event        \<comment> \<open>\<open>mpr121_event_handler\<close>\<close>
  | CB_samd_event          \<comment> \<open>\<open>disobey_samd_event_handler\<close>\<close>
  | CB_leds_release        \<comment> \<open>\<open>badge_leds_release_spi\<close>\<close>
  | CB_eink_release        \<comment> \<open>\<open>badge_eink_dev_release_spi\<close>\<close>

datatype badge_eink_dev_t = BADGE_EINK_NONE | BADGE_EINK_GDEH029A1 | BADGE_EINK_DEPG0290B1

section \<open>Static variables\<close>

record input_state =
  badge_input_init_done :: bool
  badge_input_queue :: int
  badge_input_notify :: callback
  badge_input_button_state :: u32

record gpiobutton_state =
  badge_gpiobutton_conv :: "u32 list"
  badge_gpiobutton_old_state :: "int list"

record i2c_state =
  badge_i2c_init_done :: bool
  badge_i2c_mux :: int

record fxl6408_regs =
  io_direction :: u16
  output_state :: u16
  output_high_z :: u16
  input_default_state :: u16
  pull_enable :: u16
  pull_down_up :: u16
  interrupt_mask :: u16

record fxl6408_state =
  badge_fxl6408_init_done :: bool
  badge_fxl6408_mux :: int
  badge_fxl6408_intr_trigger :: int
  badge_fxl6408_state :: fxl6408_regs
  badge_fxl6408_handlers :: "callback list"
  badge_fxl6408_arg :: "int list"

record mpr121_state =
  badge_mpr121_init_done :: bool
  badge_mpr121_mux :: int
  badge_mpr121_intr_trigger :: int
  badge_mpr121_handlers :: "callback list"
  badge_mpr121_arg :: "int list"
  mpr121_gpio_bit_out :: "int list"

record samd_state =
  badge_disobey_samd_init_done :: bool
  badge_disobey_samd_mux :: int
  badge_disobey_samd_intr_trigger :: int
  badge_disobey_samd_handler :: callback

record cpt112s_state =
  badge_cpt112s_init_done :: bool
  badge_cpt112s_handler :: callback

record power_state =
  badge_power_init_done :: bool
  badge_power_leds_sdcard :: int

record leds_state =
  badge_leds_init_done :: bool
  badge_leds_spi :: int
  badge_leds_active :: bool
  badge_leds_buf :: "u8 list option"
  badge_leds_buf_len :: int

record eink_dev_state =
  badge_eink_dev_init_done :: bool
  badge_eink_dev_type :: badge_eink_dev_t
  spi_bus :: int
  badge_eink_dev_intr_trigger :: int

record eink_state =
  badge_eink_init_done :: bool
  badge_eink_tmpbuf :: "u32 list option"
  badge_eink_oldbuf :: "u32 list option"
  badge_eink_have_oldbuf :: bool

record erc_state =
  badge_erc12864_init_done :: bool
  flip :: bool

text \<open>graphics.c and the uGFX glue; \<open>wifi_event_group\<close> of badge_ota.c; \<open>next_line\<close> of \<open>disp_line\<close>.\<close>

record gfx_state =
  title :: "u8 list"
  fontTitle :: int
  fontStatus :: int
  fontPercentage :: int
  target_lut :: u8
  ugfx_screen_flipped :: bool

record fw =
  trace :: "ext_call list"
  env :: environment
  config :: "string \<rightharpoonup> int"
  badge_init_done :: bool
  badge_base_init_done :: bool
  badge_nvs_init_done :: bool
  badge_vibrator_init_done :: bool
  badge_sdcard_init_done :: bool
  badge_vspi_release :: callback
  badge_fb :: "u8 list option"
  inp :: input_state
  gpb :: gpiobutton_state
  i2c :: i2c_state
  fxl :: fxl6408_state
  mpr :: mpr121_state
  samd :: samd_state
  cpt :: cpt112s_state
  pwr :: power_state
  leds :: leds_state
  edev :: eink_dev_state
  eink :: eink_state
  erc :: erc_state
  gfx :: gfx_state
  wifi_event_group :: int
  next_line :: nat

text \<open>The values after a reset.\<close>

definition power_on :: "environment \<Rightarrow> (string \<rightharpoonup> int) \<Rightarrow> fw" where
  "power_on e c =
     \<lparr>trace = [], env = e, config = c, badge_init_done = False, badge_base_init_done = False,
      badge_nvs_init_done = False, badge_vibrator_init_done = False, badge_sdcard_init_done = False,
      badge_vspi_release = CB_null, badge_fb = None,
      inp = \<lparr>badge_input_init_done = False, badge_input_queue = 0, badge_input_notify = CB_null, badge_input_button_state = 0\<rparr>,
      gpb = \<lparr>badge_gpiobutton_conv = replicate 40 0, badge_gpiobutton_old_state = replicate 40 0\<rparr>,
      i2c = \<lparr>badge_i2c_init_done = False, badge_i2c_mux = 0\<rparr>,
      fxl = \<lparr>badge_fxl6408_init_done = False, badge_fxl6408_mux = 0, badge_fxl6408_intr_trigger = 0,
        badge_fxl6408_state = \<lparr>io_direction = 0, output_state = 0, output_high_z = 0, input_default_state = 0,
          pull_enable = 0, pull_down_up = 0, interrupt_mask = 0\<rparr>,
        badge_fxl6408_handlers = replicate 8 CB_null, badge_fxl6408_arg = replicate 8 0\<rparr>,
      mpr = \<lparr>badge_mpr121_init_done = False, badge_mpr121_mux = 0, badge_mpr121_intr_trigger = 0,
        badge_mpr121_handlers = replicate 12 CB_null, badge_mpr121_arg = replicate 12 0, mpr121_gpio_bit_out = replicate 8 (-1)\<rparr>,
      samd = \<lparr>badge_disobey_samd_init_done = False, badge_disobey_samd_mux = 0, badge_disobey_samd_intr_trigger = 0,
        badge_disobey_samd_handler = CB_null\<rparr>,
      cpt = \<lparr>badge_cpt112s_init_done = False, badge_cpt112s_handler = CB_null\<rparr>,
      pwr = \<lparr>badge_power_init_done = False, badge_power_leds_sdcard = 0\<rparr>,
      leds = \<lparr>badge_leds_init_done = False, badge_leds_spi = 0, badge_leds_active = False, badge_leds_buf = None,
        badge_leds_buf_len = 0\<rparr>,
      edev = \<lparr>badge_eink_dev_init_done = False,
        badge_eink_dev_type =
          (if c ''CONFIG_SHA_BADGE_EINK_DEF_DEPG0290B1'' \<noteq> None then BADGE_EINK_DEPG0290B1
           else if c ''CONFIG_SHA_BADGE_EINK_DEF_GDEH029A1'' \<noteq> None then BADGE_EINK_GDEH029A1 else BADGE_EINK_NONE),
        spi_bus = 0, badge_eink_dev_intr_trigger = 0\<rparr>,
      eink = \<lparr>badge_eink_init_done = False, badge_eink_tmpbuf = None, badge_eink_oldbuf = None, badge_eink_have_oldbuf = False\<rparr>,
      erc = \<lparr>badge_erc12864_init_done = False, flip = (case c ''ERC12864_FLIP'' of Some v \<Rightarrow> v \<noteq> 0 | None \<Rightarrow> False)\<rparr>,
      gfx = \<lparr>title = replicate 64 0, fontTitle = 0, fontStatus = 0, fontPercentage = 0, target_lut = 0, ugfx_screen_flipped = False\<rparr>,
      wifi_event_group = 0, next_line = 0\<rparr>"

section \<open>Calling the environment\<close>

definition ext_bytes :: "string \<Rightarrow> int list \<Rightarrow> fw \<Rightarrow> (int \<times> u8 list) \<times> fw" where
  "ext_bytes f args s = (let tr = Ext f args # trace s in (env s tr, s\<lparr>trace := tr\<rparr>))"

definition ext :: "string \<Rightarrow> int list \<Rightarrow> fw \<Rightarrow> int \<times> fw" where
  "ext f args s = (let tr = Ext f args # trace s in (fst (env s tr), s\<lparr>trace := tr\<rparr>))"

text \<open>A string argument of a call.\<close>

definition str_arg :: "string \<Rightarrow> int list" where
  "str_arg x = map of_char x @ [0]"

text \<open>\<open>res = f(args); assert(res == ESP_OK);\<close>\<close>

definition checked :: "string \<Rightarrow> int list \<Rightarrow> fw \<Rightarrow> fw option" where
  "checked f args s = (let (r, s) = ext f args s in if r = ESP_OK then Some s else None)"

definition defined_in :: "fw \<Rightarrow> string \<Rightarrow> bool" where
  "defined_in s x = (config s x \<noteq> None)"

definition macro :: "fw \<Rightarrow> string \<Rightarrow> int" where
  "macro s x = (case config s x of Some v \<Rightarrow> v | None \<Rightarrow> 0)"

text \<open>An environment in which every call succeeds, for the examples.\<close>

definition calm :: environment where
  "calm tr = (case tr of
     [] \<Rightarrow> (0, [])
   | Ext f args # _ \<Rightarrow>
       (if f \<in> {''xSemaphoreTake'', ''xSemaphoreGive'', ''xSemaphoreCreateMutex'', ''xSemaphoreCreateBinary'', ''xQueueCreate'',
          ''xQueueSend'', ''malloc'', ''heap_caps_malloc''} then 1 else 0, []))"

section \<open>Partial correctness of driver functions\<close>

text \<open>\<open>Q\<close> holds of the value and the state whenever the call returns.\<close>

definition wlp :: "('a \<times> 's) option \<Rightarrow> ('a \<Rightarrow> 's \<Rightarrow> bool) \<Rightarrow> bool" where
  "wlp m Q = (case m of None \<Rightarrow> True | Some (a, s) \<Rightarrow> Q a s)"

lemma wlp_simps [simp]: "wlp None Q" "wlp (Some (a, s)) Q = Q a s"
  by (simp_all add: wlp_def)

lemma wlp_bind [simp]: "wlp (Option.bind m (\<lambda>(a, s). f a s)) Q = wlp m (\<lambda>a s. wlp (f a s) Q)"
  by (cases m) auto

lemma wlp_bind_state [simp]:
  "wlp (Option.bind m f) Q = (case m of None \<Rightarrow> True | Some s \<Rightarrow> wlp (f s) Q)" for m :: "fw option"
  by (cases m) auto

lemma wlp_if [simp]: "wlp (if b then m else n) Q = (if b then wlp m Q else wlp n Q)"
  by simp

lemma wlp_mono: "wlp m Q \<Longrightarrow> (\<And>a s. Q a s \<Longrightarrow> Q' a s) \<Longrightarrow> wlp m Q'"
  by (cases m) auto

lemma wlp_iff: "wlp m Q \<longleftrightarrow> (\<forall>a s. m = Some (a, s) \<longrightarrow> Q a s)"
  by (cases m) auto

section \<open>What a call leaves alone\<close>

text \<open>Everything but the trace.\<close>

definition same_statics :: "fw \<Rightarrow> fw \<Rightarrow> bool" where
  "same_statics s s' \<longleftrightarrow> (\<exists>tr. s' = s\<lparr>trace := tr\<rparr>)"

lemma same_statics_refl [simp]: "same_statics s s"
  unfolding same_statics_def by (rule exI [of _ "trace s"]) simp

lemma same_statics_trans [trans]: "same_statics s s' \<Longrightarrow> same_statics s' s'' \<Longrightarrow> same_statics s s''"
  unfolding same_statics_def by auto

lemma same_statics_trace [simp]: "same_statics s (s\<lparr>trace := tr\<rparr>)"
  unfolding same_statics_def by auto

lemma same_statics_D:
  assumes "same_statics s s'"
  shows "env s' = env s" "config s' = config s" "badge_init_done s' = badge_init_done s" "badge_base_init_done s' = badge_base_init_done s"
    "badge_nvs_init_done s' = badge_nvs_init_done s" "badge_vibrator_init_done s' = badge_vibrator_init_done s" "badge_sdcard_init_done s' = badge_sdcard_init_done s" "badge_vspi_release s' = badge_vspi_release s"
    "badge_fb s' = badge_fb s" "inp s' = inp s" "gpb s' = gpb s" "i2c s' = i2c s"
    "fxl s' = fxl s" "mpr s' = mpr s" "samd s' = samd s" "cpt s' = cpt s"
    "pwr s' = pwr s" "leds s' = leds s" "edev s' = edev s" "eink s' = eink s"
    "erc s' = erc s" "gfx s' = gfx s" "wifi_event_group s' = wifi_event_group s" "next_line s' = next_line s"
  using assms unfolding same_statics_def by auto

lemma ext_simps [simp]:
  "fst (ext f args s) = fst (env s (Ext f args # trace s))"
  "snd (ext f args s) = s\<lparr>trace := Ext f args # trace s\<rparr>"
  by (simp_all add: ext_def Let_def)

lemma same_statics_ext [simp]: "same_statics s (snd (ext f args s))"
  by simp

lemma same_statics_checked: "checked f args s = Some s' \<Longrightarrow> same_statics s s'"
  by (auto simp: checked_def ext_def Let_def split: if_splits)

end
