(* ===== verification/Badge_Input.thy ===== *)
theory Badge_Input
  imports Badge_World
begin

text \<open>
  components/badge: \<open>badge_base.c\<close> (the interrupt service), \<open>badge_input.c\<close> (the queue of button
  events and the bitmap of pressed buttons) and \<open>badge_gpiobutton.c\<close> (buttons wired to a GPIO).
\<close>

section \<open>badge_base.c\<close>

definition badge_base_init :: "fw \<Rightarrow> esp_err \<times> fw" where
  "badge_base_init s =
     (if badge_base_init_done s then (ESP_OK, s)
      else let (res, s) = ext ''gpio_install_isr_service'' [0] s;
               res = (if res = ESP_FAIL then ESP_OK else res)
           in if res \<noteq> ESP_OK then (res, s) else (ESP_OK, s\<lparr>badge_base_init_done := True\<rparr>))"

section \<open>badge_input.c\<close>

definition badge_input_init :: "fw \<Rightarrow> esp_err \<times> fw" where
  "badge_input_init s =
     (if badge_input_init_done (inp s) then (ESP_OK, s)
      else let (q, s) = ext ''xQueueCreate'' [10, 4] s;
               s = s\<lparr>inp := (inp s)\<lparr>badge_input_queue := q\<rparr>\<rparr>
           in if q = 0 then (ESP_ERR_NO_MEM, s)
              else (ESP_OK, s\<lparr>inp := (inp s)\<lparr>badge_input_init_done := True\<rparr>\<rparr>))"

definition badge_input_add_event :: "u32 \<Rightarrow> bool \<Rightarrow> bool \<Rightarrow> fw \<Rightarrow> fw" where
  "badge_input_add_event button_id pressed in_isr s =
     (let bit = push_bit (unat button_id) 1;
          s = (if pressed
               then let s = s\<lparr>inp := (inp s)\<lparr>badge_input_button_state := badge_input_button_state (inp s) OR bit\<rparr>\<rparr>
                    in snd (ext (if in_isr then ''xQueueSendFromISR'' else ''xQueueSend'')
                         [badge_input_queue (inp s), uint button_id] s)
               else s\<lparr>inp := (inp s)\<lparr>badge_input_button_state := badge_input_button_state (inp s) AND NOT bit\<rparr>\<rparr>)
      in case badge_input_notify (inp s) of
           CB_null \<Rightarrow> s
         | CB_user f \<Rightarrow> snd (ext ''callback'' [f] s)
         | _ \<Rightarrow> s)"

definition badge_input_get_event :: "int \<Rightarrow> fw \<Rightarrow> u32 \<times> fw" where
  "badge_input_get_event timeout s =
     (let xqueuetimeout = (if timeout = -1 then portMAX_DELAY else timeout div macro s ''portTICK_RATE_MS'');
          ((r, bs), s) = ext_bytes ''xQueueReceive'' [badge_input_queue (inp s), xqueuetimeout] s
      in if r \<noteq> 0 then (of_nat (le_bytes (take 4 bs)), s) else (0, s))"

section \<open>badge_gpiobutton.c\<close>

definition badge_gpiobutton_handler :: "nat \<Rightarrow> fw \<Rightarrow> fw option" where
  "badge_gpiobutton_handler gpio_num s =
     (let (new_state, s) = ext ''gpio_get_level'' [int gpio_num] s in
      do {
        old \<leftarrow> nth_opt (badge_gpiobutton_old_state (gpb s)) gpio_num;
        button_id \<leftarrow> nth_opt (badge_gpiobutton_conv (gpb s)) gpio_num;
        let s = (if new_state \<noteq> old then badge_input_add_event button_id (new_state = 0) True s else s);
        Some (s\<lparr>gpb := (gpb s)\<lparr>badge_gpiobutton_old_state := (badge_gpiobutton_old_state (gpb s))[gpio_num := new_state]\<rparr>\<rparr>)
      })"

definition badge_gpiobutton_add :: "nat \<Rightarrow> u32 \<Rightarrow> fw \<Rightarrow> (esp_err \<times> fw) option" where
  "badge_gpiobutton_add gpio_num button_id s =
     (let (res, s) = badge_base_init s in
      if res \<noteq> ESP_OK then Some (res, s)
      else if gpio_num \<ge> 40 then None
      else let s = s\<lparr>gpb := (gpb s)
                 \<lparr>badge_gpiobutton_conv := (badge_gpiobutton_conv (gpb s))[gpio_num := button_id],
                  badge_gpiobutton_old_state := (badge_gpiobutton_old_state (gpb s))[gpio_num := 1]\<rparr>\<rparr>;
               (res, s) = ext ''gpio_isr_handler_add'' [int gpio_num] s
           in if res \<noteq> ESP_OK then Some (res, s)
              else Some (ext ''gpio_config'' [int gpio_num] s))"

section \<open>The bitmap of pressed buttons\<close>

lemma add_event_frame:
  "badge_gpiobutton_old_state (gpb (badge_input_add_event b p isr s)) = badge_gpiobutton_old_state (gpb s)"
  "badge_gpiobutton_conv (gpb (badge_input_add_event b p isr s)) = badge_gpiobutton_conv (gpb s)"
  by (simp_all add: badge_input_add_event_def Let_def split: callback.splits)

lemma add_event_state:
  "badge_input_button_state (inp (badge_input_add_event b p isr s)) =
     put_bit (unat b) p (badge_input_button_state (inp s))"
  by (simp add: badge_input_add_event_def put_bit_def Let_def split: callback.splits)

text \<open>
  The runs of the button driver: buttons are added, each GPIO and each button once, and interrupts
  of the added buttons arrive.  \<open>R\<close> maps the GPIO numbers in use to their buttons.
\<close>

inductive button_run :: "(nat \<rightharpoonup> u32) \<Rightarrow> fw \<Rightarrow> bool" where
  start: "button_run Map.empty (power_on e c)"
| add: "button_run R s \<Longrightarrow> badge_gpiobutton_add g b s = Some (ESP_OK, s') \<Longrightarrow> g \<notin> dom R \<Longrightarrow> b \<notin> ran R \<Longrightarrow>
     unat b < 32 \<Longrightarrow> button_run (R(g \<mapsto> b)) s'"
| interrupt: "button_run R s \<Longrightarrow> g \<in> dom R \<Longrightarrow> badge_gpiobutton_handler g s = Some s' \<Longrightarrow> button_run R s'"

text \<open>The level a GPIO had when it was last read; 1, the released level, before that.\<close>

fun sampled :: "environment \<Rightarrow> ext_call list \<Rightarrow> nat \<Rightarrow> int" where
  "sampled e [] g = 1"
| "sampled e (Ext f args # tr) g =
     (if f = ''gpio_get_level'' \<and> args = [int g] then fst (e (Ext f args # tr)) else sampled e tr g)"

definition buttons_agree :: "(nat \<rightharpoonup> u32) \<Rightarrow> fw \<Rightarrow> bool" where
  "buttons_agree R s \<longleftrightarrow>
     length (badge_gpiobutton_conv (gpb s)) = 40 \<and> length (badge_gpiobutton_old_state (gpb s)) = 40 \<and>
     inj_on R (dom R) \<and>
     (\<forall>g. sampled (env s) (trace s) g = (if g \<in> dom R then badge_gpiobutton_old_state (gpb s) ! g else 1)) \<and>
     (\<forall>g b. R g = Some b \<longrightarrow> g < 40 \<and> unat b < 32 \<and> badge_gpiobutton_conv (gpb s) ! g = b \<and>
        (bit (badge_input_button_state (inp s)) (unat b) \<longleftrightarrow> badge_gpiobutton_old_state (gpb s) ! g = 0)) \<and>
     (\<forall>k. bit (badge_input_button_state (inp s)) k \<longrightarrow> (\<exists>b \<in> ran R. unat b = k))"

lemma add_event_env: "env (badge_input_add_event b p isr s) = env s"
  by (simp add: badge_input_add_event_def Let_def split: callback.splits)

lemma add_event_sampled: "sampled e (trace (badge_input_add_event b p isr s)) g = sampled e (trace s) g"
  by (simp add: badge_input_add_event_def Let_def split: callback.splits)

lemma handler_agree:
  assumes "buttons_agree R s" and "R g = Some b" and "badge_gpiobutton_handler g s = Some s'"
  shows "buttons_agree R s'"
proof -
  let ?l = "fst (ext ''gpio_get_level'' [int g] s)" and ?t = "snd (ext ''gpio_get_level'' [int g] s)"
  let ?u = "if ?l \<noteq> badge_gpiobutton_old_state (gpb s) ! g then badge_input_add_event b (?l = 0) True ?t else ?t"
  have g: "g < 40" "unat b < 32" "badge_gpiobutton_conv (gpb s) ! g = b"
    "length (badge_gpiobutton_conv (gpb s)) = 40" "length (badge_gpiobutton_old_state (gpb s)) = 40"
    and bit_g: "bit (badge_input_button_state (inp s)) (unat b) \<longleftrightarrow> badge_gpiobutton_old_state (gpb s) ! g = 0"
    using assms(1,2) by (auto simp: buttons_agree_def)
  have inj: "unat b' = unat b \<longleftrightarrow> g' = g" if "R g' = Some b'" for g' b'
    using assms(1,2) that unfolding buttons_agree_def inj_on_def by (metis domI option.inject unsigned_word_eqI)
  have s': "s' = ?u\<lparr>gpb := (gpb ?u)\<lparr>badge_gpiobutton_old_state := (badge_gpiobutton_old_state (gpb ?u))[g := ?l]\<rparr>\<rparr>"
    using assms(3) g
    by (simp add: badge_gpiobutton_handler_def Let_def case_prod_beta add_event_frame del: list_update_id split: if_splits)
  have old: "badge_gpiobutton_old_state (gpb s') = (badge_gpiobutton_old_state (gpb s))[g := ?l]"
    and conv: "badge_gpiobutton_conv (gpb s') = badge_gpiobutton_conv (gpb s)"
    unfolding s' by (simp_all add: add_event_frame)
  have smp: "env s' = env s" "sampled (env s) (trace s') k = (if k = g then ?l else sampled (env s) (trace s) k)" for k
    unfolding s' by (simp_all add: add_event_env add_event_sampled)
  have st: "bit (badge_input_button_state (inp s')) k = (if k = unat b then ?l = 0 else bit (badge_input_button_state (inp s)) k)" for k
    unfolding s' using g(2) bit_g by (auto simp: add_event_state bit_put_bit)
  show ?thesis
    unfolding buttons_agree_def old conv st smp
    using assms(1,2) g inj by (auto simp: buttons_agree_def nth_list_update ran_def)
qed

lemma add_agree:
  assumes "buttons_agree R s" and "badge_gpiobutton_add g b s = Some (ESP_OK, s')"
    and "g \<notin> dom R" and "b \<notin> ran R" and "unat b < 32"
  shows "buttons_agree (R(g \<mapsto> b)) s'"
proof -
  have f: "inp (snd (badge_base_init s)) = inp s" "gpb (snd (badge_base_init s)) = gpb s"
    "env (snd (badge_base_init s)) = env s" "sampled e (trace (snd (badge_base_init s))) k = sampled e (trace s) k" for e k
    by (simp_all add: badge_base_init_def Let_def case_prod_beta)
  have g: "g < 40"
    and conv: "badge_gpiobutton_conv (gpb s') = (badge_gpiobutton_conv (gpb s))[g := b]"
    and old: "badge_gpiobutton_old_state (gpb s') = (badge_gpiobutton_old_state (gpb s))[g := 1]"
    and st: "inp s' = inp s" and smp: "env s' = env s" "sampled e (trace s') k = sampled e (trace s) k" for e k
    using assms(2) f by (auto simp: badge_gpiobutton_add_def Let_def case_prod_beta ext_def split: if_splits)
  have nb: "\<not> bit (badge_input_button_state (inp s)) (unat b)"
    using assms(1,4) unfolding buttons_agree_def by (metis unsigned_word_eqI)
  have len: "length (badge_gpiobutton_conv (gpb s)) = 40" "length (badge_gpiobutton_old_state (gpb s)) = 40"
    and inj: "inj_on R (dom R)"
    and reg: "\<And>g b. R g = Some b \<Longrightarrow> g < 40 \<and> unat b < 32 \<and> badge_gpiobutton_conv (gpb s) ! g = b \<and>
        (bit (badge_input_button_state (inp s)) (unat b) \<longleftrightarrow> badge_gpiobutton_old_state (gpb s) ! g = 0)"
    and only: "\<And>k. bit (badge_input_button_state (inp s)) k \<Longrightarrow> \<exists>b \<in> ran R. unat b = k"
    and sam: "\<And>k. sampled (env s) (trace s) k = (if k \<in> dom R then badge_gpiobutton_old_state (gpb s) ! k else 1)"
    using assms(1) unfolding buttons_agree_def by simp_all
  have ne: "R g' \<noteq> Some b" for g' using assms(4) by (auto simp: ran_def)
  have "inj_on (R(g \<mapsto> b)) (dom (R(g \<mapsto> b)))"
    using inj ne assms(3) unfolding inj_on_def by (auto simp: dom_def)
  moreover have "ran (R(g \<mapsto> b)) = insert b (ran R)"
    using assms(3) by (auto simp: dom_def)
  ultimately show ?thesis
    unfolding buttons_agree_def conv old st smp sam
    using len reg only nb g assms(3,5) by (auto simp: nth_list_update)
qed

lemma button_run_agree: "button_run R s \<Longrightarrow> buttons_agree R s"
proof (induction rule: button_run.induct)
  case (start e c)
  then show ?case by (simp add: buttons_agree_def power_on_def)
next
  case (add R s g b s')
  then show ?case by (blast intro: add_agree)
next
  case (interrupt R s g s')
  then show ?case by (blast intro: handler_agree)
qed

text \<open>C11: whatever buttons are added and whatever interrupts arrive, the bitmap of pressed buttons has the
  bit of a button set exactly when the level of its GPIO was last read as 0, and no other bit.\<close>

theorem button_bitmap_is_last_sample:
  assumes "button_run R s"
  shows "(\<forall>g b. R g = Some b \<longrightarrow> (bit (badge_input_button_state (inp s)) (unat b) \<longleftrightarrow> sampled (env s) (trace s) g = 0)) \<and>
     (\<forall>k. bit (badge_input_button_state (inp s)) k \<longrightarrow> (\<exists>b \<in> ran R. unat b = k))"
  using button_run_agree [OF assms] by (auto simp: buttons_agree_def)

theorem button_bitmap_is_last_sample_witness:
  "\<exists>R s. R 0 = Some 10 \<and> button_run R s \<and> (bit (badge_input_button_state (inp s)) 10 \<longleftrightarrow> sampled (env s) (trace s) 0 = 0)"
proof -
  let ?s0 = "power_on (\<lambda>_. (0, [])) Map.empty"
  define s1 where "s1 = snd (the (badge_gpiobutton_add 0 10 ?s0))"
  define s2 where "s2 = the (badge_gpiobutton_handler 0 s1)"
  have 1: "badge_gpiobutton_add 0 10 ?s0 = Some (ESP_OK, s1)"
    unfolding s1_def by (simp add: badge_gpiobutton_add_def badge_base_init_def ext_def power_on_def Let_def)
  have 2: "badge_gpiobutton_handler 0 s1 = Some s2"
    unfolding s2_def s1_def
    by (simp add: badge_gpiobutton_handler_def badge_input_add_event_def badge_gpiobutton_add_def badge_base_init_def ext_def power_on_def Let_def nth_opt_def)
  have "button_run (Map.empty(0 \<mapsto> 10)) s1" by (rule button_run.add [OF button_run.start 1]) simp_all
  then have r: "button_run (Map.empty(0 \<mapsto> 10)) s2" by (rule button_run.interrupt [OF _ _ 2]) simp
  from conjunct1 [OF button_bitmap_is_last_sample [OF r], rule_format, of 0 10] have "bit (badge_input_button_state (inp s2)) 10 \<longleftrightarrow> sampled (env s2) (trace s2) 0 = 0"
    by simp
  with r show ?thesis by (intro exI [of _ "Map.empty(0 \<mapsto> 10)"] exI [of _ s2]) simp
qed

end
