(* ===== verification/Badge_I2c.thy ===== *)
theory Badge_I2c
  imports Badge_World
begin

text \<open>
  components/badge/badge_i2c.c: transactions on the I2C bus.  Each one is queued as a list of
  commands under the bus mutex and then executed by \<open>i2c_master_cmd_begin\<close>; a command that cannot be
  queued fails an \<open>assert\<close>.

  What the devices on the bus have been told is a function of the call history: \<open>dev_reg\<close> is the last
  value written to a register by a transaction that was acknowledged.
\<close>

section \<open>Initialisation\<close>

definition badge_i2c_init :: "fw \<Rightarrow> esp_err \<times> fw" where
  "badge_i2c_init s =
     (if badge_i2c_init_done (i2c s) then (ESP_OK, s)
      else let (m, s) = ext ''xSemaphoreCreateMutex'' [] s;
               s = s\<lparr>i2c := (i2c s)\<lparr>badge_i2c_mux := m\<rparr>\<rparr>
           in if m = 0 then (ESP_ERR_NO_MEM, s)
              else let (res, s) = ext ''i2c_param_config''
                         [1, macro s ''PIN_NUM_I2C_DATA'', macro s ''PIN_NUM_I2C_CLK'', 100000] s
                   in if res \<noteq> ESP_OK then (res, s)
                      else let (res, s) = ext ''i2c_driver_install'' [1, 1, 0, 0, 0] s
                           in if res \<noteq> ESP_OK then (res, s)
                              else (ESP_OK, s\<lparr>i2c := (i2c s)\<lparr>badge_i2c_init_done := True\<rparr>\<rparr>))"

section \<open>Transactions\<close>

text \<open>\<open>i2c_master_start(cmd)\<close> and the address byte, with the read or the write bit.\<close>

definition i2c_address :: "int \<Rightarrow> u8 \<Rightarrow> u8 \<Rightarrow> fw \<Rightarrow> fw option" where
  "i2c_address cmd addr rw s = do {
     s \<leftarrow> checked ''i2c_master_start'' [cmd] s;
     checked ''i2c_master_write_byte'' [cmd, uint (push_bit 1 addr OR rw), 1] s
   }"

definition i2c_write_bytes :: "int \<Rightarrow> u8 list \<Rightarrow> fw \<Rightarrow> fw option" where
  "i2c_write_bytes cmd bs s =
     foldl (\<lambda>r b. Option.bind r (checked ''i2c_master_write_byte'' [cmd, uint b, 1])) (Some s) bs"

text \<open>Running the queue and giving the mutex back; the bytes read come with the answer.\<close>

definition i2c_run :: "int \<Rightarrow> fw \<Rightarrow> ((esp_err \<times> u8 list) \<times> fw) option" where
  "i2c_run cmd s = do {
     s \<leftarrow> checked ''i2c_master_stop'' [cmd] s;
     let (r, s) = ext_bytes ''i2c_master_cmd_begin'' [1, cmd, 1000 div macro s ''portTICK_RATE_MS''] s;
     let s = snd (ext ''i2c_cmd_link_delete'' [cmd] s);
     Some (r, snd (ext ''xSemaphoreGive'' [badge_i2c_mux (i2c s)] s))
   }"

text \<open>The buffer a read fills: short answers leave the rest of it as it was.\<close>

definition fill_buffer :: "nat \<Rightarrow> u8 list \<Rightarrow> u8 list" where
  "fill_buffer n bs = take n (bs @ replicate n 0)"

text \<open>The last byte goes to \<open>value[value_len - 1]\<close>, which for \<open>value_len = 0\<close> is in front of the buffer.\<close>

definition badge_i2c_read_reg :: "u8 \<Rightarrow> u8 \<Rightarrow> nat \<Rightarrow> fw \<Rightarrow> ((esp_err \<times> u8 list) \<times> fw) option" where
  "badge_i2c_read_reg addr reg value_len s =
     (let (t, s) = ext ''xSemaphoreTake'' [badge_i2c_mux (i2c s), portMAX_DELAY] s in
      if t \<noteq> pdTRUE then Some ((ESP_ERR_TIMEOUT, []), s)
      else do {
        let (cmd, s) = ext ''i2c_cmd_link_create'' [] s;
        s \<leftarrow> i2c_address cmd addr 0 s;
        s \<leftarrow> i2c_write_bytes cmd [reg] s;
        s \<leftarrow> i2c_address cmd addr 1 s;
        s \<leftarrow> (if value_len > 1 then checked ''i2c_master_read'' [cmd, int value_len - 1, 0] s else Some s);
        s \<leftarrow> (if value_len = 0 then None else checked ''i2c_master_read_byte'' [cmd, 1] s);
        ((res, bs), s) \<leftarrow> i2c_run cmd s;
        Some ((res, fill_buffer value_len bs), s)
      })"

definition i2c_write :: "u8 \<Rightarrow> u8 list \<Rightarrow> fw \<Rightarrow> (esp_err \<times> fw) option" where
  "i2c_write addr bs s =
     (let (t, s) = ext ''xSemaphoreTake'' [badge_i2c_mux (i2c s), portMAX_DELAY] s in
      if t \<noteq> pdTRUE then Some (ESP_ERR_TIMEOUT, s)
      else do {
        let (cmd, s) = ext ''i2c_cmd_link_create'' [] s;
        s \<leftarrow> i2c_address cmd addr 0 s;
        s \<leftarrow> i2c_write_bytes cmd bs s;
        ((res, bs), s) \<leftarrow> i2c_run cmd s;
        Some (res, s)
      })"

definition badge_i2c_write_reg :: "u8 \<Rightarrow> u8 \<Rightarrow> u8 \<Rightarrow> fw \<Rightarrow> (esp_err \<times> fw) option" where
  "badge_i2c_write_reg addr reg v = i2c_write addr [reg, v]"

text \<open>\<open>len\<close> is the length of the list, an \<open>uint16_t\<close>.\<close>

definition badge_i2c_write_buffer :: "u8 \<Rightarrow> u8 list \<Rightarrow> fw \<Rightarrow> (esp_err \<times> fw) option" where
  "badge_i2c_write_buffer addr buffer = i2c_write addr buffer"

definition badge_i2c_write_reg32 :: "u8 \<Rightarrow> u8 \<Rightarrow> u32 \<Rightarrow> fw \<Rightarrow> (esp_err \<times> fw) option" where
  "badge_i2c_write_reg32 addr reg v = i2c_write addr
     [reg, ucast (v AND 0xff), ucast (drop_bit 8 v AND 0xff), ucast (drop_bit 16 v AND 0xff), ucast (drop_bit 24 v AND 0xff)]"

definition badge_i2c_read_event :: "u8 \<Rightarrow> fw \<Rightarrow> ((esp_err \<times> u8 list) \<times> fw) option" where
  "badge_i2c_read_event addr s =
     (let (t, s) = ext ''xSemaphoreTake'' [badge_i2c_mux (i2c s), portMAX_DELAY] s in
      if t \<noteq> pdTRUE then Some ((ESP_ERR_TIMEOUT, []), s)
      else do {
        let (cmd, s) = ext ''i2c_cmd_link_create'' [] s;
        s \<leftarrow> i2c_address cmd addr 1 s;
        s \<leftarrow> checked ''i2c_master_read'' [cmd, 2, 0] s;
        s \<leftarrow> checked ''i2c_master_read_byte'' [cmd, 1] s;
        ((res, bs), s) \<leftarrow> i2c_run cmd s;
        Some ((res, fill_buffer 3 bs), s)
      })"

section \<open>What the devices have been told\<close>

text \<open>
  The commands queued since the last \<open>i2c_cmd_link_create\<close>, in order: the bytes to write, and \<open>-1\<close>
  for a start condition.
\<close>

fun queued :: "ext_call list \<Rightarrow> int list" where
  "queued [] = []"
| "queued (Ext f args # tr) =
     (if f = ''i2c_cmd_link_create'' then []
      else if f = ''i2c_master_start'' then queued tr @ [-1]
      else if f = ''i2c_master_write_byte'' then queued tr @ [args ! 1]
      else queued tr)"

text \<open>
  The effect of an acknowledged queue on register \<open>reg\<close> of the device at \<open>addr\<close>: a queue of one start,
  the write address, the register number and a value stores the value.
\<close>

definition stores :: "int list \<Rightarrow> u8 \<Rightarrow> u8 \<Rightarrow> u8 option" where
  "stores q addr reg =
     (case q of [st, a, r, v] \<Rightarrow>
        if st = -1 \<and> a = uint (push_bit 1 addr) \<and> r = uint reg then Some (word_of_int v) else None
      | _ \<Rightarrow> None)"

fun dev_reg :: "environment \<Rightarrow> u8 \<Rightarrow> u8 \<Rightarrow> ext_call list \<Rightarrow> u8 option" where
  "dev_reg e addr reg [] = None"
| "dev_reg e addr reg (Ext f args # tr) =
     (if f = ''i2c_master_cmd_begin'' \<and> fst (e (Ext f args # tr)) = ESP_OK
      then (case stores (queued tr) addr reg of Some v \<Rightarrow> Some v | None \<Rightarrow> dev_reg e addr reg tr)
      else dev_reg e addr reg tr)"

text \<open>How often the mutex \<open>m\<close> has been taken and not given back.\<close>

fun held :: "environment \<Rightarrow> int \<Rightarrow> ext_call list \<Rightarrow> int" where
  "held e m [] = 0"
| "held e m (Ext f args # tr) =
     (if f = ''xSemaphoreTake'' \<and> hd args = m \<and> fst (e (Ext f args # tr)) = pdTRUE then held e m tr + 1
      else if f = ''xSemaphoreGive'' \<and> hd args = m then held e m tr - 1
      else held e m tr)"

text \<open>Every transaction so far has been acknowledged, and no mutex was refused.\<close>

fun all_acked :: "environment \<Rightarrow> ext_call list \<Rightarrow> bool" where
  "all_acked e [] \<longleftrightarrow> True"
| "all_acked e (Ext f args # tr) \<longleftrightarrow> (f = ''i2c_master_cmd_begin'' \<longrightarrow> fst (e (Ext f args # tr)) = ESP_OK) \<and>
     (f = ''xSemaphoreTake'' \<longrightarrow> fst (e (Ext f args # tr)) = pdTRUE) \<and> all_acked e tr"

section \<open>The transactions as histories\<close>

lemma checked_iff: "checked f args s = Some s' \<longleftrightarrow>
    fst (env s (Ext f args # trace s)) = ESP_OK \<and> s' = s\<lparr>trace := Ext f args # trace s\<rparr>"
  by (auto simp: checked_def ext_def Let_def)

text \<open>Queueing changes the queue and nothing else.\<close>

definition queues :: "int list \<Rightarrow> fw \<Rightarrow> fw \<Rightarrow> bool" where
  "queues bs s s' \<longleftrightarrow> same_statics s s' \<and> queued (trace s') = queued (trace s) @ bs \<and>
     (\<forall>e a r. dev_reg e a r (trace s') = dev_reg e a r (trace s)) \<and> (\<forall>e m. held e m (trace s') = held e m (trace s)) \<and>
     (\<forall>e. all_acked e (trace s') \<longrightarrow> all_acked e (trace s))"

lemma queues_refl: "queues [] s s"
  by (simp add: queues_def)

lemma queues_trans: "queues xs s s1 \<Longrightarrow> queues ys s1 s' \<Longrightarrow> queues (xs @ ys) s s'"
  unfolding queues_def by (auto intro: same_statics_trans)

lemma queues_checked:
  "checked f args s = Some s' \<Longrightarrow> f \<notin> {''i2c_master_cmd_begin'', ''i2c_cmd_link_create'', ''i2c_master_start'', ''i2c_master_write_byte'',
     ''xSemaphoreTake'', ''xSemaphoreGive''} \<Longrightarrow>
   queues [] s s'"
  by (auto simp: checked_iff queues_def)

lemma i2c_address_queues: "i2c_address cmd addr rw s = Some s' \<Longrightarrow> queues [-1, uint (push_bit 1 addr OR rw)] s s'"
  by (auto simp: i2c_address_def bind_eq_Some_conv checked_iff queues_def)

lemma i2c_write_bytes_queues: "i2c_write_bytes cmd bs s = Some s' \<Longrightarrow> queues (map uint bs) s s'"
proof (induction bs arbitrary: s' rule: rev_induct)
  case Nil
  then show ?case by (simp add: i2c_write_bytes_def queues_refl)
next
  case (snoc b bs)
  then obtain s1 where "i2c_write_bytes cmd bs s = Some s1"
    and c: "checked ''i2c_master_write_byte'' [cmd, uint b, 1] s1 = Some s'"
    by (auto simp: i2c_write_bytes_def bind_eq_Some_conv)
  then have "queues (map uint bs) s s1" using snoc.IH by simp
  moreover have "queues [uint b] s1 s'" using c by (auto simp: checked_iff queues_def)
  ultimately show ?case using queues_trans by fastforce
qed

lemma i2c_run_spec:
  assumes "i2c_run cmd s = Some ((res, bs), s')"
  shows "same_statics s s'"
    and "dev_reg (env s) a r (trace s') = (case if res = ESP_OK then stores (queued (trace s)) a r else None of
       Some v \<Rightarrow> Some v | None \<Rightarrow> dev_reg (env s) a r (trace s))"
    and "held e m (trace s') = held e m (trace s) - (if m = badge_i2c_mux (i2c s) then 1 else 0)"
    and "all_acked (env s) (trace s') \<Longrightarrow> res = ESP_OK \<and> all_acked (env s) (trace s)"
  using assms
  by (auto simp: i2c_run_def bind_eq_Some_conv checked_iff ext_bytes_def ext_def Let_def split: option.splits)

text \<open>A transaction starts by taking the mutex and creating the queue.\<close>

definition i2c_open :: "fw \<Rightarrow> fw" where
  "i2c_open s = snd (ext ''i2c_cmd_link_create'' [] (snd (ext ''xSemaphoreTake'' [badge_i2c_mux (i2c s), portMAX_DELAY] s)))"

definition i2c_cmd :: "fw \<Rightarrow> int" where
  "i2c_cmd s = fst (ext ''i2c_cmd_link_create'' [] (snd (ext ''xSemaphoreTake'' [badge_i2c_mux (i2c s), portMAX_DELAY] s)))"

lemma i2c_write_opened:
  assumes "i2c_write addr bs s = Some (res, s')"
    and "fst (ext ''xSemaphoreTake'' [badge_i2c_mux (i2c s), portMAX_DELAY] s) = pdTRUE"
  obtains s1 s2 bs' where "i2c_address (i2c_cmd s) addr 0 (i2c_open s) = Some s1"
    and "i2c_write_bytes (i2c_cmd s) bs s1 = Some s2" and "i2c_run (i2c_cmd s) s2 = Some ((res, bs'), s')"
proof -
  have "\<exists>s1 s2 bs'. i2c_address (i2c_cmd s) addr 0 (i2c_open s) = Some s1
    \<and> i2c_write_bytes (i2c_cmd s) bs s1 = Some s2 \<and> i2c_run (i2c_cmd s) s2 = Some ((res, bs'), s')"
    using assms unfolding i2c_write_def Let_def
    by (simp del: ext_simps add: case_prod_beta bind_eq_Some_conv flip: i2c_open_def i2c_cmd_def)
  then show ?thesis using that by auto
qed

lemma i2c_read_opened:
  assumes "badge_i2c_read_reg addr reg n s = Some (rd, s')"
    and "fst (ext ''xSemaphoreTake'' [badge_i2c_mux (i2c s), portMAX_DELAY] s) = pdTRUE"
  obtains s1 s2 s3 s4 s5 res bs where "i2c_address (i2c_cmd s) addr 0 (i2c_open s) = Some s1"
      and "i2c_write_bytes (i2c_cmd s) [reg] s1 = Some s2" and "i2c_address (i2c_cmd s) addr 1 s2 = Some s3"
      and "(if n > 1 then checked ''i2c_master_read'' [i2c_cmd s, int n - 1, 0] s3 else Some s3) = Some s4"
      and "checked ''i2c_master_read_byte'' [i2c_cmd s, 1] s4 = Some s5"
      and "i2c_run (i2c_cmd s) s5 = Some ((res, bs), s')" and "rd = (res, fill_buffer n bs)"
proof -
  have "\<exists>s1 s2 s3 s4 s5 res bs. i2c_address (i2c_cmd s) addr 0 (i2c_open s) = Some s1
      \<and> i2c_write_bytes (i2c_cmd s) [reg] s1 = Some s2 \<and> i2c_address (i2c_cmd s) addr 1 s2 = Some s3
      \<and> (if n > 1 then checked ''i2c_master_read'' [i2c_cmd s, int n - 1, 0] s3 else Some s3) = Some s4
      \<and> checked ''i2c_master_read_byte'' [i2c_cmd s, 1] s4 = Some s5
      \<and> i2c_run (i2c_cmd s) s5 = Some ((res, bs), s') \<and> rd = (res, fill_buffer n bs)"
    using assms unfolding badge_i2c_read_reg_def Let_def
    by (cases "n > 1"; cases "n = 0")
      (simp_all del: ext_simps add: case_prod_beta bind_eq_Some_conv flip: i2c_open_def i2c_cmd_def, auto)
  then show ?thesis using that by auto
qed

lemma i2c_open_queue: "queued (trace (i2c_open s)) = []" "same_statics s (i2c_open s)"
    "dev_reg e a r (trace (i2c_open s)) = dev_reg e a r (trace s)"
  by (simp_all add: i2c_open_def)

lemma i2c_open_held: "fst (ext ''xSemaphoreTake'' [badge_i2c_mux (i2c s), portMAX_DELAY] s) = pdTRUE \<Longrightarrow>
   held (env s) m (trace (i2c_open s)) = held (env s) m (trace s) + (if m = badge_i2c_mux (i2c s) then 1 else 0)"
  by (simp add: i2c_open_def)

lemma i2c_open_acked: "all_acked (env s) (trace (i2c_open s)) \<Longrightarrow> all_acked (env s) (trace s)"
  by (simp add: i2c_open_def)

lemma push_bit_1_eq: "uint (push_bit 1 a) = uint (push_bit 1 b) \<longleftrightarrow> push_bit 1 a = push_bit 1 (b :: u8)"
  by (simp only: word_uint_eq_iff)

theorem i2c_write_spec:
  assumes "i2c_write addr bs s = Some (res, s')"
  shows "same_statics s s'"
    and "dev_reg (env s) a r (trace s') =
      (if res = ESP_OK \<and> push_bit 1 a = push_bit 1 addr \<and> (\<exists>v. bs = [r, v]) then Some (bs ! 1)
       else dev_reg (env s) a r (trace s))"
    and "held (env s) m (trace s') = held (env s) m (trace s)"
proof -
  have *: "same_statics s s' \<and> dev_reg (env s) a r (trace s') =
      (if res = ESP_OK \<and> push_bit 1 a = push_bit 1 addr \<and> (\<exists>v. bs = [r, v]) then Some (bs ! 1)
       else dev_reg (env s) a r (trace s)) \<and> held (env s) m (trace s') = held (env s) m (trace s)"
  proof (cases "fst (ext ''xSemaphoreTake'' [badge_i2c_mux (i2c s), portMAX_DELAY] s) = pdTRUE")
    case False
    then show ?thesis using assms by (auto simp: i2c_write_def ext_def Let_def)
  next
    case True
    let ?cmd = "i2c_cmd s"
    from i2c_write_opened [OF assms True] obtain s1 s2 bs' where 1: "i2c_address ?cmd addr 0 (i2c_open s) = Some s1"
      and 2: "i2c_write_bytes ?cmd bs s1 = Some s2" and 3: "i2c_run ?cmd s2 = Some ((res, bs'), s')" .
    have q: "queues ([-1, uint (push_bit 1 addr)] @ map uint bs) (i2c_open s) s2"
      using queues_trans [OF i2c_address_queues [OF 1] i2c_write_bytes_queues [OF 2]] by simp
    then have st: "same_statics s s2" and d: "dev_reg (env s) a r (trace s2) = dev_reg (env s) a r (trace s)"
      and q2: "queued (trace s2) = [-1, uint (push_bit 1 addr)] @ map uint bs"
      and h: "held (env s) m (trace s2) = held (env s) m (trace s) + (if m = badge_i2c_mux (i2c s) then 1 else 0)"
      using i2c_open_queue [where s = s] i2c_open_held [OF True, of m] unfolding queues_def by (auto intro: same_statics_trans)
    have e: "env s2 = env s" by (rule same_statics_D(1) [OF st])
    have "stores (queued (trace s2)) a r = (if push_bit 1 a = push_bit 1 addr \<and> (\<exists>v. bs = [r, v]) then Some (bs ! 1) else None)"
      unfolding q2 stores_def by (auto simp: push_bit_1_eq word_uint_eq_iff split: list.splits)
    then show ?thesis
      using i2c_run_spec(1) [OF 3] i2c_run_spec(2) [OF 3, of a r] i2c_run_spec(3) [OF 3, of "env s" m] same_statics_trans [OF st] d e
        same_statics_D(12) [OF st] h by auto
  qed
  then show "same_statics s s'" and "dev_reg (env s) a r (trace s') =
      (if res = ESP_OK \<and> push_bit 1 a = push_bit 1 addr \<and> (\<exists>v. bs = [r, v]) then Some (bs ! 1)
       else dev_reg (env s) a r (trace s))"
    and "held (env s) m (trace s') = held (env s) m (trace s)" by simp_all
qed

text \<open>A read transaction stores nothing in any device.\<close>

theorem i2c_read_spec:
  assumes "badge_i2c_read_reg addr reg n s = Some (rd, s')"
  shows "same_statics s s'" and "dev_reg (env s) a r (trace s') = dev_reg (env s) a r (trace s)"
    and "fst rd = ESP_OK \<Longrightarrow> length (snd rd) = n" and "held (env s) m (trace s') = held (env s) m (trace s)"
proof -
  have *: "same_statics s s' \<and> dev_reg (env s) a r (trace s') = dev_reg (env s) a r (trace s) \<and>
    (fst rd = ESP_OK \<longrightarrow> length (snd rd) = n) \<and> held (env s) m (trace s') = held (env s) m (trace s)"
  proof (cases "fst (ext ''xSemaphoreTake'' [badge_i2c_mux (i2c s), portMAX_DELAY] s) = pdTRUE")
    case False
    then show ?thesis using assms by (auto simp: badge_i2c_read_reg_def ext_def Let_def)
  next
    case True
    let ?cmd = "i2c_cmd s"
    from i2c_read_opened [OF assms True] obtain s1 s2 s3 s4 s5 res bs where
          1: "i2c_address ?cmd addr 0 (i2c_open s) = Some s1"
      and 2: "i2c_write_bytes ?cmd [reg] s1 = Some s2" and 3: "i2c_address ?cmd addr 1 s2 = Some s3"
      and 4: "(if n > 1 then checked ''i2c_master_read'' [?cmd, int n - 1, 0] s3 else Some s3) = Some s4"
      and 5: "checked ''i2c_master_read_byte'' [?cmd, 1] s4 = Some s5"
      and 6: "i2c_run ?cmd s5 = Some ((res, bs), s')" and rd: "rd = (res, fill_buffer n bs)" .
    have "queues [] s3 s4" using 4 queues_checked queues_refl by (auto split: if_splits)
    moreover have "queues [] s4 s5" using queues_checked [OF 5] by simp
    ultimately have "queues [] s3 s5" using queues_trans by fastforce
    from queues_trans [OF i2c_address_queues [OF 1] queues_trans [OF i2c_write_bytes_queues [OF 2]
          queues_trans [OF i2c_address_queues [OF 3] this]]]
    have q: "queues ([-1, uint (push_bit 1 addr)] @ map uint [reg] @ [-1, uint (push_bit 1 addr OR 1)]) (i2c_open s) s5"
      by simp
    then have st: "same_statics s s5" and d: "dev_reg (env s) a r (trace s5) = dev_reg (env s) a r (trace s)"
      and q5: "queued (trace s5) = [-1, uint (push_bit 1 addr), uint reg, -1, uint (push_bit 1 addr OR 1)]"
      and h: "held (env s) m (trace s5) = held (env s) m (trace s) + (if m = badge_i2c_mux (i2c s) then 1 else 0)"
      using i2c_open_queue [where s = s] i2c_open_held [OF True, of m] unfolding queues_def by (auto intro: same_statics_trans)
    have e: "env s5 = env s" by (rule same_statics_D(1) [OF st])
    have "stores (queued (trace s5)) a r = None" unfolding q5 stores_def by simp
    then show ?thesis
      using i2c_run_spec(1) [OF 6] i2c_run_spec(2) [OF 6, of a r] i2c_run_spec(3) [OF 6, of "env s" m] same_statics_trans [OF st] d e rd
        same_statics_D(12) [OF st] h by (auto simp: fill_buffer_def)
  qed
  then show "same_statics s s'" and "dev_reg (env s) a r (trace s') = dev_reg (env s) a r (trace s)"
    and "fst rd = ESP_OK \<Longrightarrow> length (snd rd) = n" and "held (env s) m (trace s') = held (env s) m (trace s)" by simp_all
qed

section \<open>Transactions return\<close>

text \<open>
  The calls that queue a command answer \<open>ESP_OK\<close> unless their arguments are invalid or memory runs out.
\<close>

definition i2c_queueing_works :: "environment \<Rightarrow> bool" where
  "i2c_queueing_works e \<longleftrightarrow> (\<forall>f args tr. f \<in> {''i2c_master_start'', ''i2c_master_write_byte'', ''i2c_master_read'',
     ''i2c_master_read_byte'', ''i2c_master_stop''} \<longrightarrow> fst (e (Ext f args # tr)) = ESP_OK)"

lemma checked_works: "i2c_queueing_works (env s) \<Longrightarrow> f \<in> {''i2c_master_start'', ''i2c_master_write_byte'', ''i2c_master_read'',
     ''i2c_master_read_byte'', ''i2c_master_stop''} \<Longrightarrow> checked f args s = Some (s\<lparr>trace := Ext f args # trace s\<rparr>)"
  unfolding checked_iff i2c_queueing_works_def by blast

lemma i2c_write_bytes_works: "i2c_queueing_works (env s) \<Longrightarrow>
   \<exists>s'. i2c_write_bytes cmd bs s = Some s' \<and> env s' = env s"
proof (induction bs rule: rev_induct)
  case Nil
  then show ?case by (simp add: i2c_write_bytes_def)
next
  case (snoc b bs)
  then show ?case by (auto simp: i2c_write_bytes_def checked_works)
qed

lemma i2c_run_works: "i2c_queueing_works (env s) \<Longrightarrow> i2c_run cmd s \<noteq> None"
  by (simp add: i2c_run_def checked_works case_prod_beta)

lemma i2c_write_works:
  assumes "i2c_queueing_works (env s)"
  shows "i2c_write addr bs s \<noteq> None"
proof (cases "fst (ext ''xSemaphoreTake'' [badge_i2c_mux (i2c s), portMAX_DELAY] s) = pdTRUE")
  case False
  then show ?thesis by (auto simp: i2c_write_def ext_def Let_def)
next
  case True
  have e: "env (i2c_open s) = env s" by (simp add: i2c_open_def)
  obtain s1 where 1: "i2c_address (i2c_cmd s) addr 0 (i2c_open s) = Some s1" "env s1 = env s"
    using assms e by (auto simp: i2c_address_def checked_works)
  obtain s2 where 2: "i2c_write_bytes (i2c_cmd s) bs s1 = Some s2" "env s2 = env s"
    using i2c_write_bytes_works [of s1] assms 1(2) by auto
  have "i2c_run (i2c_cmd s) s2 \<noteq> None" using i2c_run_works assms 2(2) by simp
  then show ?thesis
    using True 1 2 unfolding i2c_write_def Let_def
    by (auto simp del: ext_simps simp: case_prod_beta simp flip: i2c_open_def i2c_cmd_def)
qed

lemma i2c_read_works:
  assumes "i2c_queueing_works (env s)" and n: "n > 0"
  shows "badge_i2c_read_reg addr reg n s \<noteq> None"
proof (cases "fst (ext ''xSemaphoreTake'' [badge_i2c_mux (i2c s), portMAX_DELAY] s) = pdTRUE")
  case False
  then show ?thesis by (auto simp: badge_i2c_read_reg_def ext_def Let_def)
next
  case True
  have e: "env (i2c_open s) = env s" by (simp add: i2c_open_def)
  obtain s1 where 1: "i2c_address (i2c_cmd s) addr 0 (i2c_open s) = Some s1" "env s1 = env s"
    using assms e by (auto simp: i2c_address_def checked_works)
  obtain s2 where 2: "i2c_write_bytes (i2c_cmd s) [reg] s1 = Some s2" "env s2 = env s"
    using i2c_write_bytes_works [of s1] assms 1(2) by auto
  obtain s3 where 3: "i2c_address (i2c_cmd s) addr 1 s2 = Some s3" "env s3 = env s"
    using assms 2 by (auto simp: i2c_address_def checked_works)
  obtain s4 where 4: "(if n > 1 then checked ''i2c_master_read'' [i2c_cmd s, int n - 1, 0] s3 else Some s3) = Some s4" "env s4 = env s"
    using assms 3 checked_works [of s3 "''i2c_master_read''"] by (cases "n > 1") simp_all
  obtain s5 where 5: "checked ''i2c_master_read_byte'' [i2c_cmd s, 1] s4 = Some s5" "env s5 = env s"
    using assms 4 by (auto simp: checked_works)
  have "i2c_run (i2c_cmd s) s5 \<noteq> None" using i2c_run_works assms 5(2) by simp
  then show ?thesis
    using True n 1 2 3 4 5 unfolding badge_i2c_read_reg_def Let_def
    by (auto simp del: ext_simps simp: case_prod_beta simp flip: i2c_open_def i2c_cmd_def)
qed

text \<open>A bus on which no transaction is acknowledged.\<close>

definition silent :: "environment \<Rightarrow> bool" where
  "silent e \<longleftrightarrow> (\<forall>args tr. fst (e (Ext ''i2c_master_cmd_begin'' args # tr)) \<noteq> ESP_OK)"

lemma i2c_run_result: "i2c_run cmd s = Some ((res, bs), s') \<Longrightarrow>
   \<exists>args tr. res = fst (env s (Ext ''i2c_master_cmd_begin'' args # tr))"
  by (auto simp: i2c_run_def bind_eq_Some_conv checked_iff ext_bytes_def ext_def Let_def) (metis fst_conv)

lemma i2c_write_result:
  assumes "i2c_write addr bs s = Some (res, s')"
  shows "all_acked (env s) (trace s') \<Longrightarrow> res = ESP_OK \<and> all_acked (env s) (trace s)" and "silent (env s) \<Longrightarrow> res \<noteq> ESP_OK"
proof -
  have "(all_acked (env s) (trace s') \<longrightarrow> res = ESP_OK \<and> all_acked (env s) (trace s)) \<and> (silent (env s) \<longrightarrow> res \<noteq> ESP_OK)"
  proof (cases "fst (ext ''xSemaphoreTake'' [badge_i2c_mux (i2c s), portMAX_DELAY] s) = pdTRUE")
    case False
    then show ?thesis using assms by (auto simp: i2c_write_def ext_def Let_def)
  next
    case True
    from i2c_write_opened [OF assms True] obtain s1 s2 bs' where 1: "i2c_address (i2c_cmd s) addr 0 (i2c_open s) = Some s1"
      and 2: "i2c_write_bytes (i2c_cmd s) bs s1 = Some s2" and 3: "i2c_run (i2c_cmd s) s2 = Some ((res, bs'), s')" .
    note q = i2c_address_queues [OF 1, unfolded queues_def] i2c_write_bytes_queues [OF 2, unfolded queues_def]
    have "same_statics s s2"
      using i2c_open_queue(2) [of s] q same_statics_trans [of s "i2c_open s" s1] same_statics_trans [of s s1 s2] by simp
    then have "env s2 = env s" by (rule same_statics_D(1))
    with i2c_run_result [OF 3] i2c_run_spec(4) [OF 3] q i2c_open_acked [of s] show ?thesis by (auto simp: silent_def)
  qed
  then show "all_acked (env s) (trace s') \<Longrightarrow> res = ESP_OK \<and> all_acked (env s) (trace s)" and "silent (env s) \<Longrightarrow> res \<noteq> ESP_OK"
    by blast+
qed

lemma i2c_read_acked:
  assumes "badge_i2c_read_reg addr reg n s = Some (rd, s')" and "all_acked (env s) (trace s')"
  shows "fst rd = ESP_OK \<and> all_acked (env s) (trace s)"
proof (cases "fst (ext ''xSemaphoreTake'' [badge_i2c_mux (i2c s), portMAX_DELAY] s) = pdTRUE")
  case False
  then show ?thesis using assms by (auto simp: badge_i2c_read_reg_def ext_def Let_def)
next
  case True
  let ?cmd = "i2c_cmd s"
  from i2c_read_opened [OF assms(1) True] obtain s1 s2 s3 s4 s5 res bs where
        1: "i2c_address ?cmd addr 0 (i2c_open s) = Some s1"
    and 2: "i2c_write_bytes ?cmd [reg] s1 = Some s2" and 3: "i2c_address ?cmd addr 1 s2 = Some s3"
    and 4: "(if n > 1 then checked ''i2c_master_read'' [?cmd, int n - 1, 0] s3 else Some s3) = Some s4"
    and 5: "checked ''i2c_master_read_byte'' [?cmd, 1] s4 = Some s5"
    and 6: "i2c_run ?cmd s5 = Some ((res, bs), s')" and rd: "rd = (res, fill_buffer n bs)" .
  have "queues [] s3 s4" using 4 queues_checked queues_refl by (auto split: if_splits)
  moreover have "queues [] s4 s5" using queues_checked [OF 5] by simp
  ultimately have "queues [] s3 s5" using queues_trans by fastforce
  from queues_trans [OF i2c_address_queues [OF 1] queues_trans [OF i2c_write_bytes_queues [OF 2]
        queues_trans [OF i2c_address_queues [OF 3] this]]]
  have q: "same_statics (i2c_open s) s5" "all_acked e (trace s5) \<Longrightarrow> all_acked e (trace (i2c_open s))" for e
    unfolding queues_def by blast+
  have "env s5 = env s" using same_statics_D(1) [OF q(1)] same_statics_D(1) [OF i2c_open_queue(2) [of s]] by simp
  then show ?thesis using i2c_run_spec(4) [OF 6] assms(2) q(2) i2c_open_acked [of s] rd by auto
qed

section \<open>Properties\<close>

text \<open>C18: a register write always returns when commands can be queued; it changes the register of the
  addressed device and no other exactly when the device acknowledges it, touches no driver state, and
  gives the bus mutex back on every path.\<close>

theorem register_write_effect:
  assumes "i2c_queueing_works (env s)"
  shows "\<exists>res s'. badge_i2c_write_reg addr reg v s = Some (res, s') \<and> same_statics s s' \<and>
     (\<forall>r. dev_reg (env s) addr r (trace s') = (if res = ESP_OK \<and> r = reg then Some v else dev_reg (env s) addr r (trace s))) \<and>
     (\<forall>m. held (env s) m (trace s') = held (env s) m (trace s))"
proof -
  obtain res s' where w: "i2c_write addr [reg, v] s = Some (res, s')"
    using i2c_write_works [OF assms] by fastforce
  then show ?thesis
    using i2c_write_spec(1,3) [OF w] i2c_write_spec(2) [OF w, of addr]
    by (auto simp: badge_i2c_write_reg_def)
qed

theorem register_write_effect_witness:
  "let s = power_on calm Map.empty in
   \<exists>res s'. badge_i2c_write_reg 0x5a 0x80 0x63 s = Some (res, s') \<and> same_statics s s' \<and>
     (\<forall>r. dev_reg (env s) 0x5a r (trace s') = (if res = ESP_OK \<and> r = 0x80 then Some 0x63 else dev_reg (env s) 0x5a r (trace s))) \<and>
     (\<forall>m. held (env s) m (trace s') = held (env s) m (trace s))"
  unfolding Let_def
  by (rule register_write_effect) (simp add: i2c_queueing_works_def power_on_def calm_def)

end
