(* ===== verification/Badge_Fxl6408.thy ===== *)
theory Badge_Fxl6408
  imports Badge_Input Badge_I2c
begin

text \<open>
  components/badge/badge_fxl6408.c: the port expander.  Each of its output registers is cached in
  \<open>badge_fxl6408_state\<close>; bit 8 of a cached value marks a register whose last write failed.
\<close>

section \<open>Registers\<close>

definition fxl6408_addr :: "fw \<Rightarrow> u8" where
  "fxl6408_addr s = word_of_int (macro s ''I2C_FXL6408_ADDR'')"

definition badge_fxl6408_read_reg :: "u8 \<Rightarrow> fw \<Rightarrow> (int \<times> fw) option" where
  "badge_fxl6408_read_reg reg s = do {
     ((res, bs), s) \<leftarrow> badge_i2c_read_reg (fxl6408_addr s) reg 1 s;
     Some (if res \<noteq> ESP_OK then -1 else uint (hd bs), s)
   }"

definition badge_fxl6408_write_reg :: "u8 \<Rightarrow> u8 \<Rightarrow> fw \<Rightarrow> (esp_err \<times> fw) option" where
  "badge_fxl6408_write_reg reg v s = badge_i2c_write_reg (fxl6408_addr s) reg v s"

definition badge_fxl6408_get_input :: "fw \<Rightarrow> (int \<times> fw) option" where
  "badge_fxl6408_get_input = badge_fxl6408_read_reg 0x0f"

definition badge_fxl6408_get_interrupt_status :: "fw \<Rightarrow> (int \<times> fw) option" where
  "badge_fxl6408_get_interrupt_status = badge_fxl6408_read_reg 0x13"

section \<open>Setting one bit of a register\<close>

text \<open>
  The body the seven \<open>badge_fxl6408_set_*\<close> functions share: \<open>get\<close> and \<open>upd\<close> select the field of
  the cache, \<open>reg\<close> is the register of the chip.
\<close>

definition fxl_store :: "((u16 \<Rightarrow> u16) \<Rightarrow> fxl6408_regs \<Rightarrow> fxl6408_regs) \<Rightarrow> (u16 \<Rightarrow> u16) \<Rightarrow> fw \<Rightarrow> fw" where
  "fxl_store upd f s = s\<lparr>fxl := (fxl s)\<lparr>badge_fxl6408_state := upd f (badge_fxl6408_state (fxl s))\<rparr>\<rparr>"

definition fxl_set ::
    "(fxl6408_regs \<Rightarrow> u16) \<Rightarrow> ((u16 \<Rightarrow> u16) \<Rightarrow> fxl6408_regs \<Rightarrow> fxl6408_regs) \<Rightarrow> u8 \<Rightarrow> nat \<Rightarrow> bool \<Rightarrow> fw \<Rightarrow> (esp_err \<times> fw) option" where
  "fxl_set get upd reg pin on s =
     (let s = snd (ext ''xSemaphoreTake'' [badge_fxl6408_mux (fxl s), portMAX_DELAY] s);
          old = get (badge_fxl6408_state (fxl s));
          v = put_bit pin on (ucast old :: u8)
      in do {
        (res, s) \<leftarrow>
          (if old \<noteq> ucast v then do {
             (res, s) \<leftarrow> badge_fxl6408_write_reg reg v (fxl_store upd (\<lambda>_. ucast v) s);
             Some (res, if res \<noteq> ESP_OK then fxl_store upd (\<lambda>x. x OR 0x100) s else s)
           }
           else Some (ESP_OK, s));
        Some (res, snd (ext ''xSemaphoreGive'' [badge_fxl6408_mux (fxl s)] s))
      })"

definition badge_fxl6408_set_io_direction :: "nat \<Rightarrow> bool \<Rightarrow> fw \<Rightarrow> (esp_err \<times> fw) option" where
  "badge_fxl6408_set_io_direction = fxl_set io_direction io_direction_update 0x03"

definition badge_fxl6408_set_output_state :: "nat \<Rightarrow> bool \<Rightarrow> fw \<Rightarrow> (esp_err \<times> fw) option" where
  "badge_fxl6408_set_output_state = fxl_set output_state output_state_update 0x05"

definition badge_fxl6408_set_output_high_z :: "nat \<Rightarrow> bool \<Rightarrow> fw \<Rightarrow> (esp_err \<times> fw) option" where
  "badge_fxl6408_set_output_high_z = fxl_set output_high_z output_high_z_update 0x07"

definition badge_fxl6408_set_input_default_state :: "nat \<Rightarrow> bool \<Rightarrow> fw \<Rightarrow> (esp_err \<times> fw) option" where
  "badge_fxl6408_set_input_default_state = fxl_set input_default_state input_default_state_update 0x09"

definition badge_fxl6408_set_pull_enable :: "nat \<Rightarrow> bool \<Rightarrow> fw \<Rightarrow> (esp_err \<times> fw) option" where
  "badge_fxl6408_set_pull_enable = fxl_set pull_enable pull_enable_update 0x0b"

definition badge_fxl6408_set_pull_down_up :: "nat \<Rightarrow> bool \<Rightarrow> fw \<Rightarrow> (esp_err \<times> fw) option" where
  "badge_fxl6408_set_pull_down_up = fxl_set pull_down_up pull_down_up_update 0x0d"

definition badge_fxl6408_set_interrupt_enable :: "nat \<Rightarrow> bool \<Rightarrow> fw \<Rightarrow> (esp_err \<times> fw) option" where
  "badge_fxl6408_set_interrupt_enable pin enable = fxl_set interrupt_mask interrupt_mask_update 0x11 pin (\<not> enable)"

section \<open>Interrupts\<close>

definition badge_fxl6408_set_interrupt_handler :: "nat \<Rightarrow> callback \<Rightarrow> int \<Rightarrow> fw \<Rightarrow> fw option" where
  "badge_fxl6408_set_interrupt_handler pin handler arg s =
     (if pin \<ge> 8 then None
      else let store = (\<lambda>s. s\<lparr>fxl := (fxl s)
                 \<lparr>badge_fxl6408_handlers := (badge_fxl6408_handlers (fxl s))[pin := handler],
                  badge_fxl6408_arg := (badge_fxl6408_arg (fxl s))[pin := arg]\<rparr>\<rparr>)
           in if badge_fxl6408_mux (fxl s) = 0 then Some (store s)
              else let s = snd (ext ''xSemaphoreTake'' [badge_fxl6408_mux (fxl s), portMAX_DELAY] s);
                       s = store s
                   in Some (snd (ext ''xSemaphoreGive'' [badge_fxl6408_mux (fxl s)] s)))"

definition badge_fxl6408_intr_handler :: "fw \<Rightarrow> fw" where
  "badge_fxl6408_intr_handler s =
     (let (gpio_state, s) = ext ''gpio_get_level'' [macro s ''PIN_NUM_FXL6408_INT''] s
      in if gpio_state = 0 then snd (ext ''xSemaphoreGiveFromISR'' [badge_fxl6408_intr_trigger (fxl s)] s) else s)"

text \<open>
  One round of \<open>badge_fxl6408_intr_task\<close>; \<open>call\<close> runs a handler.  The status -1 of a failed read has
  all bits set, so that every handler runs.
\<close>

definition fxl_dispatch :: "(callback \<Rightarrow> int \<Rightarrow> fw \<Rightarrow> fw option) \<Rightarrow> int \<Rightarrow> nat \<Rightarrow> fw \<Rightarrow> fw option" where
  "fxl_dispatch call ints i s =
     (if bit ints i then do {
        let s = snd (ext ''xSemaphoreTake'' [badge_fxl6408_mux (fxl s), portMAX_DELAY] s);
        handler \<leftarrow> nth_opt (badge_fxl6408_handlers (fxl s)) i;
        arg \<leftarrow> nth_opt (badge_fxl6408_arg (fxl s)) i;
        let s = snd (ext ''xSemaphoreGive'' [badge_fxl6408_mux (fxl s)] s);
        if handler \<noteq> CB_null then call handler arg s else Some s
      }
      else Some s)"

definition badge_fxl6408_intr_round :: "(callback \<Rightarrow> int \<Rightarrow> fw \<Rightarrow> fw option) \<Rightarrow> fw \<Rightarrow> fw option" where
  "badge_fxl6408_intr_round call s =
     (let (t, s) = ext ''xSemaphoreTake'' [badge_fxl6408_intr_trigger (fxl s), portMAX_DELAY] s in
      if t \<noteq> 0 then do {
        (ints, s) \<leftarrow> badge_fxl6408_get_interrupt_status s;
        foldl (\<lambda>r i. Option.bind r (fxl_dispatch call ints i)) (Some s) [0..<8]
      }
      else Some s)"

section \<open>Initialisation\<close>

definition fxl_init_writes :: "(u8 \<times> u8) list" where
  "fxl_init_writes = [(0x03, 0x00), (0x05, 0x00), (0x07, 0xff), (0x09, 0x00), (0x0b, 0xff), (0x0d, 0x00), (0x11, 0xff), (0x13, 0x00)]"

definition fxl_init_state :: fxl6408_regs where
  "fxl_init_state = \<lparr>io_direction = 0x00, output_state = 0x00, output_high_z = 0xff, input_default_state = 0x00,
     pull_enable = 0xff, pull_down_up = 0x00, interrupt_mask = 0xff\<rparr>"

definition fxl_init_reads :: "u8 list" where
  "fxl_init_reads = [0x01, 0x03, 0x05, 0x07, 0x09, 0x0b, 0x0d, 0x0f, 0x11, 0x13]"

text \<open>The results of the writes and reads of the initialisation are not looked at.\<close>

fun fxl_write_all :: "(u8 \<times> u8) list \<Rightarrow> fw \<Rightarrow> fw option" where
  "fxl_write_all [] s = Some s"
| "fxl_write_all ((reg, v) # ws) s = do { (_, s) \<leftarrow> badge_fxl6408_write_reg reg v s; fxl_write_all ws s }"

fun fxl_read_all :: "u8 list \<Rightarrow> fw \<Rightarrow> fw option" where
  "fxl_read_all [] s = Some s"
| "fxl_read_all (reg # rs) s = do { (_, s) \<leftarrow> badge_fxl6408_read_reg reg s; fxl_read_all rs s }"

definition fxl_configure :: "fw \<Rightarrow> fw option" where
  "fxl_configure s = do {
     s \<leftarrow> fxl_write_all fxl_init_writes s;
     let s = s\<lparr>fxl := (fxl s)\<lparr>badge_fxl6408_state := fxl_init_state\<rparr>\<rparr>;
     let s = snd (ext ''xTaskCreate:badge_fxl6408_intr_task'' [4096, 10] s);
     s \<leftarrow> fxl_read_all fxl_init_reads s;
     let s = badge_fxl6408_intr_handler s;
     Some (s\<lparr>fxl := (fxl s)\<lparr>badge_fxl6408_init_done := True\<rparr>\<rparr>)
   }"

definition badge_fxl6408_init :: "fw \<Rightarrow> (esp_err \<times> fw) option" where
  "badge_fxl6408_init s =
     (if badge_fxl6408_init_done (fxl s) then Some (ESP_OK, s)
      else let (res, s) = badge_base_init s in
      if res \<noteq> ESP_OK then Some (res, s)
      else let (res, s) = badge_i2c_init s in
      if res \<noteq> ESP_OK then Some (res, s)
      else let (m, s) = ext ''xSemaphoreCreateMutex'' [] s;
               s = s\<lparr>fxl := (fxl s)\<lparr>badge_fxl6408_mux := m\<rparr>\<rparr> in
      if m = 0 then Some (ESP_ERR_NO_MEM, s)
      else let (t, s) = ext ''xSemaphoreCreateBinary'' [] s;
               s = s\<lparr>fxl := (fxl s)\<lparr>badge_fxl6408_intr_trigger := t\<rparr>\<rparr> in
      if t = 0 then Some (ESP_ERR_NO_MEM, s)
      else let s = snd (ext ''gpio_isr_handler_add'' [macro s ''PIN_NUM_FXL6408_INT''] s);
               (res, s) = ext ''gpio_config'' [macro s ''PIN_NUM_FXL6408_INT''] s in
      if res \<noteq> ESP_OK then Some (res, s)
      else map_option (Pair ESP_OK) (fxl_configure s))"

section \<open>The cache and the chip agree\<close>

definition fxl_registers :: "((fxl6408_regs \<Rightarrow> u16) \<times> u8) list" where
  "fxl_registers = [(io_direction, 0x03), (output_state, 0x05), (output_high_z, 0x07), (input_default_state, 0x09),
     (pull_enable, 0x0b), (pull_down_up, 0x0d), (interrupt_mask, 0x11)]"

definition fxl_dev :: "u8 \<Rightarrow> fw \<Rightarrow> u8 option" where
  "fxl_dev reg s = dev_reg (env s) (fxl6408_addr s) reg (trace s)"

text \<open>Every cached value that is not marked is the value the chip has acknowledged.\<close>

definition fxl_coherent :: "fw \<Rightarrow> bool" where
  "fxl_coherent s \<longleftrightarrow> (\<forall>(get, reg) \<in> set fxl_registers.
     unat (get (badge_fxl6408_state (fxl s))) < 256 \<longrightarrow> fxl_dev reg s = Some (ucast (get (badge_fxl6408_state (fxl s)))))"

lemma fxl_dev_same:
  assumes "env s' = env s" and "config s' = config s" and "trace s' = trace s"
  shows "fxl_dev reg s' = fxl_dev reg s"
  using assms by (simp add: fxl_dev_def fxl6408_addr_def macro_def)

lemma trace_update_same [simp]: "s\<lparr>trace := trace s\<rparr> = (s :: fw)"
  by (cases s) simp

lemma fxl_dev_ext [simp]:
  "f \<noteq> ''i2c_master_cmd_begin'' \<Longrightarrow> fxl_dev reg (s\<lparr>trace := Ext f args # tr\<rparr>) = fxl_dev reg (s\<lparr>trace := tr\<rparr>)"
  by (simp add: fxl_dev_def fxl6408_addr_def macro_def)

lemma fxl_store_simps [simp]:
  "env (fxl_store upd f s) = env s" "config (fxl_store upd f s) = config s" "trace (fxl_store upd f s) = trace s"
  "badge_fxl6408_state (fxl (fxl_store upd f s)) = upd f (badge_fxl6408_state (fxl s))"
  "fxl_dev reg (fxl_store upd f s) = fxl_dev reg s"
  "fxl_dev reg (fxl_store upd f s\<lparr>trace := tr\<rparr>) = fxl_dev reg (s\<lparr>trace := tr\<rparr>)"
  by (simp_all add: fxl_store_def fxl_dev_def fxl6408_addr_def macro_def)

lemma unat_ucast_u8_u16 [simp]: "unat (ucast (v :: u8) :: u16) = unat v"
proof -
  have "unat v < 2 ^ 16" by (rule less_trans [OF unat_u8_less]) simp
  then show ?thesis unfolding unsigned_ucast_eq by (intro take_bit_nat_eq_self) simp
qed

lemma ucast_ucast_u8_u16 [simp]: "ucast (ucast (v :: u8) :: u16) = v"
proof -
  have "unat (ucast (ucast v :: u16) :: u8) = take_bit 8 (unat (ucast v :: u16))"
    by (simp only: unsigned_ucast_eq unsigned_take_bit_eq) simp
  also have "\<dots> = unat v" by (simp only: unat_ucast_u8_u16) (simp add: take_bit_nat_eq_self unat_u8_less)
  finally show ?thesis by (rule word_unat_eq_iff [THEN iffD2])
qed

lemma marked_ge: "\<not> unat (x OR 0x100 :: u16) < 256"
proof
  assume l: "unat (x OR 0x100 :: u16) < 256"
  then have "take_bit 8 (unat (x OR 0x100 :: u16)) = unat (x OR 0x100 :: u16)" by (simp add: take_bit_nat_eq_self)
  then have "\<not> bit (unat (x OR 0x100 :: u16)) 8" by (metis bit_take_bit_iff less_irrefl)
  moreover have "bit (x OR push_bit 8 1 :: u16) 8" by (simp only: bit_or_iff bit_push_1) simp
  ultimately show False by (simp add: bit_unsigned_iff)
qed

lemma write_reg_spec:
  assumes "badge_fxl6408_write_reg reg v s = Some (res, s')"
  shows "same_statics s s'"
    and "fxl_dev r s' = (if res = ESP_OK \<and> r = reg then Some v else fxl_dev r s)"
proof -
  have w: "i2c_write (fxl6408_addr s) [reg, v] s = Some (res, s')"
    using assms by (simp add: badge_fxl6408_write_reg_def badge_i2c_write_reg_def)
  show st: "same_statics s s'" by (rule i2c_write_spec(1) [OF w])
  then have "fxl6408_addr s' = fxl6408_addr s" "env s' = env s"
    by (simp_all add: fxl6408_addr_def macro_def same_statics_D)
  then show "fxl_dev r s' = (if res = ESP_OK \<and> r = reg then Some v else fxl_dev r s)"
    using i2c_write_spec(2) [OF w, of "fxl6408_addr s" r] by (auto simp: fxl_dev_def)
qed

text \<open>What the functions on one register need of it: \<open>upd\<close> changes the field of \<open>get\<close> alone.\<close>

locale cached_register =
  fixes get :: "fxl6408_regs \<Rightarrow> u16" and upd :: "(u16 \<Rightarrow> u16) \<Rightarrow> fxl6408_regs \<Rightarrow> fxl6408_regs" and reg :: u8
  assumes listed: "(get, reg) \<in> set fxl_registers"
    and get_upd: "get (upd f r) = f (get r)"
    and others: "(g, rg) \<in> set fxl_registers \<Longrightarrow> rg \<noteq> reg \<Longrightarrow> g (upd f r) = g r"
    and unique: "(g, reg) \<in> set fxl_registers \<Longrightarrow> g = get"
begin

definition wanted :: "nat \<Rightarrow> bool \<Rightarrow> fw \<Rightarrow> u8" where
  "wanted pin on s = put_bit pin on (ucast (get (badge_fxl6408_state (fxl s))))"

lemma set_cases:
  assumes "fxl_set get upd reg pin on s = Some (res, s')"
  obtains (cached) "get (badge_fxl6408_state (fxl s)) = ucast (wanted pin on s)" and "res = ESP_OK"
      and "badge_fxl6408_state (fxl s') = badge_fxl6408_state (fxl s)" and "\<And>r. fxl_dev r s' = fxl_dev r s"
  | (written) "res = ESP_OK" and "badge_fxl6408_state (fxl s') = upd (\<lambda>_. ucast (wanted pin on s)) (badge_fxl6408_state (fxl s))"
      and "\<And>r. fxl_dev r s' = (if r = reg then Some (wanted pin on s) else fxl_dev r s)"
  | (failed) "res \<noteq> ESP_OK" and "unat (get (badge_fxl6408_state (fxl s'))) \<ge> 256"
      and "\<And>g rg. (g, rg) \<in> set fxl_registers \<Longrightarrow> rg \<noteq> reg \<Longrightarrow> g (badge_fxl6408_state (fxl s')) = g (badge_fxl6408_state (fxl s))"
      and "\<And>r. fxl_dev r s' = fxl_dev r s"
proof -
  let ?t = "snd (ext ''xSemaphoreTake'' [badge_fxl6408_mux (fxl s), portMAX_DELAY] s)"
  have t: "badge_fxl6408_state (fxl ?t) = badge_fxl6408_state (fxl s)" "\<And>r. fxl_dev r ?t = fxl_dev r s"
    by simp_all
  show ?thesis
  proof (cases "get (badge_fxl6408_state (fxl s)) = ucast (wanted pin on s)")
    case True
    then show ?thesis using assms cached by (auto simp: fxl_set_def wanted_def)
  next
    case False
    let ?u = "fxl_store upd (\<lambda>_. ucast (wanted pin on s)) ?t"
    obtain s1 where w: "badge_fxl6408_write_reg reg (wanted pin on s) ?u = Some (res, s1)"
      and s': "s' = (let s2 = (if res \<noteq> ESP_OK then fxl_store upd (\<lambda>x. x OR 0x100) s1 else s1)
                     in snd (ext ''xSemaphoreGive'' [badge_fxl6408_mux (fxl s2)] s2))"
      using assms False by (auto simp: fxl_set_def wanted_def bind_eq_Some_conv Let_def split: if_splits)
    have st: "badge_fxl6408_state (fxl s1) = upd (\<lambda>_. ucast (wanted pin on s)) (badge_fxl6408_state (fxl s))"
      using same_statics_D [OF write_reg_spec(1) [OF w]] by simp
    have d: "fxl_dev r s1 = (if res = ESP_OK \<and> r = reg then Some (wanted pin on s) else fxl_dev r s)" for r
      using write_reg_spec(2) [OF w] by simp
    show ?thesis
    proof (cases "res = ESP_OK")
      case True
      then show ?thesis
        using s' st d written by (simp add: Let_def)
    next
      case False
      show ?thesis
      proof (rule failed [OF False])
        show "unat (get (badge_fxl6408_state (fxl s'))) \<ge> 256"
          using s' False marked_ge by (simp add: get_upd Let_def not_less)
        show "g (badge_fxl6408_state (fxl s')) = g (badge_fxl6408_state (fxl s))"
          if "(g, rg) \<in> set fxl_registers" "rg \<noteq> reg" for g rg
          using s' False st others [OF that] by (simp add: Let_def)
        show "fxl_dev r s' = fxl_dev r s" for r
          using s' False d by (simp add: Let_def)
      qed
    qed
  qed
qed

lemma set_coherent:
  assumes "fxl_coherent s" and "fxl_set get upd reg pin on s = Some (res, s')"
  shows "fxl_coherent s'"
  using assms(2)
proof (cases rule: set_cases)
  case cached
  then show ?thesis using assms(1) by (simp add: fxl_coherent_def)
next
  case written
  show ?thesis
    unfolding fxl_coherent_def
  proof (intro ballI, clarify)
    fix g rg
    assume g: "(g, rg) \<in> set fxl_registers" "unat (g (badge_fxl6408_state (fxl s'))) < 256"
    show "fxl_dev rg s' = Some (ucast (g (badge_fxl6408_state (fxl s'))))"
    proof (cases "rg = reg")
      case True
      then have "g = get" using g(1) unique by simp
      then show ?thesis using True written by (simp add: get_upd)
    next
      case False
      then show ?thesis using g assms(1) written others [OF g(1) False] by (auto simp: fxl_coherent_def)
    qed
  qed
next
  case failed
  show ?thesis
    unfolding fxl_coherent_def
  proof (intro ballI, clarify)
    fix g rg
    assume g: "(g, rg) \<in> set fxl_registers" "unat (g (badge_fxl6408_state (fxl s'))) < 256"
    then have "rg \<noteq> reg" using failed(2) unique by auto
    then show "fxl_dev rg s' = Some (ucast (g (badge_fxl6408_state (fxl s'))))"
      using g assms(1) failed(3) [OF g(1)] failed(4) by (auto simp: fxl_coherent_def)
  qed
qed

lemma set_visible:
  assumes "fxl_coherent s" and "fxl_set get upd reg pin on s = Some (ESP_OK, s')"
  shows "fxl_dev reg s' = Some (wanted pin on s)"
  using assms(2)
proof (cases rule: set_cases)
  case cached
  have "unat (get (badge_fxl6408_state (fxl s))) < 256"
    using cached(1) unat_u8_less by simp
  then have "fxl_dev reg s = Some (ucast (get (badge_fxl6408_state (fxl s))))"
    using assms(1) listed unfolding fxl_coherent_def by fastforce
  then show ?thesis using cached by simp
qed simp_all

end

interpretation io_direction: cached_register io_direction io_direction_update "0x03"
  by unfold_locales (auto simp: fxl_registers_def)

interpretation output_state: cached_register output_state output_state_update "0x05"
  by unfold_locales (auto simp: fxl_registers_def)

interpretation output_high_z: cached_register output_high_z output_high_z_update "0x07"
  by unfold_locales (auto simp: fxl_registers_def)

interpretation input_default_state: cached_register input_default_state input_default_state_update "0x09"
  by unfold_locales (auto simp: fxl_registers_def)

interpretation pull_enable: cached_register pull_enable pull_enable_update "0x0b"
  by unfold_locales (auto simp: fxl_registers_def)

interpretation pull_down_up: cached_register pull_down_up pull_down_up_update "0x0d"
  by unfold_locales (auto simp: fxl_registers_def)

interpretation interrupt_mask: cached_register interrupt_mask interrupt_mask_update "0x11"
  by unfold_locales (auto simp: fxl_registers_def)

section \<open>Sequences of operations\<close>

datatype fxl_op =
    Io_direction nat bool | Output_state nat bool | Output_high_z nat bool | Input_default_state nat bool
  | Pull_enable nat bool | Pull_down_up nat bool | Interrupt_enable nat bool

fun fxl_do :: "fxl_op \<Rightarrow> fw \<Rightarrow> (esp_err \<times> fw) option" where
  "fxl_do (Io_direction pin on) s = badge_fxl6408_set_io_direction pin on s"
| "fxl_do (Output_state pin on) s = badge_fxl6408_set_output_state pin on s"
| "fxl_do (Output_high_z pin on) s = badge_fxl6408_set_output_high_z pin on s"
| "fxl_do (Input_default_state pin on) s = badge_fxl6408_set_input_default_state pin on s"
| "fxl_do (Pull_enable pin on) s = badge_fxl6408_set_pull_enable pin on s"
| "fxl_do (Pull_down_up pin on) s = badge_fxl6408_set_pull_down_up pin on s"
| "fxl_do (Interrupt_enable pin on) s = badge_fxl6408_set_interrupt_enable pin on s"


fun fxl_ops :: "fxl_op list \<Rightarrow> fw \<Rightarrow> (esp_err list \<times> fw) option" where
  "fxl_ops [] s = Some ([], s)"
| "fxl_ops (op # ops) s = do { (r, s) \<leftarrow> fxl_do op s; (rs, s) \<leftarrow> fxl_ops ops s; Some (r # rs, s) }"

lemmas fxl_set_defs = badge_fxl6408_set_io_direction_def badge_fxl6408_set_output_state_def badge_fxl6408_set_output_high_z_def
  badge_fxl6408_set_input_default_state_def badge_fxl6408_set_pull_enable_def badge_fxl6408_set_pull_down_up_def
  badge_fxl6408_set_interrupt_enable_def

lemma fxl_do_coherent: "fxl_coherent s \<Longrightarrow> fxl_do op s = Some (res, s') \<Longrightarrow> fxl_coherent s'"
  by (cases op; simp only: fxl_do.simps fxl_set_defs)
    (erule (1) io_direction.set_coherent output_state.set_coherent output_high_z.set_coherent input_default_state.set_coherent
      pull_enable.set_coherent pull_down_up.set_coherent interrupt_mask.set_coherent)+

lemma fxl_set_works:
  assumes "i2c_queueing_works (env s)"
  shows "\<exists>res s'. fxl_set get upd reg pin on s = Some (res, s') \<and> env s' = env s"
proof -
  let ?s = "snd (ext ''xSemaphoreTake'' [badge_fxl6408_mux (fxl s), portMAX_DELAY] s)"
  let ?v = "put_bit pin on (ucast (get (badge_fxl6408_state (fxl ?s))) :: u8)"
  let ?u = "fxl_store upd (\<lambda>_. ucast ?v) ?s"
  have e: "i2c_queueing_works (env ?u)" using assms by simp
  obtain res s1 where w: "badge_fxl6408_write_reg reg ?v ?u = Some (res, s1)"
    using i2c_write_works [OF e] unfolding badge_fxl6408_write_reg_def badge_i2c_write_reg_def by fastforce
  have "env s1 = env s" using same_statics_D(1) [OF write_reg_spec(1) [OF w]] by simp
  then show ?thesis using w by (auto simp: fxl_set_def Let_def)
qed

lemma fxl_do_works: "i2c_queueing_works (env s) \<Longrightarrow> \<exists>res s'. fxl_do op s = Some (res, s') \<and> env s' = env s"
  by (cases op) (simp_all add: fxl_set_defs fxl_set_works)

lemma fxl_ops_coherent: "i2c_queueing_works (env s) \<Longrightarrow> fxl_coherent s \<Longrightarrow>
   \<exists>rs s'. fxl_ops ops s = Some (rs, s') \<and> length rs = length ops \<and> fxl_coherent s'"
proof (induction ops arbitrary: s)
  case Nil
  then show ?case by simp
next
  case (Cons op ops)
  obtain r s1 where 1: "fxl_do op s = Some (r, s1)" "env s1 = env s" using fxl_do_works [OF Cons.prems(1)] by blast
  then have "fxl_coherent s1" using fxl_do_coherent Cons.prems(2) by blast
  then show ?case using Cons.IH [of s1] Cons.prems(1) 1 by auto
qed

section \<open>Initialisation and the cache\<close>

lemma write_reg_result:
  assumes "badge_fxl6408_write_reg reg v s = Some (res, s')"
  shows "all_acked (env s) (trace s') \<Longrightarrow> res = ESP_OK \<and> all_acked (env s) (trace s)" and "silent (env s) \<Longrightarrow> res \<noteq> ESP_OK"
  using assms i2c_write_result [of "fxl6408_addr s" "[reg, v]" s res s']
  by (simp_all add: badge_fxl6408_write_reg_def badge_i2c_write_reg_def)

lemma fxl_writes_spec:
  "fxl_write_all ws s = Some s' \<Longrightarrow>
   same_statics s s' \<and> (silent (env s) \<longrightarrow> (\<forall>r. fxl_dev r s' = fxl_dev r s)) \<and>
   (all_acked (env s) (trace s') \<longrightarrow> all_acked (env s) (trace s) \<and>
     (\<forall>r. fxl_dev r s' = (case map_of (rev ws) r of Some v \<Rightarrow> Some v | None \<Rightarrow> fxl_dev r s)))"
proof (induction ws arbitrary: s)
  case Nil
  then show ?case by simp
next
  case (Cons w ws)
  obtain reg v where w: "w = (reg, v)" by (cases w)
  from Cons.prems obtain s1 res where 1: "badge_fxl6408_write_reg reg v s = Some (res, s1)" and 2: "fxl_write_all ws s1 = Some s'"
    by (auto simp: w bind_eq_Some_conv)
  note IH = Cons.IH [OF 2]
  have st: "same_statics s s1" by (rule write_reg_spec(1) [OF 1])
  have e: "env s1 = env s" by (rule same_statics_D(1) [OF st])
  have "same_statics s s'" using IH st same_statics_trans by blast
  moreover have "fxl_dev r s' = fxl_dev r s" if "silent (env s)" for r
    using IH write_reg_spec(2) [OF 1, of r] write_reg_result(2) [OF 1] that e by simp
  moreover have "all_acked (env s) (trace s)" if "all_acked (env s) (trace s')"
    using IH write_reg_result(1) [OF 1] that e by simp
  moreover have "fxl_dev r s' = (case map_of (rev (w # ws)) r of Some v \<Rightarrow> Some v | None \<Rightarrow> fxl_dev r s)"
    if "all_acked (env s) (trace s')" for r
    using IH write_reg_spec(2) [OF 1, of r] write_reg_result(1) [OF 1] that e
    by (auto simp: w map_add_def split: option.splits)
  ultimately show ?case by blast
qed

lemma read_reg_spec:
  assumes "badge_fxl6408_read_reg reg s = Some (v, s')"
  shows "same_statics s s'" and "fxl_dev r s' = fxl_dev r s"
    and "all_acked (env s) (trace s') \<Longrightarrow> all_acked (env s) (trace s)"
proof -
  obtain rd where 1: "badge_i2c_read_reg (fxl6408_addr s) reg 1 s = Some (rd, s')"
    using assms by (auto simp: badge_fxl6408_read_reg_def bind_eq_Some_conv)
  show st: "same_statics s s'" by (rule i2c_read_spec(1) [OF 1])
  then show "fxl_dev r s' = fxl_dev r s"
    using i2c_read_spec(2) [OF 1, of "fxl6408_addr s" r] by (simp add: fxl_dev_def fxl6408_addr_def macro_def same_statics_D)
  show "all_acked (env s) (trace s') \<Longrightarrow> all_acked (env s) (trace s)" using i2c_read_acked [OF 1] by blast
qed

lemma fxl_reads_spec: "fxl_read_all rs s = Some s' \<Longrightarrow> same_statics s s' \<and> (\<forall>r. fxl_dev r s' = fxl_dev r s) \<and>
   (all_acked (env s) (trace s') \<longrightarrow> all_acked (env s) (trace s))"
proof (induction rs arbitrary: s)
  case Nil
  then show ?case by simp
next
  case (Cons reg rs)
  from Cons.prems obtain s1 v where 1: "badge_fxl6408_read_reg reg s = Some (v, s1)" and 2: "fxl_read_all rs s1 = Some s'"
    by (auto simp: bind_eq_Some_conv)
  show ?case using Cons.IH [OF 2] read_reg_spec [OF 1] same_statics_D(1) [OF read_reg_spec(1) [OF 1]] same_statics_trans by auto
qed

text \<open>
  After the initialisation the cache holds \<open>fxl_init_state\<close> whatever the bus answered; the chip holds
  it when the bus acknowledged, and what it held before when the bus was silent.
\<close>

lemma fxl_configure_spec:
  assumes "fxl_configure s = Some s'"
  shows "badge_fxl6408_state (fxl s') = fxl_init_state" and "env s' = env s"
    and "silent (env s) \<Longrightarrow> fxl_dev r s' = fxl_dev r s"
    and "all_acked (env s) (trace s') \<Longrightarrow> fxl_dev r s' = (case map_of (rev fxl_init_writes) r of Some v \<Rightarrow> Some v | None \<Rightarrow> fxl_dev r s)"
proof -
  from assms obtain s1 s2 where
    1: "fxl_write_all fxl_init_writes s = Some s1"
    and 2: "fxl_read_all fxl_init_reads (snd (ext ''xTaskCreate:badge_fxl6408_intr_task'' [4096, 10]
         (s1\<lparr>fxl := (fxl s1)\<lparr>badge_fxl6408_state := fxl_init_state\<rparr>\<rparr>))) = Some s2"
    and s': "s' = (badge_fxl6408_intr_handler s2)\<lparr>fxl := (fxl (badge_fxl6408_intr_handler s2))\<lparr>badge_fxl6408_init_done := True\<rparr>\<rparr>"
    unfolding fxl_configure_def Let_def by (auto simp: bind_eq_Some_conv simp del: ext_simps)
  note w = fxl_writes_spec [OF 1] and r = fxl_reads_spec [OF 2]
  have h: "fxl (badge_fxl6408_intr_handler s2) = fxl s2" "env (badge_fxl6408_intr_handler s2) = env s2"
    "config (badge_fxl6408_intr_handler s2) = config s2" "fxl_dev r (badge_fxl6408_intr_handler s2) = fxl_dev r s2" for r
    by (simp_all add: badge_fxl6408_intr_handler_def Let_def case_prod_beta)
  have f: "fxl_dev r s' = fxl_dev r (badge_fxl6408_intr_handler s2)" for r
    unfolding s' by (rule fxl_dev_same) simp_all
  have m: "fxl_dev r (s1\<lparr>fxl := x\<rparr>) = fxl_dev r s1" for r x
    by (rule fxl_dev_same) simp_all
  have d: "fxl_dev r s' = fxl_dev r s1" for r
  proof -
    have "fxl_dev r s' = fxl_dev r s2" by (simp only: f h(4))
    also have "\<dots> = fxl_dev r (s1\<lparr>fxl := (fxl s1)\<lparr>badge_fxl6408_state := fxl_init_state\<rparr>\<rparr>)"
      using conjunct2 [OF r] by simp
    finally show ?thesis by (simp only: m)
  qed
  show "badge_fxl6408_state (fxl s') = fxl_init_state"
    using same_statics_D(13) [OF conjunct1 [OF r]] h(1) by (simp add: s')
  show "env s' = env s"
    using same_statics_D(1) [OF conjunct1 [OF r]] same_statics_D(1) [OF conjunct1 [OF w]] h(2) by (simp add: s')
  show "silent (env s) \<Longrightarrow> fxl_dev r s' = fxl_dev r s" using w d by simp
  have ack: "all_acked (env s) (trace s1)" if "all_acked (env s) (trace s')"
  proof -
    have "all_acked (env s) (trace s2)"
      using that by (simp add: s' badge_fxl6408_intr_handler_def Let_def case_prod_beta split: if_splits)
    then show ?thesis using r same_statics_D(1) [OF conjunct1 [OF w]] by simp
  qed
  show "all_acked (env s) (trace s') \<Longrightarrow> fxl_dev r s' = (case map_of (rev fxl_init_writes) r of Some v \<Rightarrow> Some v | None \<Rightarrow> fxl_dev r s)"
    using w d ack by simp
qed

lemma fxl_init_coherent:
  assumes "fxl_configure s = Some s'" and "all_acked (env s) (trace s')"
  shows "fxl_coherent s'"
  unfolding fxl_coherent_def fxl_registers_def fxl_configure_spec(1) [OF assms(1)] fxl_configure_spec(4) [OF assms]
  by (simp add: fxl_init_state_def fxl_init_writes_def)

lemma fxl_init_configures:
  assumes "badge_fxl6408_init s = Some (ESP_OK, s')" and "\<not> badge_fxl6408_init_done (fxl s)"
  obtains s0 where "fxl_configure s0 = Some s'" and "env s0 = env s" and "config s0 = config s"
    and "\<And>e a r. dev_reg e a r (trace s0) = dev_reg e a r (trace s)"
proof -
  have b: "env (snd (badge_base_init t)) = env t" "config (snd (badge_base_init t)) = config t"
      "dev_reg e a r (trace (snd (badge_base_init t))) = dev_reg e a r (trace t)" for t e a r
    by (simp_all add: badge_base_init_def Let_def case_prod_beta)
  have i: "env (snd (badge_i2c_init t)) = env t" "config (snd (badge_i2c_init t)) = config t"
      "dev_reg e a r (trace (snd (badge_i2c_init t))) = dev_reg e a r (trace t)" for t e a r
    by (simp_all add: badge_i2c_init_def Let_def case_prod_beta)
  show ?thesis
    using assms that b i
    by (simp add: badge_fxl6408_init_def Let_def case_prod_beta split: if_splits)
qed


lemma fxl_write_all_works: "i2c_queueing_works (env s) \<Longrightarrow> \<exists>s'. fxl_write_all ws s = Some s' \<and> env s' = env s"
proof (induction ws arbitrary: s)
  case Nil
  then show ?case by simp
next
  case (Cons w ws)
  obtain reg v where w: "w = (reg, v)" by (cases w)
  obtain res s1 where 1: "badge_fxl6408_write_reg reg v s = Some (res, s1)"
    using i2c_write_works [OF Cons.prems] unfolding badge_fxl6408_write_reg_def badge_i2c_write_reg_def by fastforce
  then have "env s1 = env s" using same_statics_D(1) [OF write_reg_spec(1) [OF 1]] by simp
  then show ?case using Cons.IH [of s1] Cons.prems 1 by (simp add: w)
qed

lemma fxl_read_all_works: "i2c_queueing_works (env s) \<Longrightarrow> \<exists>s'. fxl_read_all rs s = Some s' \<and> env s' = env s"
proof (induction rs arbitrary: s)
  case Nil
  then show ?case by simp
next
  case (Cons reg rs)
  obtain v s1 where 1: "badge_fxl6408_read_reg reg s = Some (v, s1)"
    using i2c_read_works [OF Cons.prems, of 1 "fxl6408_addr s" reg]
    by (cases "badge_i2c_read_reg (fxl6408_addr s) reg 1 s") (auto simp: badge_fxl6408_read_reg_def)
  then have "env s1 = env s" using same_statics_D(1) [OF read_reg_spec(1) [OF 1]] by simp
  then show ?case using Cons.IH [of s1] Cons.prems 1 by simp
qed

lemma fxl_configure_works:
  assumes "i2c_queueing_works (env s)"
  shows "\<exists>s'. fxl_configure s = Some s'"
proof -
  obtain s1 where 1: "fxl_write_all fxl_init_writes s = Some s1" "env s1 = env s"
    using fxl_write_all_works [OF assms] by blast
  let ?s = "snd (ext ''xTaskCreate:badge_fxl6408_intr_task'' [4096, 10] (s1\<lparr>fxl := (fxl s1)\<lparr>badge_fxl6408_state := fxl_init_state\<rparr>\<rparr>))"
  have e: "env ?s = env s" using 1(2) by simp
  obtain s2 where 2: "fxl_read_all fxl_init_reads ?s = Some s2"
    using fxl_read_all_works [of ?s] assms e by auto
  show ?thesis
    unfolding fxl_configure_def Let_def using 1 2 by (simp del: ext_simps)
qed

text \<open>When the calls before it succeed, the initialisation returns \<open>ESP_OK\<close>, whatever the chip answers.\<close>

definition fxl_init_succeeds :: "environment \<Rightarrow> bool" where
  "fxl_init_succeeds e \<longleftrightarrow> i2c_queueing_works e \<and>
     (\<forall>f args tr. f \<in> {''gpio_install_isr_service'', ''i2c_param_config'', ''i2c_driver_install'', ''gpio_config''} \<longrightarrow>
        fst (e (Ext f args # tr)) = ESP_OK) \<and>
     (\<forall>f args tr. f \<in> {''xSemaphoreCreateMutex'', ''xSemaphoreCreateBinary''} \<longrightarrow> fst (e (Ext f args # tr)) \<noteq> 0)"

lemma fxl_init_works:
  assumes "fxl_init_succeeds (env s)"
  shows "\<exists>s'. badge_fxl6408_init s = Some (ESP_OK, s')"
proof (cases "badge_fxl6408_init_done (fxl s)")
  case True
  then show ?thesis by (simp add: badge_fxl6408_init_def)
next
  case False
  note ok = assms [unfolded fxl_init_succeeds_def, THEN conjunct2, THEN conjunct1, rule_format]
    and mux = assms [unfolded fxl_init_succeeds_def, THEN conjunct2, THEN conjunct2, rule_format]
    and q = assms [unfolded fxl_init_succeeds_def, THEN conjunct1]
  obtain s1 where b: "badge_base_init s = (ESP_OK, s1)" "env s1 = env s"
    using ok by (cases "badge_base_init_done s") (auto simp: badge_base_init_def Let_def case_prod_beta)
  obtain s2 where i: "badge_i2c_init s1 = (ESP_OK, s2)" "env s2 = env s"
    using ok mux b(2) by (cases "badge_i2c_init_done (i2c s1)") (auto simp: badge_i2c_init_def Let_def case_prod_beta)
  show ?thesis
    using fxl_configure_works q
    by (simp add: badge_fxl6408_init_def False b i ok mux Let_def case_prod_beta)
qed

section \<open>Properties\<close>

text \<open>C4: when the initialisation of the port expander was acknowledged by the chip, any sequence of pin
  operations after it returns, and every cached register value that is not marked as unknown is
  the value the chip holds, whichever of the later writes fail.\<close>

theorem expander_cache_coherent:
  assumes "badge_fxl6408_init s = Some (ESP_OK, s1)" and "\<not> badge_fxl6408_init_done (fxl s)"
    and "all_acked (env s1) (trace s1)" and "i2c_queueing_works (env s1)"
  shows "\<exists>rs s'. fxl_ops ops s1 = Some (rs, s') \<and> length rs = length ops \<and> fxl_coherent s'"
proof -
  obtain s0 where 0: "fxl_configure s0 = Some s1" by (rule fxl_init_configures [OF assms(1,2)])
  then have "fxl_coherent s1" using fxl_init_coherent [OF 0] fxl_configure_spec(2) [OF 0] assms(3) by simp
  then show ?thesis by (rule fxl_ops_coherent [OF assms(4)])
qed

theorem expander_cache_coherent_witness:
  "\<exists>s1. badge_fxl6408_init (power_on calm Map.empty) = Some (ESP_OK, s1) \<and>
     (\<exists>rs s'. fxl_ops [Output_state 3 True, Io_direction 3 True] s1 = Some (rs, s') \<and> length rs = 2 \<and> fxl_coherent s')"
proof -
  have c: "fxl_init_succeeds calm"
    by (simp add: fxl_init_succeeds_def i2c_queueing_works_def calm_def)
  have "env (power_on calm Map.empty) = calm" "\<not> badge_fxl6408_init_done (fxl (power_on calm Map.empty))"
    by (simp_all add: power_on_def)
  with fxl_init_works [of "power_on calm Map.empty"] c obtain s1 where
    1: "badge_fxl6408_init (power_on calm Map.empty) = Some (ESP_OK, s1)" by auto
  have n: "\<not> badge_fxl6408_init_done (fxl (power_on calm Map.empty))" by (simp add: power_on_def)
  obtain s0 where 0: "fxl_configure s0 = Some s1" "env s0 = env (power_on calm Map.empty)"
    by (rule fxl_init_configures [OF 1 n])
  then have e: "env s1 = calm" using fxl_configure_spec(2) [OF 0(1)] by (simp add: power_on_def)
  have "all_acked calm tr" for tr
  proof (induction tr)
    case (Cons c tr)
    then show ?case by (cases c) (simp add: calm_def)
  qed simp
  then have "\<exists>rs s'. fxl_ops [Output_state 3 True, Io_direction 3 True] s1 = Some (rs, s') \<and>
      length rs = length [Output_state 3 True, Io_direction 3 True] \<and> fxl_coherent s'"
    using c by (intro expander_cache_coherent [OF 1 n]) (simp_all add: e fxl_init_succeeds_def)
  with 1 show ?thesis by auto
qed



text \<open>C33: on a bus where no transaction is acknowledged the initialisation of the port expander still answers
  \<open>ESP_OK\<close>, with the cache claiming register values that the chip never received; a pin operation that
  asks for one of them is then answered with \<open>ESP_OK\<close> without a transaction.\<close>

theorem expander_init_on_silent_bus:
  assumes "fxl_init_succeeds (env s)" and "silent (env s)" and "\<not> badge_fxl6408_init_done (fxl s)"
  shows "\<exists>s1. badge_fxl6408_init s = Some (ESP_OK, s1) \<and> badge_fxl6408_state (fxl s1) = fxl_init_state \<and>
     (\<forall>r. fxl_dev r s1 = fxl_dev r s) \<and>
     (\<exists>s2. badge_fxl6408_set_pull_enable pin True s1 = Some (ESP_OK, s2) \<and> (\<forall>r. fxl_dev r s2 = fxl_dev r s))"
proof -
  from fxl_init_works [OF assms(1)] obtain s1 where 1: "badge_fxl6408_init s = Some (ESP_OK, s1)" by blast
  from fxl_init_configures [OF 1 assms(3)] obtain s0 where 0: "fxl_configure s0 = Some s1"
    and e: "env s0 = env s" "config s0 = config s" and t: "\<And>e a r. dev_reg e a r (trace s0) = dev_reg e a r (trace s)" by blast
  have d: "fxl_dev r s1 = fxl_dev r s" for r
    using fxl_configure_spec(3) [OF 0, of r] assms(2) e t by (simp add: fxl_dev_def fxl6408_addr_def macro_def)
  have st: "badge_fxl6408_state (fxl s1) = fxl_init_state" by (rule fxl_configure_spec(1) [OF 0])
  have m: "put_bit pin True (0xff :: u8) = 0xff"
  proof -
    have "(0xff :: u8) = - 1" by code_simp
    then show ?thesis by (simp only: put_bit_def if_True) simp
  qed
  obtain s2 where 2: "badge_fxl6408_set_pull_enable pin True s1 = Some (ESP_OK, s2)" "\<And>r. fxl_dev r s2 = fxl_dev r s1"
    using st by (auto simp: fxl_set_defs fxl_set_def Let_def fxl_init_state_def m)
  from 1 st d 2 show ?thesis by auto
qed

theorem expander_init_on_silent_bus_witness:
  "let s = power_on (\<lambda>tr. if tr \<noteq> [] \<and> ext_name (hd tr) = ''i2c_master_cmd_begin'' then (ESP_FAIL, []) else calm tr) Map.empty in
   \<exists>s1. badge_fxl6408_init s = Some (ESP_OK, s1) \<and> badge_fxl6408_state (fxl s1) = fxl_init_state \<and>
     (\<forall>r. fxl_dev r s1 = fxl_dev r s) \<and>
     (\<exists>s2. badge_fxl6408_set_pull_enable 3 True s1 = Some (ESP_OK, s2) \<and> (\<forall>r. fxl_dev r s2 = fxl_dev r s))"
  unfolding Let_def
  by (rule expander_init_on_silent_bus)
    (simp_all add: fxl_init_succeeds_def i2c_queueing_works_def silent_def calm_def power_on_def)

end
