(* ===== verification/Badge_Mpr121.thy ===== *)
theory Badge_Mpr121
  imports Badge_Input Badge_I2c
begin

text \<open>
  components/badge/badge_mpr121.c: the touch controller, which also serves as a port expander for
  the electrodes 4 to 11.
\<close>

section \<open>Registers\<close>

definition mpr121_addr :: "fw \<Rightarrow> u8" where
  "mpr121_addr s = word_of_int (macro s ''I2C_MPR121_ADDR'')"

definition badge_mpr121_read_reg :: "u8 \<Rightarrow> fw \<Rightarrow> (int \<times> fw) option" where
  "badge_mpr121_read_reg reg s = do {
     ((res, bs), s) \<leftarrow> badge_i2c_read_reg (mpr121_addr s) reg 1 s;
     Some (if res \<noteq> ESP_OK then -1 else uint (hd bs), s)
   }"

definition badge_mpr121_read_regs :: "u8 \<Rightarrow> nat \<Rightarrow> fw \<Rightarrow> ((esp_err \<times> u8 list) \<times> fw) option" where
  "badge_mpr121_read_regs reg data_len s = badge_i2c_read_reg (mpr121_addr s) reg data_len s"

definition badge_mpr121_write_reg :: "u8 \<Rightarrow> u8 \<Rightarrow> fw \<Rightarrow> (esp_err \<times> fw) option" where
  "badge_mpr121_write_reg reg v s = badge_i2c_write_reg (mpr121_addr s) reg v s"

definition badge_mpr121_get_interrupt_status :: "fw \<Rightarrow> (int \<times> fw) option" where
  "badge_mpr121_get_interrupt_status s = do {
     ((res, bs), s) \<leftarrow> badge_mpr121_read_regs 0x00 2 s;
     Some (if res \<noteq> ESP_OK then -1 else int (le_bytes bs), s)
   }"

section \<open>Interrupts\<close>

definition badge_mpr121_intr_handler :: "fw \<Rightarrow> fw" where
  "badge_mpr121_intr_handler s =
     (let (gpio_state, s) = ext ''gpio_get_level'' [macro s ''PIN_NUM_MPR121_INT''] s
      in if gpio_state = 0 then snd (ext ''xSemaphoreGiveFromISR'' [badge_mpr121_intr_trigger (mpr s)] s) else s)"

definition badge_mpr121_set_interrupt_handler :: "nat \<Rightarrow> callback \<Rightarrow> int \<Rightarrow> fw \<Rightarrow> fw option" where
  "badge_mpr121_set_interrupt_handler pin handler arg s =
     (if pin \<ge> 12 then None
      else let store = (\<lambda>s. s\<lparr>mpr := (mpr s)
                 \<lparr>badge_mpr121_handlers := (badge_mpr121_handlers (mpr s))[pin := handler],
                  badge_mpr121_arg := (badge_mpr121_arg (mpr s))[pin := arg]\<rparr>\<rparr>)
           in if badge_mpr121_mux (mpr s) = 0 then Some (store s)
              else let s = snd (ext ''xSemaphoreTake'' [badge_mpr121_mux (mpr s), portMAX_DELAY] s);
                       s = store s
                   in Some (snd (ext ''xSemaphoreGive'' [badge_mpr121_mux (mpr s)] s)))"

text \<open>Reading the status until it can be read; a device that never answers keeps the task here.\<close>

partial_function (option) mpr121_wait_status :: "fw \<Rightarrow> (int \<times> fw) option" where
  "mpr121_wait_status s = do {
     (state, s) \<leftarrow> badge_mpr121_get_interrupt_status s;
     if state \<noteq> -1 then Some (state, s)
     else mpr121_wait_status (snd (ext ''vTaskDelay'' [1000 div macro s ''portTICK_PERIOD_MS''] s))
   }"

text \<open>The handler of electrode \<open>i\<close> runs when its bit has changed; \<open>call\<close> runs a handler.\<close>

definition mpr121_dispatch :: "(callback \<Rightarrow> int \<Rightarrow> bool \<Rightarrow> fw \<Rightarrow> fw option) \<Rightarrow> int \<Rightarrow> int \<Rightarrow> nat \<Rightarrow> fw \<Rightarrow> fw option" where
  "mpr121_dispatch call state old_state i s =
     (if bit state i \<noteq> bit old_state i then do {
        let s = snd (ext ''xSemaphoreTake'' [badge_mpr121_mux (mpr s), portMAX_DELAY] s);
        handler \<leftarrow> nth_opt (badge_mpr121_handlers (mpr s)) i;
        arg \<leftarrow> nth_opt (badge_mpr121_arg (mpr s)) i;
        let s = snd (ext ''xSemaphoreGive'' [badge_mpr121_mux (mpr s)] s);
        if handler \<noteq> CB_null then call handler arg (bit state i) s else Some s
      }
      else Some s)"

definition mpr121_dispatch_all :: "(callback \<Rightarrow> int \<Rightarrow> bool \<Rightarrow> fw \<Rightarrow> fw option) \<Rightarrow> int \<Rightarrow> int \<Rightarrow> fw \<Rightarrow> fw option" where
  "mpr121_dispatch_all call state old_state s =
     foldl (\<lambda>r i. Option.bind r (mpr121_dispatch call state old_state i)) (Some s) [0..<8]"

definition mpr121_over_current :: "int \<Rightarrow> fw \<Rightarrow> fw option" where
  "mpr121_over_current state s =
     (if bit state 15 then do {
        let s = snd (ext ''vTaskDelay'' [1000 div macro s ''portTICK_PERIOD_MS''] s);
        (res, s) \<leftarrow> badge_mpr121_write_reg 0x01 (word_of_int (drop_bit 8 state)) s;
        (res, s) \<leftarrow> badge_mpr121_write_reg 0x5e 0x88 s;
        Some s
      }
      else Some s)"

text \<open>One round of \<open>badge_mpr121_intr_task\<close>: from the old status to the new one.\<close>

definition badge_mpr121_intr_round ::
    "(callback \<Rightarrow> int \<Rightarrow> bool \<Rightarrow> fw \<Rightarrow> fw option) \<Rightarrow> int \<Rightarrow> fw \<Rightarrow> (int \<times> fw) option" where
  "badge_mpr121_intr_round call old_state s =
     (let (t, s) = ext ''xSemaphoreTake'' [badge_mpr121_intr_trigger (mpr s), portMAX_DELAY] s in
      if t \<noteq> 0 then do {
        (state, s) \<leftarrow> mpr121_wait_status s;
        s \<leftarrow> mpr121_dispatch_all call state old_state s;
        s \<leftarrow> mpr121_over_current state s;
        Some (state, s)
      }
      else Some (old_state, s))"

section \<open>Configuration\<close>

text \<open>Writes in sequence, up to the first that fails.\<close>

fun mpr121_writes :: "(u8 \<times> u8) list \<Rightarrow> fw \<Rightarrow> (esp_err \<times> fw) option" where
  "mpr121_writes [] s = Some (ESP_OK, s)"
| "mpr121_writes ((reg, v) # ws) s = do {
     (res, s) \<leftarrow> badge_mpr121_write_reg reg v s;
     if res \<noteq> ESP_OK then Some (res, s) else mpr121_writes ws s
   }"

definition mpr121_conf :: "(u8 \<times> u8) list" where
  "mpr121_conf = [(0x80, 0x63),
     (0x2B, 0x01), (0x2C, 0x01), (0x2D, 0x0E), (0x2E, 0x00),
     (0x2F, 0x01), (0x30, 0x05), (0x31, 0x01), (0x32, 0x00),
     (0x33, 0x00), (0x34, 0x00), (0x35, 0x00),
     (0x5B, 0x00), (0x5C, 0x10), (0x5D, 0x20)]"

definition mpr121_thresholds :: "u32 list option \<Rightarrow> bool \<Rightarrow> nat \<Rightarrow> (u8 \<times> u8) list" where
  "mpr121_thresholds baseline strict i =
     (case baseline of None \<Rightarrow> [] | Some b \<Rightarrow> [(0x1E + of_nat i, ucast (drop_bit 2 (b ! i)))]) @
     [(0x41 + 2 * of_nat i, if strict then 24 else 48), (0x42 + 2 * of_nat i, if strict then 12 else 24)]"

definition badge_mpr121_configure :: "u32 list option \<Rightarrow> bool \<Rightarrow> fw \<Rightarrow> (esp_err \<times> fw) option" where
  "badge_mpr121_configure baseline strict s =
     mpr121_writes (mpr121_conf @ concat (map (mpr121_thresholds baseline strict) [0..<8]) @
       [(0x5e, if baseline = None then 0x88 else 0x48)]) s"

definition badge_mpr121_init :: "fw \<Rightarrow> esp_err \<times> fw" where
  "badge_mpr121_init s =
     (if badge_mpr121_init_done (mpr s) then (ESP_OK, s)
      else let (res, s) = badge_base_init s in
      if res \<noteq> ESP_OK then (res, s)
      else let (res, s) = badge_i2c_init s in
      if res \<noteq> ESP_OK then (res, s)
      else let (m, s) = ext ''xSemaphoreCreateMutex'' [] s;
               s = s\<lparr>mpr := (mpr s)\<lparr>badge_mpr121_mux := m\<rparr>\<rparr> in
      if m = 0 then (ESP_ERR_NO_MEM, s)
      else let (t, s) = ext ''xSemaphoreCreateBinary'' [] s;
               s = s\<lparr>mpr := (mpr s)\<lparr>badge_mpr121_intr_trigger := t\<rparr>\<rparr> in
      if t = 0 then (ESP_ERR_NO_MEM, s)
      else let (res, s) = ext ''gpio_isr_handler_add'' [macro s ''PIN_NUM_MPR121_INT''] s in
      if res \<noteq> ESP_OK then (res, s)
      else let (res, s) = ext ''gpio_config'' [macro s ''PIN_NUM_MPR121_INT''] s in
      if res \<noteq> ESP_OK then (res, s)
      else let s = snd (ext ''xTaskCreate:badge_mpr121_intr_task'' [4096, 10] s);
               s = snd (ext ''xSemaphoreGive'' [badge_mpr121_intr_trigger (mpr s)] s)
           in (ESP_OK, s\<lparr>mpr := (mpr s)\<lparr>badge_mpr121_init_done := True\<rparr>\<rparr>))"

section \<open>Touch information\<close>

record badge_mpr121_touch_info =
  touch_state :: u32
  touch_data :: "u32 list"
  touch_baseline :: "u32 list"
  touch_touch :: "u32 list"
  touch_release :: "u32 list"

text \<open>The error code, or the structure the caller's pointer is filled with.\<close>

definition badge_mpr121_get_touch_info :: "fw \<Rightarrow> ((esp_err + badge_mpr121_touch_info) \<times> fw) option" where
  "badge_mpr121_get_touch_info s = do {
     (v, s) \<leftarrow> badge_mpr121_read_reg 0x00 s;
     if v = -1 then Some (Inl ESP_FAIL, s)
     else do {
       ((res, data), s) \<leftarrow> badge_mpr121_read_regs 0x04 16 s;
       if res \<noteq> ESP_OK then Some (Inl res, s)
       else do {
         ((res, baseline), s) \<leftarrow> badge_mpr121_read_regs 0x1e 8 s;
         if res \<noteq> ESP_OK then Some (Inl res, s)
         else do {
           ((res, touch_release), s) \<leftarrow> badge_mpr121_read_regs 0x41 16 s;
           if res \<noteq> ESP_OK then Some (Inl res, s)
           else Some (Inr
             \<lparr>touch_state = word_of_int v,
              touch_data = map (\<lambda>i. of_nat (le_bytes (take 2 (drop (2 * i) data)))) [0..<8],
              touch_baseline = map (\<lambda>i. ucast (baseline ! i)) [0..<8],
              touch_touch = map (\<lambda>i. ucast (touch_release ! (2 * i))) [0..<8],
              touch_release = map (\<lambda>i. ucast (touch_release ! (2 * i + 1))) [0..<8]\<rparr>, s)
         }
       }
     }
   }"

section \<open>General-purpose pins\<close>

text \<open>The values of \<open>enum badge_mpr121_gpio_config\<close>.\<close>

datatype badge_mpr121_gpio_config =
  MPR121_DISABLED | MPR121_INPUT | MPR121_INPUT_PULL_DOWN | MPR121_INPUT_PULL_UP |
  MPR121_OUTPUT | MPR121_OUTPUT_LOW_ONLY | MPR121_OUTPUT_HIGH_ONLY

fun gpio_config_bits :: "badge_mpr121_gpio_config \<Rightarrow> nat" where
  "gpio_config_bits MPR121_DISABLED = 0x00"
| "gpio_config_bits MPR121_INPUT = 0x08"
| "gpio_config_bits MPR121_INPUT_PULL_DOWN = 0x09"
| "gpio_config_bits MPR121_INPUT_PULL_UP = 0x0b"
| "gpio_config_bits MPR121_OUTPUT = 0x0c"
| "gpio_config_bits MPR121_OUTPUT_LOW_ONLY = 0x0e"
| "gpio_config_bits MPR121_OUTPUT_HIGH_ONLY = 0x0f"

definition mpr_bit_out :: "nat \<Rightarrow> int \<Rightarrow> fw \<Rightarrow> fw" where
  "mpr_bit_out p v s = s\<lparr>mpr := (mpr s)\<lparr>mpr121_gpio_bit_out := (mpr121_gpio_bit_out (mpr s))[p := v]\<rparr>\<rparr>"

text \<open>Reading a register, changing bit \<open>p\<close> of it and writing it back, in sequence; any failure is -1.\<close>

fun mpr121_modify :: "nat \<Rightarrow> (u8 \<times> bool) list \<Rightarrow> fw \<Rightarrow> (int \<times> fw) option" where
  "mpr121_modify p [] s = Some (0, s)"
| "mpr121_modify p ((reg, b) # rs) s = do {
     (v, s) \<leftarrow> badge_mpr121_read_reg reg s;
     if v = -1 then Some (-1, s)
     else do {
       (res, s) \<leftarrow> badge_mpr121_write_reg reg (put_bit p b (word_of_int v)) s;
       if res \<noteq> ESP_OK then Some (-1, s) else mpr121_modify p rs s
     }
   }"

definition badge_mpr121_configure_gpio :: "int \<Rightarrow> badge_mpr121_gpio_config \<Rightarrow> fw \<Rightarrow> (int \<times> fw) option" where
  "badge_mpr121_configure_gpio pin cfg s =
     (if pin < 4 \<or> pin \<ge> 12 then Some (-1, s)
      else let p = nat (pin - 4); c = gpio_config_bits cfg
           in mpr121_modify p [(0x73, bit c 0), (0x74, bit c 1), (0x75, False), (0x76, bit c 2), (0x77, bit c 3)]
                (mpr_bit_out p (-1) s))"

definition badge_mpr121_get_gpio_level :: "int \<Rightarrow> fw \<Rightarrow> (int \<times> fw) option" where
  "badge_mpr121_get_gpio_level pin s =
     (if pin < 4 \<or> pin \<ge> 12 then Some (-1, s)
      else let p = pin AND 7 in do {
        (v, s) \<leftarrow> badge_mpr121_read_reg (if p < 4 then 0x01 else 0x00) s;
        Some (if v = -1 then -1 else of_bool (bit v (nat p)), s)
      })"

definition badge_mpr121_set_gpio_level :: "int \<Rightarrow> int \<Rightarrow> fw \<Rightarrow> (int \<times> fw) option" where
  "badge_mpr121_set_gpio_level pin v s =
     (if pin < 4 \<or> pin \<ge> 12 then Some (ESP_ERR_INVALID_ARG, s)
      else let p = nat (pin - 4) in do {
        old \<leftarrow> nth_opt (mpr121_gpio_bit_out (mpr s)) p;
        if old = v then Some (ESP_OK, s)
        else let s = mpr_bit_out p (-1) s in do {
          (res, s) \<leftarrow> badge_mpr121_write_reg (if v = 0 then 0x79 else 0x78) (push_bit p 1) s;
          Some (res, if res = ESP_OK then mpr_bit_out p (if v = 0 then 0 else 1) s else s)
        }
      })"

end
