(* ===== verification/Badge_Touch.thy ===== *)
theory Badge_Touch
  imports Badge_Fxl6408 Badge_Mpr121
begin

text \<open>
  The other touch controllers: components/badge/badge_cpt112s.c (behind the port expander) and
  badge_disobey_samd.c (the co-processor of the Disobey badge, with its LEDs and buzzer).
\<close>

section \<open>badge_cpt112s.c\<close>

text \<open>
  The three bytes of an event, or -1.  \<open>call\<close> runs the event handler.  The loop ends when the
  interrupt line says that no event is waiting; it retries for ever on errors.
\<close>

definition badge_cpt112s_read_event :: "fw \<Rightarrow> (int \<times> fw) option" where
  "badge_cpt112s_read_event s = do {
     ((ret, buf), s) \<leftarrow> badge_i2c_read_event (word_of_int (macro s ''I2C_CPT112S_ADDR'')) s;
     Some (if ret = ESP_OK
           then (push_bit 16 (uint (buf ! 0)) OR push_bit 8 (uint (buf ! 1))) OR uint (buf ! 2)
           else -1, s)
   }"

partial_function (option) badge_cpt112s_intr_handler :: "(callback \<Rightarrow> int \<Rightarrow> fw \<Rightarrow> fw option) \<Rightarrow> fw \<Rightarrow> fw option" where
  "badge_cpt112s_intr_handler call s = do {
     (x, s) \<leftarrow> badge_fxl6408_get_input s;
     if x = -1 then badge_cpt112s_intr_handler call s
     else if bit x (nat (macro s ''FXL6408_PIN_NUM_CPT112S'')) then Some s
     else do {
       (event, s) \<leftarrow> badge_cpt112s_read_event s;
       if event = -1 then badge_cpt112s_intr_handler call s
       else do {
         s \<leftarrow> (if badge_cpt112s_handler (cpt s) \<noteq> CB_null then call (badge_cpt112s_handler (cpt s)) event s else Some s);
         badge_cpt112s_intr_handler call s
       }
     }
   }"

definition badge_cpt112s_init :: "(callback \<Rightarrow> int \<Rightarrow> fw \<Rightarrow> fw option) \<Rightarrow> fw \<Rightarrow> (esp_err \<times> fw) option" where
  "badge_cpt112s_init call s =
     (if badge_cpt112s_init_done (cpt s) then Some (ESP_OK, s)
      else let pin = nat (macro s ''FXL6408_PIN_NUM_CPT112S'') in do {
        s \<leftarrow> badge_fxl6408_set_interrupt_handler pin CB_cpt112s_intr 0 s;
        (res, s) \<leftarrow> badge_fxl6408_init s;
        if res \<noteq> ESP_OK then Some (res, s)
        else do {
          (res, s) \<leftarrow> badge_fxl6408_set_input_default_state pin True s;
          if res \<noteq> ESP_OK then Some (res, s)
          else do {
            (res, s) \<leftarrow> badge_fxl6408_set_interrupt_enable pin True s;
            if res \<noteq> ESP_OK then Some (res, s)
            else do {
              s \<leftarrow> badge_cpt112s_intr_handler call s;
              Some (ESP_OK, s\<lparr>cpt := (cpt s)\<lparr>badge_cpt112s_init_done := True\<rparr>\<rparr>)
            }
          }
        }
      })"

definition badge_cpt112s_set_event_handler :: "callback \<Rightarrow> fw \<Rightarrow> fw" where
  "badge_cpt112s_set_event_handler handler s = s\<lparr>cpt := (cpt s)\<lparr>badge_cpt112s_handler := handler\<rparr>\<rparr>"

section \<open>badge_disobey_samd.c\<close>

definition samd_addr :: "fw \<Rightarrow> u8" where
  "samd_addr s = word_of_int (macro s ''I2C_DISOBEY_SAMD_ADDR'')"

definition badge_disobey_samd_read_state :: "fw \<Rightarrow> (int \<times> fw) option" where
  "badge_disobey_samd_read_state s = do {
     ((res, state), s) \<leftarrow> badge_i2c_read_reg (samd_addr s) 0 2 s;
     Some (if res \<noteq> ESP_OK then -1 else uint (state ! 0) + push_bit 8 (uint (state ! 1)), s)
   }"

definition badge_disobey_samd_read_touch :: "fw \<Rightarrow> (int \<times> fw) option" where
  "badge_disobey_samd_read_touch s = do { (v, s) \<leftarrow> badge_disobey_samd_read_state s; Some (v AND 0x3F, s) }"

definition badge_disobey_samd_read_usb :: "fw \<Rightarrow> (int \<times> fw) option" where
  "badge_disobey_samd_read_usb s = do { (v, s) \<leftarrow> badge_disobey_samd_read_state s; Some (drop_bit 6 v AND 0x01, s) }"

definition badge_disobey_samd_read_battery :: "fw \<Rightarrow> (int \<times> fw) option" where
  "badge_disobey_samd_read_battery s = do { (v, s) \<leftarrow> badge_disobey_samd_read_state s; Some (drop_bit 8 v AND 0xFF, s) }"

definition badge_disobey_samd_write_reg :: "u8 \<Rightarrow> u8 \<Rightarrow> fw \<Rightarrow> (esp_err \<times> fw) option" where
  "badge_disobey_samd_write_reg reg v s = badge_i2c_write_reg (samd_addr s) reg v s"

definition badge_disobey_samd_write_reg32 :: "u8 \<Rightarrow> u32 \<Rightarrow> fw \<Rightarrow> (esp_err \<times> fw) option" where
  "badge_disobey_samd_write_reg32 reg v s = badge_i2c_write_reg32 (samd_addr s) reg v s"

definition badge_disobey_samd_write_backlight :: "u8 \<Rightarrow> fw \<Rightarrow> (esp_err \<times> fw) option" where
  "badge_disobey_samd_write_backlight v = badge_disobey_samd_write_reg 0x02 v"

definition badge_disobey_samd_write_led :: "u8 \<Rightarrow> u8 \<Rightarrow> u8 \<Rightarrow> u8 \<Rightarrow> fw \<Rightarrow> (esp_err \<times> fw) option" where
  "badge_disobey_samd_write_led led r g b =
     badge_disobey_samd_write_reg32 0x01 (ucast led + push_bit 8 (ucast r) + push_bit 16 (ucast g) + push_bit 24 (ucast b))"

definition badge_disobey_samd_write_buzzer :: "u16 \<Rightarrow> u16 \<Rightarrow> fw \<Rightarrow> (esp_err \<times> fw) option" where
  "badge_disobey_samd_write_buzzer freq duration =
     badge_disobey_samd_write_reg32 0x03 (ucast freq + push_bit 16 (ucast duration))"

definition badge_disobey_samd_write_off :: "fw \<Rightarrow> (esp_err \<times> fw) option" where
  "badge_disobey_samd_write_off = badge_disobey_samd_write_reg32 0x04 0"

text \<open>One round of \<open>badge_disobey_samd_intr_task\<close>.  The retry loop is kept although it never retries.\<close>

partial_function (option) samd_wait_touch :: "fw \<Rightarrow> (int \<times> fw) option" where
  "samd_wait_touch s = do {
     (state, s) \<leftarrow> badge_disobey_samd_read_touch s;
     if state \<noteq> -1 then Some (state, s)
     else samd_wait_touch (snd (ext ''vTaskDelay'' [1000 div macro s ''portTICK_PERIOD_MS''] s))
   }"

text \<open>The bits 0 to 5 that are set in \<open>a\<close> and clear in \<open>b\<close>.\<close>

definition samd_edges :: "int \<Rightarrow> int \<Rightarrow> int" where
  "samd_edges a b = foldl (\<lambda>v i. if bit a i \<and> \<not> bit b i then v OR push_bit i 1 else v) 0 [0..<6]"

definition badge_disobey_samd_intr_round ::
    "(callback \<Rightarrow> int \<Rightarrow> int \<Rightarrow> fw \<Rightarrow> fw option) \<Rightarrow> int \<Rightarrow> fw \<Rightarrow> (int \<times> fw) option" where
  "badge_disobey_samd_intr_round call old_state s =
     (let (t, s) = ext ''xSemaphoreTake'' [badge_disobey_samd_intr_trigger (samd s), portMAX_DELAY] s in
      if t \<noteq> 0 then do {
        (state, s) \<leftarrow> samd_wait_touch s;
        s \<leftarrow> (if state \<noteq> old_state
              then let s = snd (ext ''xSemaphoreTake'' [badge_disobey_samd_mux (samd s), portMAX_DELAY] s);
                       handler = badge_disobey_samd_handler (samd s);
                       s = snd (ext ''xSemaphoreGive'' [badge_disobey_samd_mux (samd s)] s)
                   in if handler \<noteq> CB_null then call handler (samd_edges state old_state) (samd_edges old_state state) s else Some s
              else Some s);
        Some (state, s)
      }
      else Some (old_state, s))"

definition badge_disobey_samd_intr_handler :: "fw \<Rightarrow> fw" where
  "badge_disobey_samd_intr_handler s =
     (let (gpio_state, s) = ext ''gpio_get_level'' [macro s ''PIN_NUM_DISOBEY_SAMD_INT''] s
      in if gpio_state = 0 then snd (ext ''xSemaphoreGiveFromISR'' [badge_disobey_samd_intr_trigger (samd s)] s) else s)"

definition badge_disobey_samd_init :: "fw \<Rightarrow> esp_err \<times> fw" where
  "badge_disobey_samd_init s =
     (if badge_disobey_samd_init_done (samd s) then (ESP_OK, s)
      else let (res, s) = badge_base_init s in
      if res \<noteq> ESP_OK then (res, s)
      else let (res, s) = badge_i2c_init s in
      if res \<noteq> ESP_OK then (res, s)
      else let (m, s) = ext ''xSemaphoreCreateMutex'' [] s;
               s = s\<lparr>samd := (samd s)\<lparr>badge_disobey_samd_mux := m\<rparr>\<rparr> in
      if m = 0 then (ESP_ERR_NO_MEM, s)
      else let (t, s) = ext ''xSemaphoreCreateBinary'' [] s;
               s = s\<lparr>samd := (samd s)\<lparr>badge_disobey_samd_intr_trigger := t\<rparr>\<rparr> in
      if t = 0 then (ESP_ERR_NO_MEM, s)
      else let (res, s) = ext ''gpio_isr_handler_add'' [macro s ''PIN_NUM_DISOBEY_SAMD_INT''] s in
      if res \<noteq> ESP_OK then (res, s)
      else let (res, s) = ext ''gpio_config'' [macro s ''PIN_NUM_DISOBEY_SAMD_INT''] s in
      if res \<noteq> ESP_OK then (res, s)
      else let s = snd (ext ''xTaskCreate:badge_disobey_samd_intr_task'' [4096, 10] s);
               s = snd (ext ''xSemaphoreGive'' [badge_disobey_samd_intr_trigger (samd s)] s)
           in (ESP_OK, s\<lparr>samd := (samd s)\<lparr>badge_disobey_samd_init_done := True\<rparr>\<rparr>))"

definition badge_disobey_samd_set_interrupt_handler :: "callback \<Rightarrow> fw \<Rightarrow> fw" where
  "badge_disobey_samd_set_interrupt_handler handler s =
     (let store = (\<lambda>s. s\<lparr>samd := (samd s)\<lparr>badge_disobey_samd_handler := handler\<rparr>\<rparr>)
      in if badge_disobey_samd_mux (samd s) = 0 then store s
         else let s = snd (ext ''xSemaphoreTake'' [badge_disobey_samd_mux (samd s), portMAX_DELAY] s);
                  s = store s
              in snd (ext ''xSemaphoreGive'' [badge_disobey_samd_mux (samd s)] s))"

text \<open>The error code, or the touch state.\<close>

definition badge_disobey_samd_get_touch_info :: "fw \<Rightarrow> ((esp_err + int) \<times> fw) option" where
  "badge_disobey_samd_get_touch_info s = do {
     (v, s) \<leftarrow> badge_disobey_samd_read_touch s;
     Some (if v = -1 then Inl ESP_FAIL else Inr v, s)
   }"

end
