(* ===== verification/Badge_Spi.thy ===== *)
theory Badge_Spi
  imports Badge_Input
begin

text \<open>
  The VSPI bus, which the LED strip and the e-ink display share: components/badge/badge_spi.c, the
  claim and release functions of badge_leds.c, and badge_eink_dev.c.

  \<open>badge_vspi_release\<close> is the release function of the driver that holds the bus.
\<close>

section \<open>badge_spi.c\<close>

definition badge_vspi_init :: "fw \<Rightarrow> esp_err \<times> fw" where
  "badge_vspi_init s = (ESP_OK, s)"

definition badge_vspi_freed :: "fw \<Rightarrow> fw" where
  "badge_vspi_freed s = s\<lparr>badge_vspi_release := CB_null\<rparr>"

text \<open>\<open>VSPI_HOST\<close> is 2.  A device handle that \<open>spi_bus_add_device\<close> stores is not null.\<close>

definition new_handle :: "u8 list \<Rightarrow> int" where
  "new_handle bs = 1 + int (le_bytes (take 4 bs))"

section \<open>Releasing the bus\<close>

definition badge_leds_release_spi :: "fw \<Rightarrow> esp_err \<times> fw" where
  "badge_leds_release_spi s =
     (let (res, s) = ext ''spi_bus_remove_device'' [badge_leds_spi (leds s)] s in
      if res \<noteq> ESP_OK then (res, s)
      else let s = s\<lparr>leds := (leds s)\<lparr>badge_leds_spi := 0\<rparr>\<rparr>;
               (res, s) = ext ''spi_bus_free'' [2] s in
      if res \<noteq> ESP_OK then (res, s)
      else (ESP_OK, badge_vspi_freed s))"

definition badge_eink_dev_release_spi :: "fw \<Rightarrow> (esp_err \<times> fw) option" where
  "badge_eink_dev_release_spi s = do {
     s \<leftarrow> checked ''spi_bus_remove_device'' [spi_bus (edev s)] s;
     let s = s\<lparr>edev := (edev s)\<lparr>spi_bus := 0\<rparr>\<rparr>;
     s \<leftarrow> checked ''spi_bus_free'' [2] s;
     Some (ESP_OK, badge_vspi_freed s)
   }"

text \<open>The call through the pointer \<open>badge_vspi_release\<close>.\<close>

fun call_release :: "callback \<Rightarrow> fw \<Rightarrow> (esp_err \<times> fw) option" where
  "call_release CB_leds_release s = Some (badge_leds_release_spi s)"
| "call_release CB_eink_release s = badge_eink_dev_release_spi s"
| "call_release (CB_user f) s = Some (ext ''callback'' [f] s)"
| "call_release _ s = None"

definition badge_vspi_release_and_claim :: "callback \<Rightarrow> fw \<Rightarrow> (esp_err \<times> fw) option" where
  "badge_vspi_release_and_claim release s =
     (if badge_vspi_release s = CB_null then Some (ESP_OK, s\<lparr>badge_vspi_release := release\<rparr>)
      else do {
        (res, s) \<leftarrow> call_release (badge_vspi_release s) s;
        if badge_vspi_release s = CB_null \<and> res = ESP_OK then Some (res, s\<lparr>badge_vspi_release := release\<rparr>)
        else if res = ESP_OK then Some (ESP_FAIL, s)
        else Some (res, s)
      })"

section \<open>Claiming the bus\<close>

text \<open>The result of \<open>badge_vspi_release_and_claim\<close> is not looked at.\<close>

definition badge_leds_claim_spi :: "fw \<Rightarrow> (esp_err \<times> fw) option" where
  "badge_leds_claim_spi s =
     (if badge_leds_spi (leds s) \<noteq> 0 then Some (ESP_OK, s)
      else do {
        (_, s) \<leftarrow> badge_vspi_release_and_claim CB_leds_release s;
        let (res, s) = ext ''spi_bus_initialize'' [2, macro s ''PIN_NUM_LEDS'', -1, 1] s;
        if res \<noteq> ESP_OK then Some (res, s)
        else let ((res, bs), s) = ext_bytes ''spi_bus_add_device'' [2, 3200000, -1] s in
             if res \<noteq> ESP_OK then Some (res, s)
             else Some (ESP_OK, s\<lparr>leds := (leds s)\<lparr>badge_leds_spi := new_handle bs\<rparr>\<rparr>)
      })"

definition badge_eink_dev_claim_spi :: "fw \<Rightarrow> (esp_err \<times> fw) option" where
  "badge_eink_dev_claim_spi s =
     (if spi_bus (edev s) \<noteq> 0 then Some (ESP_OK, s)
      else do {
        (_, s) \<leftarrow> badge_vspi_release_and_claim CB_eink_release s;
        s \<leftarrow> checked ''spi_bus_initialize'' [2, macro s ''PIN_NUM_EPD_MOSI'', macro s ''PIN_NUM_EPD_CLK'', 2] s;
        let ((res, bs), s) = ext_bytes ''spi_bus_add_device'' [2, 20000000, macro s ''PIN_NUM_EPD_CS''] s;
        if res = ESP_OK then Some (res, s\<lparr>edev := (edev s)\<lparr>spi_bus := new_handle bs\<rparr>\<rparr>) else None
      })"

section \<open>badge_eink_dev.c\<close>

text \<open>Without \<open>PIN_NUM_EPD_RESET\<close> the functions of the display are empty.\<close>

definition has_eink :: "fw \<Rightarrow> bool" where
  "has_eink s = defined_in s ''PIN_NUM_EPD_RESET''"

definition badge_eink_dev_reset :: "fw \<Rightarrow> esp_err \<times> fw" where
  "badge_eink_dev_reset s =
     (if \<not> has_eink s then (ESP_OK, s)
      else let (res, s) = ext ''gpio_set_level'' [macro s ''PIN_NUM_EPD_RESET'', 0] s in
      if res \<noteq> ESP_OK then (res, s)
      else let s = snd (ext ''ets_delay_us'' [200000] s);
               (res, s) = ext ''gpio_set_level'' [macro s ''PIN_NUM_EPD_RESET'', 1] s in
      if res \<noteq> ESP_OK then (res, s)
      else (ESP_OK, snd (ext ''ets_delay_us'' [200000] s)))"

definition badge_eink_dev_is_busy :: "fw \<Rightarrow> bool \<times> fw" where
  "badge_eink_dev_is_busy s =
     (if \<not> has_eink s then (False, s)
      else let (v, s) = ext ''gpio_get_level'' [macro s ''PIN_NUM_EPD_BUSY''] s in (v \<noteq> 0, s))"

text \<open>The wait has no time-out: it ends only if the display becomes ready.\<close>

partial_function (option) badge_eink_dev_busy_wait :: "fw \<Rightarrow> fw option" where
  "badge_eink_dev_busy_wait s =
     (let (busy, s) = badge_eink_dev_is_busy s in
      if busy
      then badge_eink_dev_busy_wait
             (snd (ext ''xSemaphoreTake'' [badge_eink_dev_intr_trigger (edev s), 100 div macro s ''portTICK_PERIOD_MS''] s))
      else Some s)"

definition badge_eink_dev_intr_handler :: "fw \<Rightarrow> fw" where
  "badge_eink_dev_intr_handler s =
     (let s = (if defined_in s ''PIN_NUM_LED''
               then let (gpio_state, s) = ext ''gpio_get_level'' [macro s ''PIN_NUM_EPD_BUSY''] s
                    in snd (ext ''gpio_set_level'' [macro s ''PIN_NUM_LED'', 1 - gpio_state] s)
               else s)
      in snd (ext ''xSemaphoreGiveFromISR'' [badge_eink_dev_intr_trigger (edev s)] s))"

text \<open>The pre-transfer callback sets the data/command line; the transmission carries the data.\<close>

definition badge_spi_pre_transfer_callback :: "int \<Rightarrow> fw \<Rightarrow> fw" where
  "badge_spi_pre_transfer_callback dc_level s = snd (ext ''gpio_set_level'' [macro s ''PIN_NUM_EPD_DATA'', dc_level] s)"

definition badge_spi_send :: "u8 list \<Rightarrow> int \<Rightarrow> fw \<Rightarrow> fw option" where
  "badge_spi_send data dc_level s =
     (if data = [] then Some s
      else do {
        (ret, s) \<leftarrow> badge_eink_dev_claim_spi s;
        if ret \<noteq> ESP_OK then None
        else checked ''spi_device_transmit'' (spi_bus (edev s) # map uint data) (badge_spi_pre_transfer_callback dc_level s)
      })"

definition badge_eink_dev_write_command :: "u8 \<Rightarrow> fw \<Rightarrow> fw option" where
  "badge_eink_dev_write_command command s =
     (if \<not> has_eink s then Some s
      else do { s \<leftarrow> badge_eink_dev_busy_wait s; badge_spi_send [command] 0 s })"

definition badge_eink_dev_write_byte :: "u8 \<Rightarrow> fw \<Rightarrow> fw option" where
  "badge_eink_dev_write_byte data s =
     (if \<not> has_eink s then Some s
      else do { s \<leftarrow> badge_eink_dev_busy_wait s; badge_spi_send [data] 1 s })"

text \<open>\<open>badge_eink_dev_write_command_p1\<close> to \<open>_p4\<close>: a command with its parameter bytes.\<close>

definition badge_eink_dev_write_command_p :: "u8 \<Rightarrow> u8 list \<Rightarrow> fw \<Rightarrow> fw option" where
  "badge_eink_dev_write_command_p command ps s =
     foldl (\<lambda>r p. Option.bind r (badge_eink_dev_write_byte p)) (badge_eink_dev_write_command command s) ps"

definition badge_eink_dev_write_command_stream :: "u8 \<Rightarrow> u8 list \<Rightarrow> fw \<Rightarrow> fw option" where
  "badge_eink_dev_write_command_stream command data s =
     (if \<not> has_eink s then Some s
      else do { s \<leftarrow> badge_eink_dev_write_command command s; badge_spi_send data 1 s })"

definition memcpy_u8_u32 :: "u32 list \<Rightarrow> u8 list" where
  "memcpy_u8_u32 src = concat (map (\<lambda>w. [ucast (drop_bit 24 w), ucast (drop_bit 16 w), ucast (drop_bit 8 w), ucast w]) src)"

abbreviation SPI_TRANSFER_SIZE :: nat where "SPI_TRANSFER_SIZE \<equiv> 128"

text \<open>
  \<open>tmpbuf\<close> says whether \<open>heap_caps_malloc\<close> found memory: a failure is logged, and the copy then
  writes through a null pointer.
\<close>

function stream_u32_loop :: "bool \<Rightarrow> u8 \<Rightarrow> u32 list \<Rightarrow> fw \<Rightarrow> fw option" where
  "stream_u32_loop tmpbuf command data s =
     (if data = [] then Some s
      else if \<not> tmpbuf then None
      else do {
        s \<leftarrow> badge_eink_dev_write_command command s;
        s \<leftarrow> badge_spi_send (memcpy_u8_u32 (take (SPI_TRANSFER_SIZE div 4) data)) 1 s;
        stream_u32_loop tmpbuf command (drop (SPI_TRANSFER_SIZE div 4) data) s
      })"
  by pat_completeness auto
termination
  by (relation "measure (\<lambda>(t, c, d, s). length d)") auto

declare stream_u32_loop.simps [simp del]

definition badge_eink_dev_write_command_stream_u32 :: "u8 \<Rightarrow> u32 list \<Rightarrow> fw \<Rightarrow> fw option" where
  "badge_eink_dev_write_command_stream_u32 command data s =
     (if \<not> has_eink s then Some s
      else do {
        let (p, s) = ext ''heap_caps_malloc'' [int SPI_TRANSFER_SIZE] s;
        s \<leftarrow> stream_u32_loop (p \<noteq> 0) command data s;
        Some (snd (ext ''heap_caps_free'' [p] s))
      })"

text \<open>Calls in sequence, up to the first that does not answer \<open>ESP_OK\<close>.\<close>

fun ext_sequence :: "(string \<times> int list) list \<Rightarrow> fw \<Rightarrow> esp_err \<times> fw" where
  "ext_sequence [] s = (ESP_OK, s)"
| "ext_sequence ((f, args) # cs) s =
     (let (res, s) = ext f args s in if res \<noteq> ESP_OK then (res, s) else ext_sequence cs s)"

definition badge_eink_dev_init :: "badge_eink_dev_t \<Rightarrow> fw \<Rightarrow> esp_err \<times> fw" where
  "badge_eink_dev_init dev_type s =
     (if \<not> has_eink s then (ESP_OK, s)
      else if badge_eink_dev_init_done (edev s) then (ESP_OK, s)
      else let s = snd (badge_vspi_init s);
               s = s\<lparr>edev := (edev s)\<lparr>badge_eink_dev_type := dev_type\<rparr>\<rparr>;
               (res, s) = badge_base_init s in
      if res \<noteq> ESP_OK then (res, s)
      else let (res, s) = (if defined_in s ''PIN_NUM_LED''
                           then ext ''gpio_set_direction'' [macro s ''PIN_NUM_LED'', 2]
                                  (snd (ext ''gpio_pad_select_gpio'' [macro s ''PIN_NUM_LED''] s))
                           else (ESP_OK, s)) in
      if res \<noteq> ESP_OK then (res, s)
      else let (t, s) = ext ''xSemaphoreCreateBinary'' [] s;
               s = s\<lparr>edev := (edev s)\<lparr>badge_eink_dev_intr_trigger := t\<rparr>\<rparr> in
      if t = 0 then (ESP_ERR_NO_MEM, s)
      else let (res, s) = ext_sequence
                 [(''gpio_isr_handler_add'', [macro s ''PIN_NUM_EPD_BUSY'']),
                  (''gpio_config'', [macro s ''PIN_NUM_EPD_BUSY'']),
                  (''gpio_set_direction'', [macro s ''PIN_NUM_EPD_CS'', 2]),
                  (''gpio_set_direction'', [macro s ''PIN_NUM_EPD_DATA'', 2]),
                  (''gpio_set_direction'', [macro s ''PIN_NUM_EPD_RESET'', 2]),
                  (''gpio_set_direction'', [macro s ''PIN_NUM_EPD_BUSY'', 1])] s in
      if res \<noteq> ESP_OK then (res, s)
      else (ESP_OK, s\<lparr>edev := (edev s)\<lparr>badge_eink_dev_init_done := True\<rparr>\<rparr>))"

end
