(* ===== verification/Badge_Power.thy ===== *)
theory Badge_Power
  imports Badge_Touch Badge_Spi
begin

text \<open>
  The devices that sit behind a port expander or a GPIO: components/badge/badge_power.c (battery and
  USB sense, the power line the LEDs and the SD card share), badge_leds.c, badge_vibrator.c and
  badge_sdcard.c.
\<close>

section \<open>badge_power.c\<close>

definition adc_millivolt :: "string \<Rightarrow> fw \<Rightarrow> int \<times> fw" where
  "adc_millivolt chan s =
     (let (val, s) = ext ''adc1_get_raw'' [macro s chan] s
      in (if val = -1 then -1 else drop_bit 12 (val * 22 * 9 * 32), s))"

definition badge_battery_volt_sense :: "fw \<Rightarrow> (int \<times> fw) option" where
  "badge_battery_volt_sense s =
     (if defined_in s ''ADC1_CHAN_VBAT_SENSE'' then Some (adc_millivolt ''ADC1_CHAN_VBAT_SENSE'' s)
      else if defined_in s ''I2C_DISOBEY_SAMD_ADDR'' then badge_disobey_samd_read_battery s
      else Some (-1, s))"

definition badge_usb_volt_sense :: "fw \<Rightarrow> (int \<times> fw) option" where
  "badge_usb_volt_sense s =
     (if defined_in s ''ADC1_CHAN_VUSB_SENSE'' then Some (adc_millivolt ''ADC1_CHAN_VUSB_SENSE'' s)
      else if defined_in s ''I2C_DISOBEY_SAMD_ADDR''
      then do { (v, s) \<leftarrow> badge_disobey_samd_read_usb s; Some (v * 5000, s) }
      else Some (-1, s))"

definition badge_battery_charge_status :: "fw \<Rightarrow> (bool \<times> fw) option" where
  "badge_battery_charge_status s =
     (if defined_in s ''FXL6408_PIN_NUM_CHRGSTAT''
      then do { (v, s) \<leftarrow> badge_fxl6408_get_input s; Some (\<not> bit v (nat (macro s ''FXL6408_PIN_NUM_CHRGSTAT'')), s) }
      else if defined_in s ''MPR121_PIN_NUM_CHRGSTAT''
      then do { (v, s) \<leftarrow> badge_mpr121_get_gpio_level (macro s ''MPR121_PIN_NUM_CHRGSTAT'') s; Some (v = 0, s) }
      else Some (False, s))"

text \<open>An output that is wired to the port expander or to the touch controller, by the macros of the build.\<close>

definition set_expander_pin :: "string \<Rightarrow> string \<Rightarrow> bool \<Rightarrow> fw \<Rightarrow> (esp_err \<times> fw) option" where
  "set_expander_pin fxl_pin mpr_pin on s =
     (if defined_in s fxl_pin then badge_fxl6408_set_output_state (nat (macro s fxl_pin)) on s
      else if defined_in s mpr_pin then badge_mpr121_set_gpio_level (macro s mpr_pin) (of_bool on) s
      else Some (ESP_OK, s))"

definition badge_power_sdcard_leds_enable :: "fw \<Rightarrow> (esp_err \<times> fw) option" where
  "badge_power_sdcard_leds_enable = set_expander_pin ''FXL6408_PIN_NUM_LEDS'' ''MPR121_PIN_NUM_LEDS'' True"

definition sd_led_pins :: "fw \<Rightarrow> int list" where
  "sd_led_pins s = map (macro s) (filter (defined_in s) [''PIN_NUM_LEDS'']) @
     map (macro s) [''PIN_NUM_SD_CLK'', ''PIN_NUM_SD_CMD'', ''PIN_NUM_SD_DATA_0''] @
     (if defined_in s ''PIN_NUM_SD_DATA_1'' then map (macro s) [''PIN_NUM_SD_DATA_1'', ''PIN_NUM_SD_DATA_2''] else []) @
     [macro s ''PIN_NUM_SD_DATA_3'']"

definition badge_power_sdcard_leds_disable :: "fw \<Rightarrow> (esp_err \<times> fw) option" where
  "badge_power_sdcard_leds_disable s =
     (let (res, s) = (if defined_in s ''PIN_NUM_SD_CLK'' then ext ''gpio_config'' (sd_led_pins s) s else (ESP_OK, s)) in
      if res \<noteq> ESP_OK then Some (res, s)
      else set_expander_pin ''FXL6408_PIN_NUM_LEDS'' ''MPR121_PIN_NUM_LEDS'' False s)"

definition set_power_users :: "int \<Rightarrow> fw \<Rightarrow> fw" where
  "set_power_users v s = s\<lparr>pwr := (pwr s)\<lparr>badge_power_leds_sdcard := v\<rparr>\<rparr>"

text \<open>
  \<open>badge_power_leds_enable\<close> and \<open>badge_power_sdcard_enable\<close> differ in the bit of the user (1 and 2)
  alone; so do the two functions that disable.
\<close>

definition power_enable :: "int \<Rightarrow> fw \<Rightarrow> (esp_err \<times> fw) option" where
  "power_enable user s =
     (let users = badge_power_leds_sdcard (pwr s) in
      if users AND user \<noteq> 0 then Some (ESP_OK, s)
      else if users \<noteq> 0 then Some (ESP_OK, set_power_users (users OR user) s)
      else do {
        (ret, s) \<leftarrow> badge_power_sdcard_leds_enable s;
        Some (ret, if ret = ESP_OK then set_power_users user s else s)
      })"

definition power_disable :: "int \<Rightarrow> fw \<Rightarrow> (esp_err \<times> fw) option" where
  "power_disable user s =
     (let users = badge_power_leds_sdcard (pwr s) in
      if users AND user = 0 then Some (ESP_OK, s)
      else if users \<noteq> user then Some (ESP_OK, set_power_users (users AND NOT user) s)
      else do {
        (ret, s) \<leftarrow> badge_power_sdcard_leds_disable s;
        Some (ret, if ret = ESP_OK then set_power_users 0 s else s)
      })"

definition badge_power_leds_enable :: "fw \<Rightarrow> (esp_err \<times> fw) option" where
  "badge_power_leds_enable = power_enable 1"

definition badge_power_leds_disable :: "fw \<Rightarrow> (esp_err \<times> fw) option" where
  "badge_power_leds_disable = power_disable 1"

definition badge_power_sdcard_enable :: "fw \<Rightarrow> (esp_err \<times> fw) option" where
  "badge_power_sdcard_enable = power_enable 2"

definition badge_power_sdcard_disable :: "fw \<Rightarrow> (esp_err \<times> fw) option" where
  "badge_power_sdcard_disable = power_disable 2"

text \<open>Steps in sequence, up to the first that does not answer \<open>ESP_OK\<close>.\<close>

fun steps :: "(fw \<Rightarrow> (esp_err \<times> fw) option) list \<Rightarrow> fw \<Rightarrow> (esp_err \<times> fw) option" where
  "steps [] s = Some (ESP_OK, s)"
| "steps (f # fs) s = do { (res, s) \<leftarrow> f s; if res \<noteq> ESP_OK then Some (res, s) else steps fs s }"

text \<open>An input without pull and without interrupt; an output that is low.\<close>

definition fxl_input_steps :: "nat \<Rightarrow> (fw \<Rightarrow> (esp_err \<times> fw) option) list" where
  "fxl_input_steps pin = [badge_fxl6408_set_io_direction pin False, badge_fxl6408_set_input_default_state pin False,
     badge_fxl6408_set_pull_enable pin False, badge_fxl6408_set_interrupt_enable pin False]"

definition fxl_output_steps :: "nat \<Rightarrow> (fw \<Rightarrow> (esp_err \<times> fw) option) list" where
  "fxl_output_steps pin = [badge_fxl6408_set_output_state pin False, badge_fxl6408_set_output_high_z pin False,
     badge_fxl6408_set_io_direction pin True]"

definition adc_configure :: "fw \<Rightarrow> fw option" where
  "adc_configure s = do {
     s \<leftarrow> (if defined_in s ''ADC1_CHAN_VBAT_SENSE'' \<or> defined_in s ''ADC1_CHAN_VUSB_SENSE''
           then checked ''adc1_config_width'' [3] s else Some s);
     s \<leftarrow> (if defined_in s ''ADC1_CHAN_VBAT_SENSE''
           then checked ''adc1_config_channel_atten'' [macro s ''ADC1_CHAN_VBAT_SENSE'', 2] s else Some s);
     if defined_in s ''ADC1_CHAN_VUSB_SENSE''
     then checked ''adc1_config_channel_atten'' [macro s ''ADC1_CHAN_VUSB_SENSE'', 2] s else Some s
   }"

definition badge_power_init :: "fw \<Rightarrow> (esp_err \<times> fw) option" where
  "badge_power_init s =
     (if badge_power_init_done (pwr s) then Some (ESP_OK, s)
      else do {
        s \<leftarrow> adc_configure s;
        let fxl_pin = (\<lambda>x. nat (macro s x));
        (res, s) \<leftarrow> steps
          ((if defined_in s ''FXL6408_PIN_NUM_CHRGSTAT'' \<or> defined_in s ''FXL6408_PIN_NUM_LEDS'' then [badge_fxl6408_init] else []) @
           (if defined_in s ''MPR121_PIN_NUM_CHRGSTAT'' \<or> defined_in s ''MPR121_PIN_NUM_LEDS''
            then [\<lambda>s. Some (badge_mpr121_init s)] else []) @
           (if defined_in s ''FXL6408_PIN_NUM_CHRGSTAT'' then fxl_input_steps (fxl_pin ''FXL6408_PIN_NUM_CHRGSTAT'')
            else if defined_in s ''MPR121_PIN_NUM_CHRGSTAT''
            then [badge_mpr121_configure_gpio (macro s ''MPR121_PIN_NUM_CHRGSTAT'') MPR121_INPUT] else []) @
           (if defined_in s ''FXL6408_PIN_NUM_LEDS'' then fxl_output_steps (fxl_pin ''FXL6408_PIN_NUM_LEDS'')
            else if defined_in s ''MPR121_PIN_NUM_LEDS''
            then [badge_mpr121_configure_gpio (macro s ''MPR121_PIN_NUM_LEDS'') MPR121_OUTPUT] else [])) s;
        Some (res, if res = ESP_OK then s\<lparr>pwr := (pwr s)\<lparr>badge_power_init_done := True\<rparr>\<rparr> else s)
      })"

section \<open>badge_leds.c\<close>

definition badge_leds_enable :: "fw \<Rightarrow> (esp_err \<times> fw) option" where
  "badge_leds_enable s =
     (if badge_leds_active (leds s) then Some (ESP_OK, s)
      else do {
        (res, s) \<leftarrow> steps [badge_power_leds_enable, badge_leds_claim_spi] s;
        Some (res, if res = ESP_OK then s\<lparr>leds := (leds s)\<lparr>badge_leds_active := True\<rparr>\<rparr> else s)
      })"

definition badge_leds_disable :: "fw \<Rightarrow> (esp_err \<times> fw) option" where
  "badge_leds_disable s =
     (if \<not> badge_leds_active (leds s) then Some (ESP_OK, s)
      else do {
        (res, s) \<leftarrow> (if badge_leds_spi (leds s) \<noteq> 0 then badge_vspi_release_and_claim CB_null s else Some (ESP_OK, s));
        if res \<noteq> ESP_OK then Some (res, s)
        else let s = s\<lparr>leds := (leds s)\<lparr>badge_leds_active := False\<rparr>\<rparr>;
                 (res, s) = ext ''gpio_config'' [macro s ''PIN_NUM_LEDS''] s in
             if res \<noteq> ESP_OK then Some (res, s) else badge_power_leds_disable s
      })"

definition leds_conv :: "u8 list" where
  "leds_conv = [0x11, 0x13, 0x31, 0x33]"

text \<open>A colour value as four bytes for the SPI bus, two bits each.\<close>

definition leds_encode :: "nat \<Rightarrow> u8 list" where
  "leds_encode v = [leds_conv ! (v div 64 mod 4), leds_conv ! (v div 16 mod 4), leds_conv ! (v div 4 mod 4), leds_conv ! (v mod 4)]"

text \<open>
  The loop over the data, from index \<open>i\<close>.  With \<open>ws2812\<close> the first six LEDs have no white channel:
  half of the white value is added to the other three, and an incomplete LED ends the data.
\<close>

function leds_bytes :: "bool \<Rightarrow> u8 list \<Rightarrow> nat \<Rightarrow> u8 list" where
  "leds_bytes ws2812 data i =
     (if length data \<le> i then []
      else let v = unat (data ! i) in
        if ws2812 \<and> i < 6 * 4 then
          (if length data \<le> (i OR 3) then []
           else if i mod 4 = 3 then leds_bytes ws2812 data (Suc i)
           else leds_encode (min 255 (v + unat (data ! (i OR 3)) div 2)) @ leds_bytes ws2812 data (Suc i))
        else leds_encode v @ leds_bytes ws2812 data (Suc i))"
  by pat_completeness auto
termination
  by (relation "measure (\<lambda>(w, d, i). length d - i)") auto

declare leds_bytes.simps [simp del]

text \<open>
  The transmit buffer: \<open>badge_leds_buf_len\<close> is the size the code believes it has.  Writing past the
  end of the buffer is \<open>None\<close>.
\<close>

definition badge_leds_send_data :: "u8 list \<Rightarrow> fw \<Rightarrow> (esp_err \<times> fw) option" where
  "badge_leds_send_data data s =
     (let n = 4 * length data + 3;
          (ok, s) =
            (if badge_leds_buf_len (leds s) < int n
             then let (p, s) = ext ''malloc'' [int n] s;
                      s = s\<lparr>leds := (leds s)\<lparr>badge_leds_buf_len := 0,
                            badge_leds_buf := if p = 0 then None else Some (replicate n 0)\<rparr>\<rparr>
                  in (p \<noteq> 0, s)
             else (True, s))
      in if \<not> ok then Some (ESP_ERR_NO_MEM, s)
         else do {
           (res, s) \<leftarrow> badge_leds_enable s;
           if res \<noteq> ESP_OK then Some (res, s)
           else do {
             buf \<leftarrow> badge_leds_buf (leds s);
             let out = [0, 0, 0] @ leds_bytes (defined_in s ''CONFIG_SHA_BADGE_LEDS_WS2812'') data 0;
             if length buf < length out then None
             else do {
               let s = s\<lparr>leds := (leds s)\<lparr>badge_leds_buf := Some (out @ drop (length out) buf)\<rparr>\<rparr>;
               (res, s) \<leftarrow> badge_leds_claim_spi s;
               if res \<noteq> ESP_OK then Some (res, s)
               else Some (ext ''spi_device_transmit'' (badge_leds_spi (leds s) # map uint out) s)
             }
           }
         })"

definition badge_leds_init :: "fw \<Rightarrow> (esp_err \<times> fw) option" where
  "badge_leds_init s =
     (if badge_leds_init_done (leds s) then Some (ESP_OK, s)
      else do {
        let s = snd (badge_vspi_init s);
        (res, s) \<leftarrow> badge_power_init s;
        if res \<noteq> ESP_OK then Some (res, s)
        else let (res, s) = ext ''gpio_config'' [macro s ''PIN_NUM_LEDS''] s in
             Some (res, if res = ESP_OK then s\<lparr>leds := (leds s)\<lparr>badge_leds_init_done := True\<rparr>\<rparr> else s)
      })"

section \<open>badge_vibrator.c\<close>

definition vibrator_set :: "bool \<Rightarrow> fw \<Rightarrow> (int \<times> fw) option" where
  "vibrator_set on s =
     (if defined_in s ''FXL6408_PIN_NUM_VIBRATOR'' \<or> defined_in s ''MPR121_PIN_NUM_VIBRATOR''
      then set_expander_pin ''FXL6408_PIN_NUM_VIBRATOR'' ''MPR121_PIN_NUM_VIBRATOR'' on s
      else Some (ext ''gpio_set_level'' [macro s ''PIN_NUM_VIBRATOR'', of_bool on] s))"

definition badge_vibrator_on :: "fw \<Rightarrow> (int \<times> fw) option" where
  "badge_vibrator_on = vibrator_set True"

definition badge_vibrator_off :: "fw \<Rightarrow> (int \<times> fw) option" where
  "badge_vibrator_off = vibrator_set False"

function vibrate :: "u32 \<Rightarrow> fw \<Rightarrow> fw option" where
  "vibrate pattern s =
     (if pattern = 0 then Some s
      else do {
        (_, s) \<leftarrow> (if bit pattern 0 then badge_vibrator_on s else badge_vibrator_off s);
        vibrate (drop_bit 1 pattern) (snd (ext ''ets_delay_us'' [200000] s))
      })"
  by pat_completeness auto
termination
proof (relation "measure (\<lambda>(p, s). unat p)")
  fix pattern :: u32 and s :: fw and x and xa y
  assume "pattern \<noteq> 0"
  then have "unat pattern div 2 < unat pattern" by (simp add: unat_gt_0)
  then show "((drop_bit 1 pattern, snd (ext ''ets_delay_us'' [200000] y)), (pattern, s)) \<in> measure (\<lambda>(p, s). unat p)"
    by (simp add: drop_bit_eq_div unat_div)
qed simp

declare vibrate.simps [simp del]

definition badge_vibrator_activate :: "u32 \<Rightarrow> fw \<Rightarrow> fw option" where
  "badge_vibrator_activate pattern s = do { s \<leftarrow> vibrate pattern s; (_, s) \<leftarrow> badge_vibrator_off s; Some s }"

definition badge_vibrator_set :: "bool \<Rightarrow> fw \<Rightarrow> fw option" where
  "badge_vibrator_set state s = do { (_, s) \<leftarrow> (if state then badge_vibrator_on s else badge_vibrator_off s); Some s }"

definition badge_vibrator_init :: "fw \<Rightarrow> (esp_err \<times> fw) option" where
  "badge_vibrator_init s =
     (if badge_vibrator_init_done s then Some (ESP_OK, s)
      else do {
        (res, s) \<leftarrow>
          (if defined_in s ''FXL6408_PIN_NUM_VIBRATOR''
           then steps (badge_fxl6408_init # fxl_output_steps (nat (macro s ''FXL6408_PIN_NUM_VIBRATOR''))) s
           else if defined_in s ''MPR121_PIN_NUM_VIBRATOR''
           then steps [\<lambda>s. Some (badge_mpr121_init s),
                       badge_mpr121_configure_gpio (macro s ''MPR121_PIN_NUM_VIBRATOR'') MPR121_OUTPUT] s
           else let p = macro s ''PIN_NUM_VIBRATOR'';
                    s = snd (ext ''gpio_pad_select_gpio'' [p] s);
                    s = snd (ext ''gpio_set_direction'' [p, 2] s)
                in Some (ESP_OK, snd (ext ''gpio_set_level'' [p, 0] s)));
        Some (res, if res = ESP_OK then s\<lparr>badge_vibrator_init_done := True\<rparr> else s)
      })"

section \<open>badge_sdcard.c\<close>

definition badge_sdcard_detected :: "fw \<Rightarrow> (bool \<times> fw) option" where
  "badge_sdcard_detected s =
     (if defined_in s ''FXL6408_PIN_NUM_SD_CD''
      then do { (v, s) \<leftarrow> badge_fxl6408_get_input s; Some (bit v (nat (macro s ''FXL6408_PIN_NUM_SD_CD'')), s) }
      else do { (v, s) \<leftarrow> badge_mpr121_get_gpio_level (macro s ''MPR121_PIN_NUM_SD_CD'') s; Some (v \<noteq> 0, s) })"

definition badge_sdcard_init :: "fw \<Rightarrow> (esp_err \<times> fw) option" where
  "badge_sdcard_init s =
     (if badge_sdcard_init_done s then Some (ESP_OK, s)
      else do {
        (res, s) \<leftarrow>
          (if defined_in s ''FXL6408_PIN_NUM_SD_CD''
           then steps (badge_fxl6408_init # fxl_input_steps (nat (macro s ''FXL6408_PIN_NUM_SD_CD''))) s
           else if defined_in s ''MPR121_PIN_NUM_SD_CD''
           then steps [\<lambda>s. Some (badge_mpr121_init s),
                       badge_mpr121_configure_gpio (macro s ''MPR121_PIN_NUM_SD_CD'') MPR121_INPUT] s
           else Some (ESP_OK, s));
        Some (res, if res = ESP_OK then s\<lparr>badge_sdcard_init_done := True\<rparr> else s)
      })"

end
