(* ===== verification/Badge_Nvs.thy ===== *)
theory Badge_Nvs
  imports Badge_World
begin

text \<open>
  components/badge/badge_nvs.c: reading and writing of the configuration in non-volatile storage.
  Every access opens the namespace, does its work and closes the handle again.
\<close>

abbreviation ESP_ERR_NOT_FOUND :: esp_err where "ESP_ERR_NOT_FOUND \<equiv> 0x105"
abbreviation ESP_ERR_NVS_NOT_FOUND :: esp_err where "ESP_ERR_NVS_NOT_FOUND \<equiv> 0x1102"
abbreviation ESP_ERR_NVS_INVALID_LENGTH :: esp_err where "ESP_ERR_NVS_INVALID_LENGTH \<equiv> 0x110c"
abbreviation ESP_ERR_NVS_NO_FREE_PAGES :: esp_err where "ESP_ERR_NVS_NO_FREE_PAGES \<equiv> 0x110d"
abbreviation NVS_READONLY :: int where "NVS_READONLY \<equiv> 0"
abbreviation NVS_READWRITE :: int where "NVS_READWRITE \<equiv> 1"

definition badge_nvs_init :: "fw \<Rightarrow> esp_err \<times> fw" where
  "badge_nvs_init s =
     (if badge_nvs_init_done s then (ESP_OK, s)
      else let (err, s) = ext ''nvs_flash_init'' [] s;
               (give_up, err, s) =
                 (if err = ESP_ERR_NVS_NO_FREE_PAGES
                  then let (p, s) = ext ''esp_partition_find_first'' [1, 2] s in
                       if p = 0 then (True, ESP_ERR_NOT_FOUND, s)
                       else let (err, s) = ext ''esp_partition_erase_range'' [p, 0] s in
                            if err \<noteq> ESP_OK then (True, err, s)
                            else let (err, s) = ext ''nvs_flash_init'' [] s in (False, err, s)
                  else (False, err, s))
           in if give_up \<or> err \<noteq> ESP_OK then (err, s)
              else (ESP_OK, s\<lparr>badge_nvs_init_done := True\<rparr>))"

text \<open>
  What the functions share: open, run \<open>body\<close> on the handle, close.  The body answers an error code
  and, for a read, the value.
\<close>

definition nvs_session :: "string \<Rightarrow> int \<Rightarrow> (int \<Rightarrow> fw \<Rightarrow> (esp_err \<times> 'a option) \<times> fw) \<Rightarrow> fw \<Rightarrow> (esp_err \<times> 'a option) \<times> fw" where
  "nvs_session namespace mode body s =
     (let ((err, h), s) = ext_bytes ''nvs_open'' (mode # str_arg namespace) s in
      if err \<noteq> ESP_OK then ((err, None), s)
      else let my_handle = int (le_bytes (take 4 h));
               (r, s) = body my_handle s
           in (r, snd (ext ''nvs_close'' [my_handle] s)))"

text \<open>A list of calls on the handle, up to the first error that is not in the list of tolerated ones.\<close>

fun nvs_calls :: "(string \<times> int list \<times> esp_err list) list \<Rightarrow> int \<Rightarrow> fw \<Rightarrow> (esp_err \<times> 'a option) \<times> fw" where
  "nvs_calls [] my_handle s = ((ESP_OK, None), s)"
| "nvs_calls ((f, args, tolerated) # cs) my_handle s =
     (let (err, s) = ext f (my_handle # args) s in
      if err \<noteq> ESP_OK \<and> err \<notin> set tolerated then ((err, None), s) else nvs_calls cs my_handle s)"

definition badge_nvs_erase_all :: "string \<Rightarrow> fw \<Rightarrow> (esp_err \<times> unit option) \<times> fw" where
  "badge_nvs_erase_all namespace = nvs_session namespace NVS_READWRITE
     (nvs_calls [(''nvs_erase_all'', [], []), (''nvs_commit'', [], [])])"

definition badge_nvs_erase_key :: "string \<Rightarrow> string \<Rightarrow> fw \<Rightarrow> (esp_err \<times> unit option) \<times> fw" where
  "badge_nvs_erase_key namespace key = nvs_session namespace NVS_READWRITE
     (nvs_calls [(''nvs_erase_key'', str_arg key, []), (''nvs_commit'', [], [])])"

text \<open>Reading: the value is stored through the pointer only on success.\<close>

definition nvs_read :: "string \<Rightarrow> string \<Rightarrow> (u8 list \<Rightarrow> 'a) \<Rightarrow> int \<Rightarrow> fw \<Rightarrow> (esp_err \<times> 'a option) \<times> fw" where
  "nvs_read f key conv my_handle s =
     (let ((err, bs), s) = ext_bytes f (my_handle # str_arg key) s
      in ((err, if err \<noteq> ESP_OK then None else Some (conv bs)), s))"

definition badge_nvs_get_u8 :: "string \<Rightarrow> string \<Rightarrow> fw \<Rightarrow> (esp_err \<times> u8 option) \<times> fw" where
  "badge_nvs_get_u8 namespace key = nvs_session namespace NVS_READONLY
     (nvs_read ''nvs_get_u8'' key (\<lambda>bs. of_nat (le_bytes (take 1 bs))))"

definition badge_nvs_get_u16 :: "string \<Rightarrow> string \<Rightarrow> fw \<Rightarrow> (esp_err \<times> u16 option) \<times> fw" where
  "badge_nvs_get_u16 namespace key = nvs_session namespace NVS_READONLY
     (nvs_read ''nvs_get_u16'' key (\<lambda>bs. of_nat (le_bytes (take 2 bs))))"

text \<open>Writing: erase, where a missing key is no error, set, commit.\<close>

definition nvs_replace :: "string \<Rightarrow> string \<Rightarrow> int list \<Rightarrow> (string \<times> int list \<times> esp_err list) list" where
  "nvs_replace f key v = [(''nvs_erase_key'', str_arg key, [ESP_ERR_NVS_NOT_FOUND]), (f, str_arg key @ v, []), (''nvs_commit'', [], [])]"

definition badge_nvs_set_u8 :: "string \<Rightarrow> string \<Rightarrow> u8 \<Rightarrow> fw \<Rightarrow> (esp_err \<times> unit option) \<times> fw" where
  "badge_nvs_set_u8 namespace key v = nvs_session namespace NVS_READWRITE (nvs_calls (nvs_replace ''nvs_set_u8'' key [uint v]))"

definition badge_nvs_set_u16 :: "string \<Rightarrow> string \<Rightarrow> u16 \<Rightarrow> fw \<Rightarrow> (esp_err \<times> unit option) \<times> fw" where
  "badge_nvs_set_u16 namespace key v = nvs_session namespace NVS_READWRITE (nvs_calls (nvs_replace ''nvs_set_u16'' key [uint v]))"

definition badge_nvs_set_str :: "string \<Rightarrow> string \<Rightarrow> string \<Rightarrow> fw \<Rightarrow> (esp_err \<times> unit option) \<times> fw" where
  "badge_nvs_set_str namespace key v = nvs_session namespace NVS_READWRITE (nvs_calls (nvs_replace ''nvs_set_str'' key (str_arg v)))"

text \<open>
  Strings: the length is asked for first and compared with the size of the buffer; the value is the
  length stored in \<open>*length\<close> and the bytes written to the buffer.
\<close>

definition badge_nvs_get_str :: "string \<Rightarrow> string \<Rightarrow> nat \<Rightarrow> fw \<Rightarrow> (esp_err \<times> (nat \<times> u8 list) option) \<times> fw" where
  "badge_nvs_get_str namespace key buf_size = nvs_session namespace NVS_READONLY (\<lambda>my_handle s.
     let ((err, bs), s) = ext_bytes ''nvs_get_str'' (my_handle # str_arg key @ [0]) s;
         str_len = le_bytes (take 4 bs)
     in if err \<noteq> ESP_OK then ((err, None), s)
        else if str_len > buf_size then ((ESP_ERR_NVS_INVALID_LENGTH, None), s)
        else let ((err, bs), s) = ext_bytes ''nvs_get_str'' (my_handle # str_arg key @ [1, int str_len]) s
             in ((err, if err \<noteq> ESP_OK then None else Some (str_len, take str_len bs)), s))"

section \<open>No handle is left open\<close>

text \<open>The number of handles that are open after a history of calls.\<close>

fun open_handles :: "environment \<Rightarrow> ext_call list \<Rightarrow> int" where
  "open_handles e [] = 0"
| "open_handles e (Ext f args # tr) =
     (if f = ''nvs_open'' \<and> fst (e (Ext f args # tr)) = ESP_OK then open_handles e tr + 1
      else if f = ''nvs_close'' then open_handles e tr - 1
      else open_handles e tr)"

definition keeps_handles :: "(fw \<Rightarrow> 'a \<times> fw) \<Rightarrow> bool" where
  "keeps_handles f \<longleftrightarrow> (\<forall>s. env (snd (f s)) = env s \<and>
     open_handles (env s) (trace (snd (f s))) = open_handles (env s) (trace s))"

lemma nvs_session_keeps:
  assumes "\<And>h. keeps_handles (body h)"
  shows "keeps_handles (nvs_session namespace mode body)"
  unfolding keeps_handles_def
proof
  fix s
  let ?s = "snd (ext_bytes ''nvs_open'' (mode # str_arg namespace) s)"
  let ?h = "int (le_bytes (take 4 (snd (fst (ext_bytes ''nvs_open'' (mode # str_arg namespace) s)))))"
  have "env (snd (body ?h ?s)) = env ?s \<and> open_handles (env ?s) (trace (snd (body ?h ?s))) = open_handles (env ?s) (trace ?s)"
    using assms unfolding keeps_handles_def by blast
  then show "env (snd (nvs_session namespace mode body s)) = env s \<and>
      open_handles (env s) (trace (snd (nvs_session namespace mode body s))) = open_handles (env s) (trace s)"
    by (simp add: nvs_session_def ext_bytes_def Let_def case_prod_beta)
qed

lemma nvs_calls_keeps:
  "(\<forall>(f, args, tol) \<in> set cs. f \<noteq> ''nvs_open'' \<and> f \<noteq> ''nvs_close'') \<Longrightarrow>
   keeps_handles (nvs_calls cs h :: fw \<Rightarrow> (esp_err \<times> 'a option) \<times> fw)"
proof (induction cs)
  case Nil
  then show ?case by (simp add: keeps_handles_def)
next
  case (Cons c cs)
  obtain f args tol where c: "c = (f, args, tol)" by (cases c)
  have IH: "keeps_handles (nvs_calls cs h :: fw \<Rightarrow> (esp_err \<times> 'a option) \<times> fw)" using Cons by simp
  show ?case
    unfolding keeps_handles_def
  proof
    fix s
    let ?r = "nvs_calls (c # cs) h s :: (esp_err \<times> 'a option) \<times> fw"
    show "env (snd ?r) = env s \<and> open_handles (env s) (trace (snd ?r)) = open_handles (env s) (trace s)"
      using IH [unfolded keeps_handles_def, THEN spec, of "s\<lparr>trace := Ext f (h # args) # trace s\<rparr>"] Cons.prems
      by (simp add: c Let_def case_prod_beta)
  qed
qed

lemma nvs_read_keeps:
  "f \<noteq> ''nvs_open'' \<Longrightarrow> f \<noteq> ''nvs_close'' \<Longrightarrow> keeps_handles (nvs_read f key conv h)"
  by (simp add: keeps_handles_def nvs_read_def ext_bytes_def Let_def case_prod_beta)

lemma nvs_get_str_keeps: "keeps_handles (badge_nvs_get_str namespace key n)"
  unfolding badge_nvs_get_str_def
  by (rule nvs_session_keeps) (simp add: keeps_handles_def ext_bytes_def Let_def case_prod_beta)

lemmas nvs_keeps = nvs_get_str_keeps nvs_session_keeps nvs_calls_keeps nvs_read_keeps

end
