(* ===== verification/Badge_Lut.thy ===== *)
theory Badge_Lut
  imports Badge_World
begin

text \<open>
  components/badge/badge_eink_lut.c: the look-up tables that tell the e-ink controllers which
  voltages to apply for how long, generated from a list of entries for one of two displays.
\<close>

section \<open>Entries\<close>

record badge_eink_lut_entry =
  lut_length :: u8
  lut_voltages :: u8

definition entries :: "(u8 \<times> u8) list \<Rightarrow> badge_eink_lut_entry list" where
  "entries ps = map (\<lambda>(l, v). \<lparr>lut_length = l, lut_voltages = v\<rparr>) ps @ [\<lparr>lut_length = 0, lut_voltages = 0\<rparr>]"

definition badge_eink_lut_full :: "badge_eink_lut_entry list" where
  "badge_eink_lut_full = entries [(23, 0x02), (4, 0x01), (11, 0x11), (4, 0x12), (6, 0x22), (5, 0x66), (4, 0x69),
     (5, 0x59), (1, 0x58), (14, 0x99), (1, 0x88)]"

definition badge_eink_lut_normal :: "badge_eink_lut_entry list" where
  "badge_eink_lut_normal = entries [(3, 0x10), (5, 0x18), (1, 0x08), (8, 0x18), (2, 0x08)]"

definition badge_eink_lut_faster :: "badge_eink_lut_entry list" where
  "badge_eink_lut_faster = entries [(1, 0x10), (8, 0x18), (1, 0x08)]"

definition badge_eink_lut_fastest :: "badge_eink_lut_entry list" where
  "badge_eink_lut_fastest = entries [(1, 0x10), (5, 0x18), (1, 0x08)]"

text \<open>The entries up to the terminating one of length 0.\<close>

definition active_entries :: "badge_eink_lut_entry list \<Rightarrow> badge_eink_lut_entry list" where
  "active_entries es = takeWhile (\<lambda>e. lut_length e \<noteq> 0) es"

section \<open>Voltages\<close>

text \<open>Flag bits: 0 first, 1 partial, 2 white, 3 black.\<close>

definition badge_eink_lut_conv :: "u8 \<Rightarrow> int \<Rightarrow> u8" where
  "badge_eink_lut_conv v flags =
     (let v = (if bit flags 0
               then let v = v OR drop_bit 4 v;
                        v = v AND 15;
                        v = (if v AND 3 = 3 then v XOR 2 else v);
                        v = (if v AND 12 = 12 then v XOR 4 else v)
                    in v OR push_bit 4 v
               else v);
          v = (if bit flags 1 then v AND 0x3c else v);
          v = (if bit flags 2 then v AND 0xcc else v)
      in if bit flags 3 then v AND 0x33 else v)"

section \<open>GDEH029A1\<close>

text \<open>Twenty phases: a byte of voltages each, and a nibble of length each, two to a byte.\<close>

definition set_length :: "nat \<Rightarrow> nat \<Rightarrow> u8 list \<Rightarrow> u8 list" where
  "set_length pos plen lut =
     lut[20 + pos div 2 := (if pos mod 2 = 0 then of_nat plen else lut ! (20 + pos div 2) OR push_bit 4 (of_nat plen))]"

text \<open>The inner loop of one entry; \<open>None\<close> is the return of -1 on overflow.\<close>

function gdeh_entry :: "u8 \<Rightarrow> nat \<Rightarrow> nat \<times> u8 list \<Rightarrow> (nat \<times> u8 list) option" where
  "gdeh_entry v len (pos, lut) =
     (if len = 0 then Some (pos, lut)
      else let plen = (if len > 15 then 15 else len) in
           if pos = 20 then None
           else gdeh_entry v (len - plen) (Suc pos, set_length pos plen (lut[pos := v])))"
  by pat_completeness auto
termination
  by (relation "measure (\<lambda>(v, len, s). len)") (auto split: if_splits)

declare gdeh_entry.simps [simp del]

fun gdeh_entries :: "badge_eink_lut_entry list \<Rightarrow> int \<Rightarrow> nat \<times> u8 list \<Rightarrow> (nat \<times> u8 list) option" where
  "gdeh_entries [] flags st = Some st"
| "gdeh_entries (e # es) flags st =
     Option.bind (gdeh_entry (badge_eink_lut_conv (lut_voltages e) flags) (unat (lut_length e)) st) (gdeh_entries es flags)"

definition badge_eink_lut_generate_gdeh029a1 :: "badge_eink_lut_entry list \<Rightarrow> int \<Rightarrow> u8 list option" where
  "badge_eink_lut_generate_gdeh029a1 list flags =
     (case gdeh_entries (active_entries list) flags (0, replicate 30 0) of
        None \<Rightarrow> None
      | Some (pos, lut) \<Rightarrow> if pos = 20 then None else Some (set_length pos 1 lut))"

section \<open>DEPG0290B1\<close>

text \<open>
  Seven groups of two phases (of four the controller knows): the voltages of the four transitions in
  the first 28 bytes, the lengths from byte 35.
\<close>

definition depg_put :: "nat \<Rightarrow> nat \<Rightarrow> u8 \<Rightarrow> u8 \<Rightarrow> u8 list \<Rightarrow> u8 list" where
  "depg_put pos spos v len lut =
     (foldl (\<lambda>lut k. lut[k * 7 + pos := lut ! (k * 7 + pos) OR push_bit ((3 - spos) * 2) (drop_bit (2 * k) v AND 3)]) lut [0..<4])
       [5 * 7 + pos * 5 + spos := len]"

fun depg_entries :: "badge_eink_lut_entry list \<Rightarrow> int \<Rightarrow> nat \<Rightarrow> nat \<Rightarrow> u8 list \<Rightarrow> u8 list option" where
  "depg_entries [] flags pos spos lut = Some lut"
| "depg_entries (e # es) flags pos spos lut =
     (if pos = 7 then None
      else let lut = depg_put pos spos (badge_eink_lut_conv (lut_voltages e) flags) (lut_length e) lut
           in if Suc spos = 2 then depg_entries es flags (Suc pos) 0 lut else depg_entries es flags pos (Suc spos) lut)"

definition badge_eink_lut_generate_depg0290b1 :: "badge_eink_lut_entry list \<Rightarrow> int \<Rightarrow> u8 list option" where
  "badge_eink_lut_generate_depg0290b1 list flags = depg_entries (active_entries list) flags 0 0 (replicate 70 0)"

text \<open>The bytes of the table that are to be sent, or \<open>None\<close> for the error -1.\<close>

definition badge_eink_lut_generate :: "badge_eink_dev_t \<Rightarrow> badge_eink_lut_entry list \<Rightarrow> int \<Rightarrow> u8 list option" where
  "badge_eink_lut_generate dev list flags =
     (case dev of
        BADGE_EINK_GDEH029A1 \<Rightarrow> badge_eink_lut_generate_gdeh029a1 list flags
      | BADGE_EINK_DEPG0290B1 \<Rightarrow> badge_eink_lut_generate_depg0290b1 list flags
      | BADGE_EINK_NONE \<Rightarrow> Some [])"

end
