(* ===== verification/Badge_Eink.thy ===== *)
theory Badge_Eink
  imports Badge_Spi Badge_Lut
begin

text \<open>
  components/badge/badge_eink.c: the e-ink display.  Images are turned into bit planes in the order
  of the controller, uploaded over SPI, and shown by a refresh with a generated look-up table.
\<close>

abbreviation DISP_SIZE_X :: nat where "DISP_SIZE_X \<equiv> 128"
abbreviation DISP_SIZE_Y :: nat where "DISP_SIZE_Y \<equiv> 296"
abbreviation DISP_SIZE_X_B :: nat where "DISP_SIZE_X_B \<equiv> 16"

section \<open>Bit planes\<close>

definition xlat_curve :: "u8 list" where
  "xlat_curve = [
    0x00,0x01,0x01,0x02,0x02,0x03,0x03,0x03,0x04,0x04,0x05,0x05,
    0x06,0x06,0x07,0x07,0x08,0x08,0x09,0x09,0x0a,0x0a,0x0a,0x0b,
    0x0b,0x0c,0x0c,0x0d,0x0d,0x0e,0x0e,0x0f,0x0f,0x10,0x10,0x11,
    0x11,0x12,0x12,0x13,0x13,0x14,0x15,0x15,0x16,0x16,0x17,0x17,
    0x18,0x18,0x19,0x19,0x1a,0x1a,0x1b,0x1b,0x1c,0x1d,0x1d,0x1e,
    0x1e,0x1f,0x1f,0x20,0x20,0x21,0x22,0x22,0x23,0x23,0x24,0x25,
    0x25,0x26,0x26,0x27,0x27,0x28,0x29,0x29,0x2a,0x2a,0x2b,0x2c,
    0x2c,0x2d,0x2e,0x2e,0x2f,0x2f,0x30,0x31,0x31,0x32,0x33,0x33,
    0x34,0x35,0x35,0x36,0x37,0x37,0x38,0x39,0x39,0x3a,0x3b,0x3b,
    0x3c,0x3d,0x3e,0x3e,0x3f,0x40,0x40,0x41,0x42,0x43,0x43,0x44,
    0x45,0x46,0x46,0x47,0x48,0x49,0x49,0x4a,0x4b,0x4c,0x4c,0x4d,
    0x4e,0x4f,0x50,0x50,0x51,0x52,0x53,0x54,0x55,0x55,0x56,0x57,
    0x58,0x59,0x5a,0x5b,0x5b,0x5c,0x5d,0x5e,0x5f,0x60,0x61,0x62,
    0x63,0x64,0x65,0x66,0x66,0x67,0x68,0x69,0x6a,0x6b,0x6c,0x6d,
    0x6e,0x6f,0x70,0x71,0x72,0x74,0x75,0x76,0x77,0x78,0x79,0x7a,
    0x7b,0x7c,0x7d,0x7e,0x80,0x81,0x82,0x83,0x84,0x86,0x87,0x88,
    0x89,0x8a,0x8c,0x8d,0x8e,0x90,0x91,0x92,0x93,0x95,0x96,0x98,
    0x99,0x9a,0x9c,0x9d,0x9f,0xa0,0xa2,0xa3,0xa5,0xa6,0xa8,0xa9,
    0xab,0xac,0xae,0xb0,0xb1,0xb3,0xb5,0xb6,0xb8,0xba,0xbc,0xbe,
    0xbf,0xc1,0xc3,0xc5,0xc7,0xc9,0xcb,0xcd,0xcf,0xd1,0xd3,0xd6,
    0xd8,0xda,0xdc,0xdf,0xe1,0xe3,0xe6,0xe8,0xeb,0xed,0xf0,0xf3,
    0xf5,0xf8,0xfb,0xfe]"

text \<open>Flag bits: 0 eight bits per pixel, 1 rotate, 2 no update, 3 full update; bits 8 to 11 the look-up table.\<close>

text \<open>Whether the pixel at \<open>pos\<close> is set in the plane \<open>plane\<close>; \<open>None\<close> is a read outside the image.\<close>

definition plane_pixel :: "u8 list \<Rightarrow> bool \<Rightarrow> u8 \<Rightarrow> int \<Rightarrow> bool option" where
  "plane_pixel img eight plane pos =
     (if pos < 0 then None
      else if eight then do {
        pixel \<leftarrow> nth_opt img (nat pos);
        Some (xlat_curve ! unat pixel AND plane \<noteq> 0)
      }
      else do {
        pixel \<leftarrow> nth_opt img (nat (drop_bit 3 pos));
        Some (bit pixel (nat (pos AND 7)))
      })"

text \<open>The loop over the 32 bits of a word, then over the words of a row, then over the rows.\<close>

fun plane_word :: "nat \<Rightarrow> u8 list \<Rightarrow> bool \<Rightarrow> u8 \<Rightarrow> int \<Rightarrow> int \<Rightarrow> u32 \<Rightarrow> (u32 \<times> int) option" where
  "plane_word 0 img eight plane dx pos res = Some (res, pos)"
| "plane_word (Suc n) img eight plane dx pos res = do {
     b \<leftarrow> plane_pixel img eight plane pos;
     plane_word n img eight plane dx (pos + dx) (push_bit 1 res + of_bool b)
   }"

fun plane_row :: "nat \<Rightarrow> u8 list \<Rightarrow> bool \<Rightarrow> u8 \<Rightarrow> int \<Rightarrow> int \<Rightarrow> (u32 list \<times> int) option" where
  "plane_row 0 img eight plane dx pos = Some ([], pos)"
| "plane_row (Suc n) img eight plane dx pos = do {
     (w, pos) \<leftarrow> plane_word 32 img eight plane dx pos 0;
     (ws, pos) \<leftarrow> plane_row n img eight plane dx pos;
     Some (w # ws, pos)
   }"

fun plane_rows :: "nat \<Rightarrow> u8 list \<Rightarrow> bool \<Rightarrow> u8 \<Rightarrow> int \<Rightarrow> int \<Rightarrow> int \<Rightarrow> u32 list option" where
  "plane_rows 0 img eight plane dx dy pos = Some []"
| "plane_rows (Suc n) img eight plane dx dy pos = do {
     (ws, pos) \<leftarrow> plane_row (DISP_SIZE_X div 32) img eight plane dx pos;
     wss \<leftarrow> plane_rows n img eight plane dx dy (pos + dy);
     Some (ws @ wss)
   }"

definition badge_eink_create_bitplane :: "bool \<Rightarrow> u8 list \<Rightarrow> u8 \<Rightarrow> int \<Rightarrow> u32 list option" where
  "badge_eink_create_bitplane rotated_180 img plane flags =
     (if bit flags 1 \<noteq> rotated_180
      then plane_rows DISP_SIZE_Y img (bit flags 0) plane (int DISP_SIZE_Y)
             (- int (DISP_SIZE_Y * DISP_SIZE_X) - 1) (int DISP_SIZE_Y - 1)
      else plane_rows DISP_SIZE_Y img (bit flags 0) plane (- int DISP_SIZE_Y)
             (int (DISP_SIZE_Y * DISP_SIZE_X) + 1) (int ((DISP_SIZE_X - 1) * DISP_SIZE_Y)))"

section \<open>Uploading and refreshing\<close>

definition badge_eink_set_ram_area :: "u8 \<Rightarrow> u8 \<Rightarrow> u16 \<Rightarrow> u16 \<Rightarrow> fw \<Rightarrow> fw option" where
  "badge_eink_set_ram_area x_start x_end y_start y_end s = do {
     s \<leftarrow> badge_eink_dev_write_command_p 0x44 [x_start, x_end] s;
     badge_eink_dev_write_command_p 0x45 [ucast y_start, ucast (drop_bit 8 y_start), ucast y_end, ucast (drop_bit 8 y_end)] s
   }"

definition badge_eink_set_ram_pointer :: "u8 \<Rightarrow> u16 \<Rightarrow> fw \<Rightarrow> fw option" where
  "badge_eink_set_ram_pointer x_addr y_addr s = do {
     s \<leftarrow> badge_eink_dev_write_command_p 0x4e [x_addr] s;
     badge_eink_dev_write_command_p 0x4f [ucast y_addr, ucast (drop_bit 8 y_addr)] s
   }"

definition plane_words :: nat where
  "plane_words = DISP_SIZE_X_B * DISP_SIZE_Y div 4"

definition badge_eink_write_bitplane :: "u32 list \<Rightarrow> fw \<Rightarrow> fw option" where
  "badge_eink_write_bitplane buf s = do {
     s \<leftarrow> badge_eink_set_ram_area 0 (of_nat (DISP_SIZE_X_B - 1)) 0 (of_nat (DISP_SIZE_Y - 1)) s;
     s \<leftarrow> badge_eink_set_ram_pointer 0 0 s;
     badge_eink_dev_write_command_stream_u32 0x24 (take plane_words buf) s
   }"

record badge_eink_update_conf =
  upd_lut :: int
  upd_lut_flags :: int
  upd_lut_custom :: "badge_eink_lut_entry list"
  upd_reg_0x3a :: u8
  upd_reg_0x3b :: u8
  upd_y_start :: int
  upd_y_end :: int

definition update_entries :: "badge_eink_update_conf \<Rightarrow> badge_eink_lut_entry list" where
  "update_entries c =
     (if upd_lut c = -1 then upd_lut_custom c
      else if upd_lut c = 1 then badge_eink_lut_normal
      else if upd_lut c = 2 then badge_eink_lut_faster
      else if upd_lut c = 3 then badge_eink_lut_fastest
      else badge_eink_lut_full)"

definition set_oldbuf :: "u32 list option \<Rightarrow> bool \<Rightarrow> fw \<Rightarrow> fw" where
  "set_oldbuf b have s = s\<lparr>eink := (eink s)\<lparr>badge_eink_oldbuf := b, badge_eink_have_oldbuf := have\<rparr>\<rparr>"

definition badge_eink_update :: "u32 list option \<Rightarrow> badge_eink_update_conf \<Rightarrow> fw \<Rightarrow> fw option" where
  "badge_eink_update buf c s = do {
     lut \<leftarrow> badge_eink_lut_generate (badge_eink_dev_type (edev s)) (update_entries c) (upd_lut_flags c);
     s \<leftarrow> badge_eink_dev_write_command_stream 0x32 lut s;
     buf \<leftarrow> (case buf of None \<Rightarrow> badge_eink_tmpbuf (eink s) | Some b \<Rightarrow> Some b);
     s \<leftarrow> badge_eink_write_bitplane buf s;
     s \<leftarrow> (if badge_eink_dev_type (edev s) = BADGE_EINK_DEPG0290B1 \<and> badge_eink_have_oldbuf (eink s)
           then do {
             old \<leftarrow> badge_eink_oldbuf (eink s);
             badge_eink_dev_write_command_stream_u32 0x26 (take plane_words old) s
           }
           else Some s);
     s \<leftarrow> badge_eink_dev_write_command_p 0x3a [upd_reg_0x3a c] s;
     s \<leftarrow> badge_eink_dev_write_command_p 0x3b [upd_reg_0x3b c] s;
     let y_len = (word_of_int (upd_y_end c - upd_y_start c) :: u16);
     s \<leftarrow> badge_eink_dev_write_command_p 0x01 [ucast y_len, ucast (drop_bit 8 y_len), 0x00] s;
     s \<leftarrow> badge_eink_dev_write_command_p 0x0f [word_of_int (upd_y_start c), word_of_int (drop_bit 8 (upd_y_start c))] s;
     s \<leftarrow> badge_eink_dev_write_command_p 0x22 [0xc7] s;
     s \<leftarrow> badge_eink_dev_write_command 0x20 s;
     if badge_eink_dev_type (edev s) = BADGE_EINK_DEPG0290B1
     then do { _ \<leftarrow> badge_eink_oldbuf (eink s); Some (set_oldbuf (Some (take plane_words buf)) True s) }
     else Some (set_oldbuf (badge_eink_oldbuf (eink s)) True s)
   }"

definition set_tmpbuf :: "u32 list \<Rightarrow> fw \<Rightarrow> fw" where
  "set_tmpbuf b s = s\<lparr>eink := (eink s)\<lparr>badge_eink_tmpbuf := Some b\<rparr>\<rparr>"

section \<open>Showing an image\<close>

definition epd_rotated :: "fw \<Rightarrow> bool" where
  "epd_rotated s = defined_in s ''EPD_ROTATED_180''"

definition display_update :: "int \<Rightarrow> bool \<Rightarrow> badge_eink_update_conf" where
  "display_update flags have_oldbuf =
     (let lut_mode = drop_bit 8 flags AND 15
      in \<lparr>upd_lut = (if lut_mode > 0 then lut_mode - 1 else 0),
          upd_lut_flags = (if \<not> have_oldbuf \<or> bit flags 3 then 1 else if lut_mode - 1 \<noteq> 0 then 2 else 0),
          upd_lut_custom = [], upd_reg_0x3a = 26, upd_reg_0x3b = 0x08, upd_y_start = 0, upd_y_end = 295\<rparr>)"

definition badge_eink_display :: "u8 list option \<Rightarrow> int \<Rightarrow> fw \<Rightarrow> fw option" where
  "badge_eink_display img flags s = do {
     _ \<leftarrow> badge_eink_tmpbuf (eink s);
     buf \<leftarrow> (case img of None \<Rightarrow> Some (replicate plane_words 0)
             | Some img \<Rightarrow> badge_eink_create_bitplane (epd_rotated s) img 0x80 flags);
     let s = set_tmpbuf buf s;
     if bit flags 2 then Some s
     else badge_eink_update (Some buf) (display_update flags (badge_eink_have_oldbuf (eink s))) s
   }"

text \<open>\<open>while ((t & 1) == 0 && p > 1)\<close>: the exposure time and the number of strips of a layer.\<close>

function strips :: "nat \<Rightarrow> nat \<Rightarrow> nat \<times> nat" where
  "strips t p = (if even t \<and> p > 1 then strips (t div 2) (p div 2) else (t, p))"
  by pat_completeness auto
termination
  by (relation "measure (\<lambda>(t, p). p)") auto

declare strips.simps [simp del]

definition clear_borders :: "nat \<Rightarrow> nat \<Rightarrow> u32 list \<Rightarrow> u32 list" where
  "clear_borders y_start y_end buf =
     (let a = y_start * DISP_SIZE_X_B div 4; b = (y_end + 1) * DISP_SIZE_X_B div 4
      in replicate a 0 @ drop a (take b buf) @ replicate ((DISP_SIZE_Y - y_end - 1) * DISP_SIZE_X_B div 4) 0)"

definition layer_lut :: "bool \<Rightarrow> nat \<Rightarrow> badge_eink_lut_entry list" where
  "layer_lut have_oldbuf t =
     (if have_oldbuf then entries [(of_nat t, 0x80), (of_nat t, 0xa0), (of_nat t, 0xa8)]
      else entries [(of_nat t, 0x88)])"

definition greyscale_strip :: "u8 list \<Rightarrow> int \<Rightarrow> nat \<Rightarrow> nat \<Rightarrow> nat \<Rightarrow> nat \<Rightarrow> fw \<Rightarrow> fw option" where
  "greyscale_strip img flags plane t p j s = do {
     let y_start = j * (DISP_SIZE_Y div p);
     let y_end = y_start + DISP_SIZE_Y div p - 1;
     _ \<leftarrow> badge_eink_tmpbuf (eink s);
     buf \<leftarrow> badge_eink_create_bitplane (epd_rotated s) img (of_nat plane) flags;
     let buf = clear_borders y_start y_end buf;
     let s = set_tmpbuf buf s;
     s \<leftarrow> badge_eink_update (Some buf)
           \<lparr>upd_lut = -1, upd_lut_flags = 0, upd_lut_custom = layer_lut (badge_eink_have_oldbuf (eink s)) t,
            upd_reg_0x3a = 0, upd_reg_0x3b = 0, upd_y_start = int y_start, upd_y_end = int y_end + 1\<rparr> s;
     Some (set_oldbuf (badge_eink_oldbuf (eink s)) False s)
   }"

definition greyscale_layer :: "u8 list \<Rightarrow> int \<Rightarrow> nat \<Rightarrow> nat \<Rightarrow> fw \<Rightarrow> fw option" where
  "greyscale_layer img flags layers layer s =
     (let depg = (badge_eink_dev_type (edev s) = BADGE_EINK_DEPG0290B1);
          plane = drop_bit layer 128;
          (t, p) = strips plane (if depg then 4 else 16)
      in if depg \<and> \<not> badge_eink_have_oldbuf (eink s) \<and> p = 1 \<and> t > 1 \<and> layer + 1 < layers
         then do {
           _ \<leftarrow> badge_eink_oldbuf (eink s);
           old \<leftarrow> badge_eink_create_bitplane (epd_rotated s) img (of_nat plane) flags;
           Some (set_oldbuf (Some old) True s)
         }
         else foldl (\<lambda>r j. Option.bind r (greyscale_strip img flags plane t p j)) (Some s) [0..<p])"

definition badge_eink_display_greyscale :: "u8 list \<Rightarrow> int \<Rightarrow> nat \<Rightarrow> fw \<Rightarrow> fw option" where
  "badge_eink_display_greyscale img flags layers s = do {
     s \<leftarrow> badge_eink_display None (flags OR 8) s;
     let dev = badge_eink_dev_type (edev s);
     let layers = (if dev = BADGE_EINK_DEPG0290B1 \<and> layers > 5 then 5
                   else if dev = BADGE_EINK_GDEH029A1 \<and> layers > 7 then 7 else layers);
     foldl (\<lambda>r layer. Option.bind r (greyscale_layer img flags layers layer))
       (Some (set_oldbuf (badge_eink_oldbuf (eink s)) False s)) [0..<layers]
   }"

definition badge_eink_deep_sleep :: "fw \<Rightarrow> fw option" where
  "badge_eink_deep_sleep = badge_eink_dev_write_command_p 0x10 [0x01]"

definition badge_eink_wakeup :: "fw \<Rightarrow> fw option" where
  "badge_eink_wakeup = badge_eink_dev_write_command_p 0x10 [0x00]"

section \<open>Initialisation\<close>

definition eink_commands :: "badge_eink_dev_t \<Rightarrow> (u8 \<times> u8 list) list" where
  "eink_commands dev =
     (case dev of
        BADGE_EINK_NONE \<Rightarrow> []
      | BADGE_EINK_GDEH029A1 \<Rightarrow> [(0x12, []), (0x0c, [0xd7, 0xd6, 0x9d]), (0x2c, [0xa8]), (0x11, [0x03])]
      | BADGE_EINK_DEPG0290B1 \<Rightarrow> [(0x12, []), (0x74, [0x54]), (0x7E, [0x3B]), (0x01, [0x27, 0x01, 0x00]), (0x11, [0x03]),
          (0x44, [0x00, 0x0F]), (0x45, [0x00, 0x00, 0x27, 0x01]), (0x3C, [0x01]), (0x2C, [0x26]), (0x03, [0x17]),
          (0x04, [0x41, 0x00, 0x32])])"

text \<open>A fresh buffer has unspecified contents; the model takes zeros.\<close>

definition badge_eink_init :: "badge_eink_dev_t \<Rightarrow> fw \<Rightarrow> (esp_err \<times> fw) option" where
  "badge_eink_init dev_type s =
     (if badge_eink_init_done (eink s) then Some (ESP_OK, s)
      else let (res, s) = badge_eink_dev_init dev_type s in
      if res \<noteq> ESP_OK then Some (res, s)
      else let (p, s) = ext ''heap_caps_malloc'' [int (DISP_SIZE_X_B * DISP_SIZE_Y)] s;
               s = s\<lparr>eink := (eink s)\<lparr>badge_eink_tmpbuf := if p = 0 then None else Some (replicate plane_words 0)\<rparr>\<rparr> in
      if p = 0 then Some (ESP_ERR_NO_MEM, s)
      else let dev = badge_eink_dev_type (edev s);
               (p, s) = (if dev = BADGE_EINK_DEPG0290B1
                         then let (p, s) = ext ''heap_caps_malloc'' [int (DISP_SIZE_X_B * DISP_SIZE_Y)] s
                              in (p, s\<lparr>eink := (eink s)\<lparr>badge_eink_oldbuf := if p = 0 then None else Some (replicate plane_words 0)\<rparr>\<rparr>)
                         else (p, s)) in
      if p = 0 then Some (ESP_ERR_NO_MEM, s)
      else do {
        let s = (if dev \<noteq> BADGE_EINK_NONE then snd (badge_eink_dev_reset s) else s);
        s \<leftarrow> foldl (\<lambda>r (c, ps). Option.bind r (badge_eink_dev_write_command_p c ps)) (Some s) (eink_commands dev);
        Some (ESP_OK, s\<lparr>eink := (eink s)\<lparr>badge_eink_init_done := True\<rparr>\<rparr>)
      })"

end
