(* ===== verification/Badge_Display.thy ===== *)
theory Badge_Display
  imports Badge_Input Badge_I2c
begin

text \<open>
  The monochrome display of the Disobey badge (components/badge/badge_erc12864.c) and the frame
  buffer (badge_fb.c).
\<close>

section \<open>badge_erc12864.c\<close>

definition erc_addr :: "fw \<Rightarrow> u8" where
  "erc_addr s = word_of_int (macro s ''I2C_ERC12864_ADDR'')"

definition set_page_address :: "u8 \<Rightarrow> fw \<Rightarrow> (esp_err \<times> fw) option" where
  "set_page_address page s = badge_i2c_write_reg (erc_addr s) 0x38 (0xb0 OR page) s"

definition set_column :: "u8 \<Rightarrow> fw \<Rightarrow> (esp_err \<times> fw) option" where
  "set_column column s = badge_i2c_write_buffer (erc_addr s) [0x38, 0x10 OR drop_bit 4 column, (0x0f AND column) OR 0x04] s"

definition reverse :: "u8 \<Rightarrow> u8" where
  "reverse b =
     (let b = drop_bit 4 (b AND 0xF0) OR push_bit 4 (b AND 0x0F);
          b = drop_bit 2 (b AND 0xCC) OR push_bit 2 (b AND 0x33)
      in drop_bit 1 (b AND 0xAA) OR push_bit 1 (b AND 0x55))"

text \<open>The 32 bytes for column block \<open>num\<close> of a page.\<close>

definition erc_block :: "bool \<Rightarrow> u8 list \<Rightarrow> nat \<Rightarrow> nat \<Rightarrow> u8 list" where
  "erc_block fl buffer page num =
     (let offset = 128 * page + 32 * num
      in if fl then map (\<lambda>i. reverse (buffer ! (1023 - offset - i))) [0..<32]
         else take 32 (drop offset buffer))"

text \<open>The inner loop is left by \<open>break\<close> on an error, with \<open>res\<close> set.\<close>

fun erc_columns :: "u8 list \<Rightarrow> nat \<Rightarrow> nat list \<Rightarrow> esp_err \<Rightarrow> fw \<Rightarrow> (esp_err \<times> fw) option" where
  "erc_columns buffer page [] res s = Some (res, s)"
| "erc_columns buffer page (num # nums) _ s = do {
     (res, s) \<leftarrow> set_column (of_nat (num * 0x20)) s;
     if res \<noteq> ESP_OK then Some (res, s)
     else do {
       (res, s) \<leftarrow> badge_i2c_write_buffer (erc_addr s + 1) (erc_block (flip (erc s)) buffer page num) s;
       if res \<noteq> ESP_OK then Some (res, s) else erc_columns buffer page nums res s
     }
   }"

text \<open>The outer loop is left only when setting the page address fails.\<close>

fun erc_pages :: "u8 list \<Rightarrow> nat list \<Rightarrow> esp_err \<Rightarrow> fw \<Rightarrow> (esp_err \<times> fw) option" where
  "erc_pages buffer [] res s = Some (res, s)"
| "erc_pages buffer (page # pages) _ s = do {
     (res, s) \<leftarrow> set_page_address (of_nat page) s;
     if res \<noteq> ESP_OK then Some (res, s)
     else do {
       (res, s) \<leftarrow> erc_columns buffer page [0..<4] res s;
       erc_pages buffer pages res s
     }
   }"

definition badge_erc12864_write :: "u8 list \<Rightarrow> fw \<Rightarrow> (esp_err \<times> fw) option" where
  "badge_erc12864_write buffer s = (if length buffer < 1024 then None else erc_pages buffer [0..<8] ESP_OK s)"

definition badge_erc12864_init :: "fw \<Rightarrow> (esp_err \<times> fw) option" where
  "badge_erc12864_init s =
     (if badge_erc12864_init_done (erc s) then Some (ESP_OK, s)
      else let (res, s) = badge_base_init s in
      if res \<noteq> ESP_OK then Some (res, s)
      else let (res, s) = badge_i2c_init s in
      if res \<noteq> ESP_OK then Some (res, s)
      else do {
        (res, s) \<leftarrow> badge_i2c_write_buffer (erc_addr s) [0x38, 0x2f, 0xA2, 0xA1, 0xC8, 0x24, 0x81, 37, 0x40, 0xAF] s;
        if res \<noteq> ESP_OK then Some (res, s)
        else do {
          (_, s) \<leftarrow> badge_erc12864_write (replicate 1024 0) s;
          Some (ESP_OK, s\<lparr>erc := (erc s)\<lparr>badge_erc12864_init_done := True\<rparr>\<rparr>)
        }
      })"

text \<open>Eight bits per pixel to one: dark pixels are set bits, eight rows to a byte.\<close>

definition compat_byte :: "u8 list \<Rightarrow> nat \<Rightarrow> nat \<Rightarrow> u8" where
  "compat_byte buffer y x =
     foldl (\<lambda>v targetBit. if buffer ! ((y * 8 + targetBit) * 128 + x) < 128 then v + push_bit targetBit 1 else v) 0 [0..<8]"

definition compat_buffer :: "u8 list \<Rightarrow> u8 list" where
  "compat_buffer buffer = concat (map (\<lambda>y. map (compat_byte buffer y) [0..<128]) [0..<8])"

definition badge_erc12864_write_8bitcompat :: "u8 list \<Rightarrow> fw \<Rightarrow> (esp_err \<times> fw) option" where
  "badge_erc12864_write_8bitcompat buffer s =
     (if length buffer < 128 * 64 then None else badge_erc12864_write (compat_buffer buffer) s)"

definition badge_erc12864_set_rotation :: "bool \<Rightarrow> fw \<Rightarrow> fw" where
  "badge_erc12864_set_rotation newFlip s = s\<lparr>erc := (erc s)\<lparr>flip := newFlip\<rparr>\<rparr>"

section \<open>badge_fb.c\<close>

abbreviation BADGE_EINK_WIDTH :: nat where "BADGE_EINK_WIDTH \<equiv> 296"
abbreviation BADGE_EINK_HEIGHT :: nat where "BADGE_EINK_HEIGHT \<equiv> 128"

text \<open>A fresh frame buffer has unspecified contents; the model takes zeros.\<close>

definition badge_fb_init :: "fw \<Rightarrow> esp_err \<times> fw" where
  "badge_fb_init s =
     (if badge_fb s \<noteq> None then (ESP_OK, s)
      else let n = BADGE_EINK_WIDTH * BADGE_EINK_HEIGHT;
               (p, s) = ext ''malloc'' [int n] s
           in if p = 0 then (ESP_ERR_NO_MEM, s) else (ESP_OK, s\<lparr>badge_fb := Some (replicate n 0)\<rparr>))"

definition update_byte :: "u8 list \<Rightarrow> nat \<Rightarrow> (u8 \<Rightarrow> u8) \<Rightarrow> u8 list option" where
  "update_byte buf pos f = (if pos < length buf then Some (buf[pos := f (buf ! pos)]) else None)"

text \<open>
  For the monochrome display there is no bounds check; the index is an \<open>uint16_t\<close> and C's division
  rounds to zero.  A negative row makes the bit number a large \<open>uint8_t\<close>, and the shift undefined.
\<close>

definition c_div8 :: "int \<Rightarrow> int" where
  "c_div8 y = (if y \<ge> 0 then y div 8 else - ((- y) div 8))"

definition draw_pixel_erc :: "u8 list \<Rightarrow> int \<Rightarrow> int \<Rightarrow> int \<Rightarrow> u8 list option" where
  "draw_pixel_erc buf x y c =
     (let targetByte = unat (word_of_int (c_div8 y * 128 + x) :: u16);
          targetBit = y - 8 * c_div8 y
      in if targetBit < 0 then None
         else update_byte buf targetByte (put_bit (nat targetBit) (\<not> c > 128)))"

definition draw_pixel_eink :: "u8 list \<Rightarrow> int \<Rightarrow> int \<Rightarrow> int \<Rightarrow> u8 list option" where
  "draw_pixel_eink buf x y c =
     (if x < 0 \<or> x > int BADGE_EINK_WIDTH - 1 \<or> y < 0 \<or> y > int BADGE_EINK_HEIGHT - 1 then Some buf
      else let pos = drop_bit 3 x + y * (int BADGE_EINK_WIDTH div 8)
           in update_byte buf (nat pos) (put_bit (nat (x AND 7)) (\<not> c < 128)))"

definition draw_pixel :: "bool \<Rightarrow> u8 list \<Rightarrow> int \<Rightarrow> int \<Rightarrow> int \<Rightarrow> u8 list option" where
  "draw_pixel has_erc = (if has_erc then draw_pixel_erc else draw_pixel_eink)"

definition draw_pixel_8b :: "bool \<Rightarrow> u8 list \<Rightarrow> int \<Rightarrow> int \<Rightarrow> int \<Rightarrow> u8 list option" where
  "draw_pixel_8b has_erc buf x y c =
     (if has_erc then draw_pixel_erc buf x y c
      else if x < 0 \<or> x > int BADGE_EINK_WIDTH - 1 \<or> y < 0 \<or> y > int BADGE_EINK_HEIGHT - 1 then Some buf
      else update_byte buf (nat (x + y * int BADGE_EINK_WIDTH)) (\<lambda>_. word_of_int c))"

end
