(* ===== verification/Badge_Infrared.thy ===== *)
theory Badge_Infrared
  imports Badge_World
begin

text \<open>
  components/badge/badge_infrared.c: NEC infrared frames as waveforms of the remote-control
  peripheral.  A frame is a header, 16 address bits, 16 data bits and an end mark: 34 items, each
  with two levels and two 15-bit durations in ticks, 8 ticks to 10 microseconds.
\<close>

section \<open>Waveforms\<close>

record rmt_item32 =
  level0 :: bool
  duration0 :: nat
  level1 :: bool
  duration1 :: nat

abbreviation RMT_TICK_10_US :: nat where "RMT_TICK_10_US \<equiv> 8"
abbreviation NEC_HEADER_HIGH_US :: nat where "NEC_HEADER_HIGH_US \<equiv> 9000"
abbreviation NEC_HEADER_LOW_US :: nat where "NEC_HEADER_LOW_US \<equiv> 4500"
abbreviation NEC_BIT_HIGH_US :: nat where "NEC_BIT_HIGH_US \<equiv> 560"
abbreviation NEC_BIT_ONE_LOW_US :: nat where "NEC_BIT_ONE_LOW_US \<equiv> 1690"
abbreviation NEC_BIT_ZERO_LOW_US :: nat where "NEC_BIT_ZERO_LOW_US \<equiv> 560"
abbreviation NEC_BIT_MARGIN :: nat where "NEC_BIT_MARGIN \<equiv> 50"
abbreviation NEC_DATA_ITEM_NUM :: nat where "NEC_DATA_ITEM_NUM \<equiv> 34"

definition nec_item_duration :: "nat \<Rightarrow> nat" where
  "nec_item_duration d = (d mod 0x8000) * 10 div RMT_TICK_10_US"

definition nec_fill_item_level :: "nat \<Rightarrow> nat \<Rightarrow> rmt_item32" where
  "nec_fill_item_level high_us low_us =
     \<lparr>level0 = True, duration0 = high_us div 10 * RMT_TICK_10_US mod 0x8000,
      level1 = False, duration1 = low_us div 10 * RMT_TICK_10_US mod 0x8000\<rparr>"

definition nec_fill_item_header :: rmt_item32 where
  "nec_fill_item_header = nec_fill_item_level NEC_HEADER_HIGH_US NEC_HEADER_LOW_US"

definition nec_fill_item_bit_one :: rmt_item32 where
  "nec_fill_item_bit_one = nec_fill_item_level NEC_BIT_HIGH_US NEC_BIT_ONE_LOW_US"

definition nec_fill_item_bit_zero :: rmt_item32 where
  "nec_fill_item_bit_zero = nec_fill_item_level NEC_BIT_HIGH_US NEC_BIT_ZERO_LOW_US"

definition nec_fill_item_end :: rmt_item32 where
  "nec_fill_item_end = nec_fill_item_level 560 0x7fff"

definition nec_check_in_range :: "nat \<Rightarrow> nat \<Rightarrow> nat \<Rightarrow> bool" where
  "nec_check_in_range duration_ticks target_us margin_us \<longleftrightarrow>
     nec_item_duration duration_ticks < target_us + margin_us \<and> int (nec_item_duration duration_ticks) > int target_us - int margin_us"

text \<open>\<open>RMT_RX_ACTIVE_LEVEL\<close> is 0: the receiver inverts the signal.\<close>

definition nec_item_if :: "nat \<Rightarrow> nat \<Rightarrow> rmt_item32 \<Rightarrow> bool" where
  "nec_item_if high_us low_us item \<longleftrightarrow> \<not> level0 item \<and> level1 item \<and>
     nec_check_in_range (duration0 item) high_us NEC_BIT_MARGIN \<and> nec_check_in_range (duration1 item) low_us NEC_BIT_MARGIN"

definition nec_header_if :: "rmt_item32 \<Rightarrow> bool" where
  "nec_header_if = nec_item_if NEC_HEADER_HIGH_US NEC_HEADER_LOW_US"

definition nec_bit_one_if :: "rmt_item32 \<Rightarrow> bool" where
  "nec_bit_one_if = nec_item_if NEC_BIT_HIGH_US NEC_BIT_ONE_LOW_US"

definition nec_bit_zero_if :: "rmt_item32 \<Rightarrow> bool" where
  "nec_bit_zero_if = nec_item_if NEC_BIT_HIGH_US NEC_BIT_ZERO_LOW_US"

section \<open>Parsing and building\<close>

text \<open>The loop over 16 bits, least significant first; \<open>None\<close> is the return of -1.\<close>

fun nec_parse_bits :: "rmt_item32 list \<Rightarrow> nat \<Rightarrow> u16 \<Rightarrow> u16 option" where
  "nec_parse_bits [] j v = Some v"
| "nec_parse_bits (item # items) j v =
     (if nec_bit_one_if item then nec_parse_bits items (Suc j) (v OR push_bit j 1)
      else if nec_bit_zero_if item then nec_parse_bits items (Suc j) v
      else None)"

text \<open>The number of bits parsed with the address and the data; \<open>None\<close> is the return of -1.\<close>

definition nec_parse_items :: "rmt_item32 list \<Rightarrow> (nat \<times> u16 \<times> u16) option" where
  "nec_parse_items items =
     (if length items < NEC_DATA_ITEM_NUM then None
      else if \<not> nec_header_if (hd items) then None
      else do {
        addr \<leftarrow> nec_parse_bits (take 16 (drop 1 items)) 0 0;
        data \<leftarrow> nec_parse_bits (take 16 (drop 17 items)) 0 0;
        Some (32, addr, data)
      })"

definition nec_build_bits :: "u16 \<Rightarrow> rmt_item32 list" where
  "nec_build_bits v = map (\<lambda>j. if bit v j then nec_fill_item_bit_one else nec_fill_item_bit_zero) [0..<16]"

text \<open>The items that are written, in a buffer with room for \<open>item_num\<close>.\<close>

definition nec_build_items :: "nat \<Rightarrow> u16 \<Rightarrow> u16 \<Rightarrow> rmt_item32 list option" where
  "nec_build_items item_num addr cmd_data =
     (if item_num < NEC_DATA_ITEM_NUM then None
      else Some (nec_fill_item_header # nec_build_bits addr @ nec_build_bits cmd_data @ [nec_fill_item_end]))"

section \<open>The tasks\<close>

text \<open>One received buffer: the frames that the inner loop of the receive task reports.\<close>

function nec_rx_frames :: "rmt_item32 list \<Rightarrow> nat \<Rightarrow> (u16 \<times> u16) list" where
  "nec_rx_frames items offset =
     (case nec_parse_items (drop offset items) of
        None \<Rightarrow> []
      | Some (res, addr, cmd) \<Rightarrow> (addr, cmd) # nec_rx_frames items (offset + (res + 1)))"
  by pat_completeness auto
termination
proof (relation "measure (\<lambda>(items, offset). length items - offset)")
  fix items offset x res y addr cmd
  assume "nec_parse_items (drop offset items) = Some x" and "(res, y) = x" and "(addr, cmd) = y"
  then show "((items, offset + (res + 1)), items, offset) \<in> measure (\<lambda>(items, offset). length items - offset)"
    by (auto simp: nec_parse_items_def split: if_splits)
qed simp

declare nec_rx_frames.simps [simp del]

definition nec_tx_init :: "fw \<Rightarrow> fw" where
  "nec_tx_init s =
     (if defined_in s ''PIN_NUM_IR_TX''
      then snd (ext ''rmt_driver_install'' [1, 0, 0]
             (snd (ext ''rmt_config'' [1, macro s ''PIN_NUM_IR_TX'', 1, 100, 0, 50, 38000, 1, 1, 0, 1, 0] s)))
      else s)"

definition nec_rx_init :: "fw \<Rightarrow> fw" where
  "nec_rx_init s =
     (if defined_in s ''PIN_NUM_IR_RX''
      then snd (ext ''rmt_driver_install'' [0, 1000, 0]
             (snd (ext ''rmt_config'' [0, macro s ''PIN_NUM_IR_RX'', 100, 1, 1, 1, 100, 9500 div 10 * 8] s)))
      else s)"

text \<open>The buffer of the transmit task: frames as long as they fit.\<close>

function nec_tx_items :: "nat \<Rightarrow> u16 \<Rightarrow> u16 \<Rightarrow> rmt_item32 list" where
  "nec_tx_items room addr cmd =
     (case nec_build_items room addr cmd of
        None \<Rightarrow> []
      | Some items \<Rightarrow> items @ nec_tx_items (room - length items) addr cmd)"
  by pat_completeness auto
termination
proof (relation "measure (\<lambda>(room, a, c). room)")
  fix room addr cmd items
  assume "nec_build_items room addr cmd = Some items"
  then show "((room - length items, addr, cmd), room, addr, cmd) \<in> measure (\<lambda>(room, a, c). room)"
    by (auto simp: nec_build_items_def split: if_splits)
qed simp

declare nec_tx_items.simps [simp del]

definition start_infrared_rx :: "fw \<Rightarrow> fw" where
  "start_infrared_rx s = snd (ext ''xTaskCreate:rmt_example_nec_rx_task'' [2048, 10] s)"

definition start_infrared_tx :: "fw \<Rightarrow> fw" where
  "start_infrared_tx s = snd (ext ''xTaskCreate:rmt_example_nec_tx_task'' [2048, 10] s)"

end
