(* ===== verification/Badge_Pins.thy ===== *)
theory Badge_Pins
  imports Badge_World
begin

text \<open>
  components/badge/badge_pins.h: which pin does what on each revision of the badge.  A revision is
  the list of the macros it defines; a flag without a value counts as 1.
\<close>

definition pins_sha_v1 :: "(string \<times> int) list" where
  "pins_sha_v1 = [
     (''PIN_NUM_LED'', 22), (''PIN_NUM_BUTTON_A'', 0), (''PIN_NUM_BUTTON_B'', 27),
     (''PIN_NUM_BUTTON_START'', 25), (''PIN_NUM_BUTTON_UP'', 26), (''PIN_NUM_BUTTON_DOWN'', 32),
     (''PIN_NUM_BUTTON_LEFT'', 33), (''PIN_NUM_BUTTON_RIGHT'', 35), (''PIN_NUM_EPD_CLK'', 5),
     (''PIN_NUM_EPD_MOSI'', 17), (''PIN_NUM_EPD_CS'', 18), (''PIN_NUM_EPD_DATA'', 19),
     (''PIN_NUM_EPD_RESET'', 23), (''PIN_NUM_EPD_BUSY'', 21), (''PIN_NUM_SD_CD'', 16),
     (''PIN_NUM_SD_CLK'', 14), (''PIN_NUM_SD_CMD'', 15), (''PIN_NUM_SD_DATA_0'', 2),
     (''PIN_NUM_SD_DATA_1'', 4), (''PIN_NUM_SD_DATA_2'', 12), (''PIN_NUM_SD_DATA_3'', 13)]"

definition pins_sha_v2 :: "(string \<times> int) list" where
  "pins_sha_v2 = [
     (''PIN_NUM_LEDS'', 32), (''PIN_NUM_BUTTON_FLASH'', 0), (''PIN_NUM_EPD_CLK'', 18),
     (''PIN_NUM_EPD_MOSI'', 5), (''PIN_NUM_EPD_CS'', 19), (''PIN_NUM_EPD_DATA'', 21),
     (''PIN_NUM_EPD_RESET'', 23), (''PIN_NUM_EPD_BUSY'', 22), (''EPD_ROTATED_180'', 1),
     (''PIN_NUM_I2C_CLK'', 27), (''PIN_NUM_I2C_DATA'', 26), (''PIN_NUM_FXL6408_INT'', 25),
     (''PIN_NUM_EXT_IO_0'', 33), (''PIN_NUM_EXT_IO_1'', 16), (''PIN_NUM_EXT_IO_2'', 17),
     (''PIN_NUM_SD_CLK'', 14), (''PIN_NUM_SD_CMD'', 15), (''PIN_NUM_SD_DATA_0'', 2),
     (''PIN_NUM_SD_DATA_1'', 4), (''PIN_NUM_SD_DATA_2'', 12), (''PIN_NUM_SD_DATA_3'', 13),
     (''PIN_NUM_VUSB_SENSE'', 34), (''PIN_NUM_VBAT_SENSE'', 35), (''ADC1_CHAN_VUSB_SENSE'', 6),
     (''ADC1_CHAN_VBAT_SENSE'', 7), (''I2C_FXL6408_ADDR'', 68), (''I2C_CPT112S_ADDR'', 120),
     (''FXL6408_PIN_NUM_CHRGSTAT'', 0), (''FXL6408_PIN_NUM_VIBRATOR'', 1), (''FXL6408_PIN_NUM_LEDS'', 2),
     (''FXL6408_PIN_NUM_CPT112S'', 3), (''FXL6408_PIN_NUM_SD_CD'', 4), (''FXL6408_PIN_NUM_EXT_IO_5'', 5),
     (''FXL6408_PIN_NUM_EXT_IO_4'', 6), (''FXL6408_PIN_NUM_EXT_IO_3'', 7), (''CPT112S_PIN_NUM_LEFT'', 2),
     (''CPT112S_PIN_NUM_UP'', 3), (''CPT112S_PIN_NUM_RIGHT'', 4), (''CPT112S_PIN_NUM_DOWN'', 5),
     (''CPT112S_PIN_NUM_SELECT'', 7), (''CPT112S_PIN_NUM_START'', 8), (''CPT112S_PIN_NUM_B'', 9),
     (''CPT112S_PIN_NUM_A'', 11)]"

definition pins_sha_v3 :: "(string \<times> int) list" where
  "pins_sha_v3 = [
     (''PIN_NUM_LEDS'', 32), (''PIN_NUM_BUTTON_FLASH'', 0), (''PIN_NUM_EPD_CLK'', 18),
     (''PIN_NUM_EPD_MOSI'', 5), (''PIN_NUM_EPD_CS'', 19), (''PIN_NUM_EPD_DATA'', 21),
     (''PIN_NUM_EPD_RESET'', 23), (''PIN_NUM_EPD_BUSY'', 22), (''EPD_ROTATED_180'', 1),
     (''PIN_NUM_I2C_CLK'', 27), (''PIN_NUM_I2C_DATA'', 26), (''PIN_NUM_MPR121_INT'', 25),
     (''PIN_NUM_EXT_IO_0'', 33), (''PIN_NUM_EXT_IO_1'', 16), (''PIN_NUM_EXT_IO_2'', 17),
     (''PIN_NUM_EXT_IO_3'', 4), (''PIN_NUM_EXT_IO_4'', 12), (''PIN_NUM_SD_CLK'', 14),
     (''PIN_NUM_SD_CMD'', 15), (''PIN_NUM_SD_DATA_0'', 2), (''PIN_NUM_SD_DATA_3'', 13),
     (''PIN_NUM_VUSB_SENSE'', 34), (''PIN_NUM_VBAT_SENSE'', 35), (''ADC1_CHAN_VUSB_SENSE'', 6),
     (''ADC1_CHAN_VBAT_SENSE'', 7), (''I2C_MPR121_ADDR'', 90), (''MPR121_PIN_NUM_A'', 0),
     (''MPR121_PIN_NUM_B'', 1), (''MPR121_PIN_NUM_START'', 2), (''MPR121_PIN_NUM_SELECT'', 3),
     (''MPR121_PIN_NUM_DOWN'', 4), (''MPR121_PIN_NUM_RIGHT'', 5), (''MPR121_PIN_NUM_UP'', 6),
     (''MPR121_PIN_NUM_LEFT'', 7), (''MPR121_PIN_NUM_VIBRATOR'', 8), (''MPR121_PIN_NUM_CHRGSTAT'', 9),
     (''MPR121_PIN_NUM_LEDS'', 10), (''MPR121_PIN_NUM_SD_CD'', 11)]"

definition pins_sha_v3_lite :: "(string \<times> int) list" where
  "pins_sha_v3_lite = [
     (''PIN_NUM_LEDS'', 32), (''PIN_NUM_BUTTON_FLASH'', 0), (''PIN_NUM_EPD_CLK'', 18),
     (''PIN_NUM_EPD_MOSI'', 5), (''PIN_NUM_EPD_CS'', 19), (''PIN_NUM_EPD_DATA'', 21),
     (''PIN_NUM_EPD_RESET'', 23), (''PIN_NUM_EPD_BUSY'', 22), (''EPD_ROTATED_180'', 1),
     (''PIN_NUM_I2C_CLK'', 27), (''PIN_NUM_I2C_DATA'', 26), (''PIN_NUM_EXT_IO_0'', 33),
     (''PIN_NUM_EXT_IO_1'', 16), (''PIN_NUM_EXT_IO_2'', 17), (''PIN_NUM_EXT_IO_3'', 4),
     (''PIN_NUM_EXT_IO_4'', 12), (''PIN_NUM_SD_CLK'', 14), (''PIN_NUM_SD_CMD'', 15),
     (''PIN_NUM_SD_DATA_0'', 2), (''PIN_NUM_SD_DATA_3'', 13), (''PIN_NUM_VUSB_SENSE'', 34),
     (''PIN_NUM_VBAT_SENSE'', 35), (''ADC1_CHAN_VUSB_SENSE'', 6), (''ADC1_CHAN_VBAT_SENSE'', 7)]"

definition pins_disobey :: "(string \<times> int) list" where
  "pins_disobey = [
     (''PIN_NUM_BUTTON_FLASH'', 0), (''PIN_NUM_I2C_CLK'', 22), (''PIN_NUM_I2C_DATA'', 23),
     (''PIN_NUM_DISOBEY_SAMD_INT'', 25), (''I2C_DISOBEY_SAMD_ADDR'', 48), (''I2C_ERC12864_ADDR'', 56),
     (''ERC12864_FLIP'', 1)]"

definition pins_hackerhotel_v0 :: "(string \<times> int) list" where
  "pins_hackerhotel_v0 = [
     (''PIN_NUM_LEDS'', 32), (''PIN_NUM_BUTTON_FLASH'', 0), (''PIN_NUM_EPD_CLK'', 18),
     (''PIN_NUM_EPD_MOSI'', 5), (''PIN_NUM_EPD_CS'', 19), (''PIN_NUM_EPD_DATA'', 21),
     (''PIN_NUM_EPD_RESET'', 23), (''PIN_NUM_EPD_BUSY'', 22), (''EPD_ROTATED_180'', 1),
     (''PIN_NUM_I2C_CLK'', 27), (''PIN_NUM_I2C_DATA'', 26), (''PIN_NUM_MPR121_INT'', 25),
     (''PIN_NUM_EXT_IO_0'', 33), (''PIN_NUM_EXT_IO_1'', 16), (''PIN_NUM_EXT_IO_2'', 17),
     (''PIN_NUM_EXT_IO_3'', 4), (''PIN_NUM_EXT_IO_4'', 12), (''PIN_NUM_SD_CLK'', 14),
     (''PIN_NUM_SD_CMD'', 15), (''PIN_NUM_SD_DATA_0'', 2), (''PIN_NUM_SD_DATA_3'', 13),
     (''PIN_NUM_VUSB_SENSE'', 34), (''PIN_NUM_VBAT_SENSE'', 35), (''ADC1_CHAN_VUSB_SENSE'', 6),
     (''ADC1_CHAN_VBAT_SENSE'', 7), (''I2C_MPR121_ADDR'', 90), (''MPR121_PIN_NUM_A'', 0),
     (''MPR121_PIN_NUM_B'', 1), (''MPR121_PIN_NUM_START'', 2), (''MPR121_PIN_NUM_SELECT'', 3),
     (''MPR121_PIN_NUM_DOWN'', 4), (''MPR121_PIN_NUM_RIGHT'', 5), (''MPR121_PIN_NUM_UP'', 6),
     (''MPR121_PIN_NUM_LEFT'', 7), (''MPR121_PIN_NUM_VIBRATOR'', 8), (''MPR121_PIN_NUM_CHRGSTAT'', 9),
     (''MPR121_PIN_NUM_LEDS'', 10), (''IIS_SCLK'', 13), (''IIS_LCLK'', 15),
     (''IIS_DSIN'', 2), (''IIS_DOUT'', -1)]"

definition pins_hackerhotel_v1 :: "(string \<times> int) list" where
  "pins_hackerhotel_v1 = [
     (''PIN_NUM_BUTTON_FLASH'', 0), (''IIS_DSIN'', 2), (''PIN_NUM_VIBRATOR'', 4),
     (''PIN_NUM_EPD_MOSI'', 5), (''PIN_NUM_IR_RX'', 12), (''IIS_SCLK'', 13),
     (''PIN_NUM_IR_TX'', 14), (''IIS_LCLK'', 15), (''PIN_NUM_EPD_CLK'', 18),
     (''PIN_NUM_EPD_CS'', 19), (''PIN_NUM_EPD_DATA'', 21), (''PIN_NUM_EPD_BUSY'', 22),
     (''PIN_NUM_EPD_RESET'', 23), (''PIN_NUM_MPR121_INT'', 25), (''PIN_NUM_I2C_DATA'', 26),
     (''PIN_NUM_I2C_CLK'', 27), (''PIN_NUM_LEDS'', 32), (''PIN_NUM_EXT_IO_0'', 33),
     (''PIN_NUM_VUSB_SENSE'', 34), (''PIN_NUM_VBAT_SENSE'', 35), (''IIS_DOUT'', -1),
     (''MPR121_PIN_NUM_A'', 2), (''MPR121_PIN_NUM_B'', 7), (''MPR121_PIN_NUM_START'', 1),
     (''MPR121_PIN_NUM_SELECT'', 0), (''MPR121_PIN_NUM_DOWN'', 5), (''MPR121_PIN_NUM_RIGHT'', 6),
     (''MPR121_PIN_NUM_UP'', 3), (''MPR121_PIN_NUM_LEFT'', 4), (''MPR121_PIN_NUM_CHRGSTAT'', 9),
     (''MPR121_PIN_NUM_LEDS'', 10), (''ADC1_CHAN_VUSB_SENSE'', 6), (''ADC1_CHAN_VBAT_SENSE'', 7),
     (''I2C_MPR121_ADDR'', 90), (''EPD_ROTATED_180'', 1)]"

text \<open>The configuration of a build: the pins of its revision and the options of \<open>sdkconfig.h\<close>.\<close>

definition build_config :: "(string \<times> int) list \<Rightarrow> (string \<times> int) list \<Rightarrow> string \<rightharpoonup> int" where
  "build_config pins options = map_of (pins @ options)"

end
