(* ===== verification/Badge_Main.thy ===== *)
theory Badge_Main
  imports Badge_Power Badge_Nvs Badge_Eink Badge_Display Badge_Infrared Badge_Pins
begin

text \<open>
  components/badge/badge.c, which initialises the drivers and turns the events of the touch
  controllers into button events, and main/main.c, which decides what runs after a reset.
\<close>

section \<open>Buttons\<close>

datatype badge_button_t =
    BADGE_BUTTON_UP | BADGE_BUTTON_DOWN | BADGE_BUTTON_LEFT | BADGE_BUTTON_RIGHT | BADGE_BUTTON_A
  | BADGE_BUTTON_B | BADGE_BUTTON_SELECT | BADGE_BUTTON_START | BADGE_BUTTON_FLASH

fun button_id :: "badge_button_t \<Rightarrow> u32" where
  "button_id BADGE_BUTTON_UP = 1"
| "button_id BADGE_BUTTON_DOWN = 2"
| "button_id BADGE_BUTTON_LEFT = 3"
| "button_id BADGE_BUTTON_RIGHT = 4"
| "button_id BADGE_BUTTON_A = 6"
| "button_id BADGE_BUTTON_B = 7"
| "button_id BADGE_BUTTON_SELECT = 8"
| "button_id BADGE_BUTTON_START = 9"
| "button_id BADGE_BUTTON_FLASH = 10"

section \<open>Event handlers\<close>

definition samd_conv :: "u32 list" where
  "samd_conv = map button_id [BADGE_BUTTON_LEFT, BADGE_BUTTON_UP, BADGE_BUTTON_B, BADGE_BUTTON_START, BADGE_BUTTON_DOWN, BADGE_BUTTON_RIGHT]"

definition disobey_samd_event_handler :: "int \<Rightarrow> int \<Rightarrow> fw \<Rightarrow> fw" where
  "disobey_samd_event_handler pressed released s =
     foldl (\<lambda>s btn.
        let b = samd_conv ! btn;
            s = (if bit pressed btn then badge_input_add_event b True False s else s)
        in if bit released btn then badge_input_add_event b False False s else s) s [0..<6]"

text \<open>The conversion table is indexed by the pin macros; the entries no macro names are 0.\<close>

definition cpt112s_conv :: "fw \<Rightarrow> u32 list" where
  "cpt112s_conv s = foldl (\<lambda>t (x, b). t[nat (macro s x) := button_id b]) (replicate 12 0)
     [(''CPT112S_PIN_NUM_LEFT'', BADGE_BUTTON_LEFT), (''CPT112S_PIN_NUM_UP'', BADGE_BUTTON_UP),
      (''CPT112S_PIN_NUM_RIGHT'', BADGE_BUTTON_RIGHT), (''CPT112S_PIN_NUM_DOWN'', BADGE_BUTTON_DOWN),
      (''CPT112S_PIN_NUM_SELECT'', BADGE_BUTTON_SELECT), (''CPT112S_PIN_NUM_START'', BADGE_BUTTON_START),
      (''CPT112S_PIN_NUM_B'', BADGE_BUTTON_B), (''CPT112S_PIN_NUM_A'', BADGE_BUTTON_A)]"

definition cpt112s_event_handler :: "int \<Rightarrow> fw \<Rightarrow> fw" where
  "cpt112s_event_handler event s =
     (let event_type = drop_bit 16 event AND 0x0f; key = drop_bit 8 event AND 0xff in
      if event_type = 0 \<or> event_type = 1
      then if key < 12
           then let b = cpt112s_conv s ! nat key
                in if b \<noteq> 0 then badge_input_add_event b (event_type = 0) False s else s
           else s
      else s)"

definition mpr121_event_handler :: "int \<Rightarrow> bool \<Rightarrow> fw \<Rightarrow> fw" where
  "mpr121_event_handler b pressed s = badge_input_add_event (word_of_int b) pressed False s"

text \<open>The calls through the function pointers of the drivers.\<close>

fun call_cpt112s :: "callback \<Rightarrow> int \<Rightarrow> fw \<Rightarrow> fw option" where
  "call_cpt112s CB_cpt112s_event event s = Some (cpt112s_event_handler event s)"
| "call_cpt112s (CB_user f) event s = Some (snd (ext ''callback'' [f, event] s))"
| "call_cpt112s _ event s = None"

fun call_fxl6408 :: "callback \<Rightarrow> int \<Rightarrow> fw \<Rightarrow> fw option" where
  "call_fxl6408 CB_cpt112s_intr arg s = badge_cpt112s_intr_handler call_cpt112s s"
| "call_fxl6408 (CB_user f) arg s = Some (snd (ext ''callback'' [f, arg] s))"
| "call_fxl6408 _ arg s = None"

fun call_mpr121 :: "callback \<Rightarrow> int \<Rightarrow> bool \<Rightarrow> fw \<Rightarrow> fw option" where
  "call_mpr121 CB_mpr121_event arg pressed s = Some (mpr121_event_handler arg pressed s)"
| "call_mpr121 (CB_user f) arg pressed s = Some (snd (ext ''callback'' [f, arg, of_bool pressed] s))"
| "call_mpr121 _ arg pressed s = None"

fun call_samd :: "callback \<Rightarrow> int \<Rightarrow> int \<Rightarrow> fw \<Rightarrow> fw option" where
  "call_samd CB_samd_event pressed released s = Some (disobey_samd_event_handler pressed released s)"
| "call_samd (CB_user f) pressed released s = Some (snd (ext ''callback'' [f, pressed, released] s))"
| "call_samd _ pressed released s = None"

section \<open>badge_init\<close>

definition baseline_key :: "nat \<Rightarrow> string" where
  "baseline_key idx = ''mpr121.base.'' @ [''01234567'' ! idx]"

definition nvs_baseline_helper :: "nat \<Rightarrow> fw \<Rightarrow> (esp_err \<times> u32 option) \<times> fw" where
  "nvs_baseline_helper idx s =
     (if idx > 7 then ((-1, None), s)
      else let ((err, v), s) = badge_nvs_get_u16 ''badge'' (baseline_key idx) s
           in ((err, map_option ucast v), s))"

definition default_baseline :: "u32 list" where
  "default_baseline = [0x0138, 0x0144, 0x0170, 0x0174, 0x00f0, 0x0103, 0x00ff, 0x00ed]"

text \<open>The baseline from the configuration, and whether all of it was there.\<close>

definition mpr121_baseline :: "fw \<Rightarrow> (u32 list \<times> bool) \<times> fw" where
  "mpr121_baseline s =
     foldl (\<lambda>((b, strict), s) i.
        let ((err, v), s) = nvs_baseline_helper i s
        in (((case v of Some v \<Rightarrow> b[i := v] | None \<Rightarrow> b), strict \<and> err = ESP_OK), s))
       ((default_baseline, True), s) [0..<8]"

definition eink_type_of :: "u8 \<Rightarrow> badge_eink_dev_t" where
  "eink_type_of v = (if v = 1 then BADGE_EINK_GDEH029A1 else if v = 2 then BADGE_EINK_DEPG0290B1 else BADGE_EINK_NONE)"

definition BADGE_EINK_DEFAULT :: "fw \<Rightarrow> u8" where
  "BADGE_EINK_DEFAULT s =
     (if defined_in s ''CONFIG_SHA_BADGE_EINK_DEF_DEPG0290B1'' then 2
      else if defined_in s ''CONFIG_SHA_BADGE_EINK_DEF_GDEH029A1'' then 1 else 0)"

definition init_buttons :: "fw \<Rightarrow> fw option" where
  "init_buttons s =
     foldl (\<lambda>r (x, b). Option.bind r (\<lambda>s. map_option snd (badge_gpiobutton_add (nat (macro s x)) (button_id b) s))) (Some s)
       (if defined_in s ''PIN_NUM_BUTTON_A''
        then [(''PIN_NUM_BUTTON_A'', BADGE_BUTTON_A), (''PIN_NUM_BUTTON_B'', BADGE_BUTTON_B),
              (''PIN_NUM_BUTTON_START'', BADGE_BUTTON_START), (''PIN_NUM_BUTTON_UP'', BADGE_BUTTON_UP),
              (''PIN_NUM_BUTTON_DOWN'', BADGE_BUTTON_DOWN), (''PIN_NUM_BUTTON_LEFT'', BADGE_BUTTON_LEFT),
              (''PIN_NUM_BUTTON_RIGHT'', BADGE_BUTTON_RIGHT)]
        else if defined_in s ''PIN_NUM_BUTTON_FLASH'' then [(''PIN_NUM_BUTTON_FLASH'', BADGE_BUTTON_FLASH)]
        else [])"

definition init_eink :: "fw \<Rightarrow> fw option" where
  "init_eink s =
     (let ((_, v), s) = badge_nvs_get_u8 ''badge'' ''eink.dev.type'' s;
          eink_type = (case v of Some v \<Rightarrow> v | None \<Rightarrow> BADGE_EINK_DEFAULT s)
      in map_option snd (badge_eink_init (eink_type_of eink_type) s))"

definition mpr121_pins :: "(string \<times> badge_button_t) list" where
  "mpr121_pins = [(''MPR121_PIN_NUM_A'', BADGE_BUTTON_A), (''MPR121_PIN_NUM_B'', BADGE_BUTTON_B),
     (''MPR121_PIN_NUM_START'', BADGE_BUTTON_START), (''MPR121_PIN_NUM_SELECT'', BADGE_BUTTON_SELECT),
     (''MPR121_PIN_NUM_DOWN'', BADGE_BUTTON_DOWN), (''MPR121_PIN_NUM_RIGHT'', BADGE_BUTTON_RIGHT),
     (''MPR121_PIN_NUM_UP'', BADGE_BUTTON_UP), (''MPR121_PIN_NUM_LEFT'', BADGE_BUTTON_LEFT)]"

definition install_mpr121_handlers :: "fw \<Rightarrow> fw option" where
  "install_mpr121_handlers s =
     foldl (\<lambda>r (x, b). Option.bind r (\<lambda>s.
        badge_mpr121_set_interrupt_handler (nat (macro s x)) CB_mpr121_event (uint (button_id b)) s)) (Some s) mpr121_pins"

definition init_mpr121 :: "fw \<Rightarrow> fw option" where
  "init_mpr121 s = do {
     s \<leftarrow> install_mpr121_handlers s;
     let (_, s) = badge_mpr121_init s;
     (_, s) \<leftarrow> (if defined_in s ''CONFIG_SHA_BADGE_MPR121_HARDCODE_BASELINE''
                then let ((baseline, strict), s) = mpr121_baseline s in badge_mpr121_configure (Some baseline) strict s
                else badge_mpr121_configure None False s);
     Some s
   }"

text \<open>A driver whose macro is defined; its error code is logged and forgotten.\<close>

definition when_defined :: "string list \<Rightarrow> (fw \<Rightarrow> (esp_err \<times> fw) option) \<Rightarrow> fw \<Rightarrow> fw option" where
  "when_defined xs f s = (if list_ex (defined_in s) xs then map_option snd (f s) else Some s)"

definition badge_init :: "fw \<Rightarrow> fw option" where
  "badge_init s =
     (if badge_init_done s then Some s
      else do {
        let s = snd (badge_base_init s);
        let s = snd (badge_nvs_init s);
        let s = snd (badge_input_init s);
        s \<leftarrow> init_buttons s;
        s \<leftarrow> init_eink s;
        s \<leftarrow> when_defined [''PIN_NUM_I2C_CLK''] (\<lambda>s. Some (badge_i2c_init s)) s;
        s \<leftarrow> when_defined [''I2C_DISOBEY_SAMD_ADDR'']
              (\<lambda>s. Some (badge_disobey_samd_init (badge_disobey_samd_set_interrupt_handler CB_samd_event s))) s;
        s \<leftarrow> when_defined [''I2C_CPT112S_ADDR'']
              (\<lambda>s. badge_cpt112s_init call_cpt112s (badge_cpt112s_set_event_handler CB_cpt112s_event s)) s;
        s \<leftarrow> when_defined [''I2C_FXL6408_ADDR''] badge_fxl6408_init s;
        s \<leftarrow> (if defined_in s ''I2C_MPR121_ADDR'' then init_mpr121 s else Some s);
        (_, s) \<leftarrow> badge_power_init s;
        s \<leftarrow> when_defined [''PIN_NUM_LEDS''] badge_leds_init s;
        s \<leftarrow> when_defined [''FXL6408_PIN_NUM_VIBRATOR'', ''MPR121_PIN_NUM_VIBRATOR''] badge_vibrator_init s;
        s \<leftarrow> when_defined [''I2C_ERC12864_ADDR''] badge_erc12864_init s;
        (_, s) \<leftarrow> badge_sdcard_init s;
        Some (s\<lparr>badge_init_done := True\<rparr>)
      })"

section \<open>main.c\<close>

text \<open>
  \<open>app_main\<close>: what runs is a call of the environment; the value is whether safe mode was set.
  \<open>DEEPSLEEP_RESET\<close> is 5.
\<close>

definition BUTTON_SAFE_MODE :: u32 where
  "BUTTON_SAFE_MODE = push_bit (unat (button_id BADGE_BUTTON_START)) 1"

definition app_main :: "fw \<Rightarrow> (bool \<times> fw) option" where
  "app_main s = do {
     let s = snd (ext ''badge_check_first_run'' [] s);
     s \<leftarrow> badge_init s;
     let (m, s) = ext ''esp_rtcmem_read'' [0] s;
     let (i, s) = ext ''esp_rtcmem_read'' [1] s;
     let magic = (word_of_int m :: u8);
     let inv_magic = (word_of_int i :: u8);
     if magic = NOT inv_magic
     then Some (False, snd (ext (if magic = 1 then ''badge_ota_update'' else if magic = 3 then ''badge_first_run''
                                 else ''micropython_entry'') [] s))
     else do {
       let (reset_cause, s) = ext ''rtc_get_reset_reason'' [0] s;
       (safe, s) \<leftarrow> (if reset_cause \<noteq> 5
                     then do {
                       s \<leftarrow> badge_init s;
                       Some (badge_input_button_state (inp s) AND BUTTON_SAFE_MODE = BUTTON_SAFE_MODE, s)
                     }
                     else Some (False, s));
       Some (safe, snd (ext ''micropython_entry'' [] s))
     }
   }"

end
