(* ===== verification/Graphics.thy ===== *)
theory Graphics
  imports Badge_Main
begin

text \<open>
  components/graphics/graphics.c, the progress screen of the updater, and components/ugfx-glue, the
  glue to the uGFX library: the frame-buffer driver (gdisp_lld_framebuffer.c with
  board_framebuffer.h), the button driver (ginput_lld_toggle.c) and the file system driver
  (gfx_userfs.c).  uGFX itself is a submodule: its functions are calls of the environment.
\<close>

section \<open>graphics.c\<close>

text \<open>\<open>%d\<close> of a number that is not negative.\<close>

fun dec_digits :: "nat \<Rightarrow> string" where
  "dec_digits n = (if n < 10 then [char_of (48 + n)] else dec_digits (n div 10) @ [char_of (48 + n mod 10)])"

declare dec_digits.simps [simp del]

abbreviation TITLE_LEN :: nat where "TITLE_LEN \<equiv> 64"

definition open_font :: "string \<Rightarrow> (int \<Rightarrow> gfx_state \<Rightarrow> gfx_state) \<Rightarrow> fw \<Rightarrow> fw" where
  "open_font f upd s = (let (r, s) = ext ''gdispOpenFont'' (str_arg f) s in s\<lparr>gfx := upd r (gfx s)\<rparr>)"

definition graphics_init :: "string \<Rightarrow> fw \<Rightarrow> fw" where
  "graphics_init arg_title s =
     (let n = take (TITLE_LEN - 1) (map of_char arg_title);
          s = s\<lparr>gfx := (gfx s)\<lparr>title := n @ replicate (TITLE_LEN - length n) 0\<rparr>\<rparr>;
          s = snd (ext ''gfxInit'' [] s);
          s = (if defined_in s ''CONFIG_DISOBEY''
               then open_font ''Roboto_Regular18'' (\<lambda>r. fontPercentage_update (\<lambda>_. r))
                      (open_font ''Roboto_Regular12'' (\<lambda>r. fontStatus_update (\<lambda>_. r))
                        (open_font ''Roboto_Regular18'' (\<lambda>r. fontTitle_update (\<lambda>_. r)) s))
               else open_font ''PermanentMarker36'' (\<lambda>r. fontPercentage_update (\<lambda>_. r))
                      (open_font ''PermanentMarker22'' (\<lambda>r. fontStatus_update (\<lambda>_. r))
                        (open_font ''Roboto_BlackItalic24'' (\<lambda>r. fontTitle_update (\<lambda>_. r)) s)))
      in s\<lparr>gfx := (gfx s)\<lparr>target_lut := 2\<rparr>\<rparr>)"

text \<open>\<open>sprintf\<close> into \<open>perc[10]\<close>: the text with its terminating zero has to fit.\<close>

definition sprintf_perc :: "string \<Rightarrow> string option" where
  "sprintf_perc txt = (if length txt + 1 \<le> 10 then Some txt else None)"

abbreviation Black :: int where "Black \<equiv> 0x000000"
abbreviation White :: int where "White \<equiv> 0xffffff"

definition gdispDrawString :: "int \<Rightarrow> int \<Rightarrow> string \<Rightarrow> int \<Rightarrow> int \<Rightarrow> fw \<Rightarrow> fw" where
  "gdispDrawString x y txt font color s = snd (ext ''gdispDrawString'' ([x, y, font, color] @ str_arg txt) s)"

definition title_string :: "fw \<Rightarrow> string" where
  "title_string s = map (\<lambda>b. char_of (unat b)) (takeWhile (\<lambda>b. b \<noteq> 0) (title (gfx s)))"

definition show_disobey :: "string \<Rightarrow> u8 \<Rightarrow> bool \<Rightarrow> fw \<Rightarrow> fw option" where
  "show_disobey name percentage show_percentage s = do {
     let s = snd (ext ''gdispClear'' [White] s);
     let s = gdispDrawString 0 0 (title_string s) (fontTitle (gfx s)) Black s;
     let s = gdispDrawString 0 20 name (fontStatus (gfx s)) Black s;
     s \<leftarrow> (if show_percentage then do {
             perc \<leftarrow> sprintf_perc (''Progress: '' @ dec_digits (unat percentage) @ ''%'');
             Some (gdispDrawString 0 40 perc (fontPercentage (gfx s)) Black s)
           }
           else Some s);
     Some (snd (ext ''gdispFlush'' [] s))
   }"

definition set_target_lut :: "u8 \<Rightarrow> fw \<Rightarrow> fw" where
  "set_target_lut v s = s\<lparr>gfx := (gfx s)\<lparr>target_lut := v\<rparr>\<rparr>"

definition draw_still :: "string \<Rightarrow> bool \<Rightarrow> fw \<Rightarrow> fw" where
  "draw_still name show_percentage s =
     (let x = (if show_percentage then 130 else 40);
          s = gdispDrawString (if show_percentage then 150 else 60) 25 ''STILL'' (fontTitle (gfx s)) White s;
          s = gdispDrawString x 46 name (fontStatus (gfx s)) White s;
          (w, s) = ext ''gdispGetStringWidth'' (fontStatus (gfx s) # str_arg name) s;
          s = snd (ext ''gdispDrawLine'' [x, 72, x + w + 14, 72, White] s);
          (w, s) = ext ''gdispGetStringWidth'' (fontStatus (gfx s) # str_arg name) s;
          (w', s) = ext ''gdispGetStringWidth'' (fontStatus (gfx s) # str_arg name) s;
          s = snd (ext ''gdispDrawLine'' [x + w + 10, 52, x + w' + 10, 70, White] s);
          s = gdispDrawString 140 75 ''Anyway'' (fontTitle (gfx s)) White s
      in snd (ext ''gdispFlush'' [] s))"

definition show_still :: "string \<Rightarrow> u8 \<Rightarrow> bool \<Rightarrow> fw \<Rightarrow> fw option" where
  "show_still name percentage show_percentage s = do {
     let s = snd (ext ''gdispClear'' [Black] s);
     s \<leftarrow> (if show_percentage then do {
             let s = set_target_lut 2 s;
             perc \<leftarrow> sprintf_perc (dec_digits (unat percentage) @ ''%'');
             Some (gdispDrawString 30 45 perc (fontPercentage (gfx s)) White s)
           }
           else Some (set_target_lut 0 s));
     Some (draw_still name show_percentage s)
   }"

definition graphics_show :: "string \<Rightarrow> u8 \<Rightarrow> bool \<Rightarrow> bool \<Rightarrow> fw \<Rightarrow> fw option" where
  "graphics_show name percentage show_percentage force s =
     (let (busy, s) = (if force then (False, s) else badge_eink_dev_is_busy s) in
      if busy then Some s
      else if defined_in s ''CONFIG_DISOBEY'' then show_disobey name percentage show_percentage s
      else show_still name percentage show_percentage s)"

section \<open>The frame-buffer driver\<close>

datatype orientation_t = GDISP_ROTATE_0 | GDISP_ROTATE_90 | GDISP_ROTATE_180 | GDISP_ROTATE_270

text \<open>
  The fields of \<open>GDisplay\<close> that the driver uses, and \<open>fbInfo\<close>: \<open>pixels\<close> is null or points to
  \<open>badge_fb\<close>.  \<open>board_flush\<close>, \<open>board_backlight\<close>, \<open>board_contrast\<close> and \<open>board_power\<close> do not change it.
\<close>

record GDisplay =
  Width :: int
  Height :: int
  Orientation :: orientation_t
  Powermode :: int
  Backlight :: int
  Contrast :: int
  pixels :: bool
  linelen :: int

definition BADGE_FB_WIDTH :: "fw \<Rightarrow> int" where
  "BADGE_FB_WIDTH s = (if defined_in s ''I2C_ERC12864_ADDR'' then 128 else 296)"

definition BADGE_FB_HEIGHT :: "fw \<Rightarrow> int" where
  "BADGE_FB_HEIGHT s = (if defined_in s ''I2C_ERC12864_ADDR'' then 64 else 128)"

definition board_init :: "GDisplay \<Rightarrow> fw \<Rightarrow> (GDisplay \<times> fw) option" where
  "board_init g s =
     (if defined_in s ''PIN_NUM_EPD_RESET'' then do {
        let ((_, v), s) = badge_nvs_get_u8 ''badge'' ''eink.dev.type'' s;
        let eink_type = (case v of Some v \<Rightarrow> v | None \<Rightarrow> BADGE_EINK_DEFAULT s);
        (err, s) \<leftarrow> badge_eink_init (eink_type_of eink_type) s;
        if err \<noteq> ESP_OK then None
        else let (err, s) = badge_fb_init s in
             if err \<noteq> ESP_OK then None
             else Some (g\<lparr>Width := 296, Height := 128, Backlight := 100, Contrast := 50, linelen := 296,
                          pixels := (badge_fb s \<noteq> None)\<rparr>, set_target_lut 2 s)
      }
      else if defined_in s ''I2C_ERC12864_ADDR'' then
        let (err, s) = badge_fb_init s in
        if err \<noteq> ESP_OK then None
        else Some (g\<lparr>Width := 128, Height := 64, Backlight := 100, Contrast := 50, linelen := 128,
                     pixels := (badge_fb s \<noteq> None)\<rparr>, s)
      else Some (g, s))"

text \<open>\<open>gfxHalt\<close> does not return.  \<open>powerOn\<close> is 1.\<close>

definition gdisp_lld_init :: "GDisplay \<Rightarrow> fw \<Rightarrow> (GDisplay \<times> fw) option" where
  "gdisp_lld_init g s =
     (let (p, s) = ext ''gfxAlloc'' [] s in
      if p = 0 then None
      else board_init (g\<lparr>pixels := False, linelen := 0, Orientation := GDISP_ROTATE_0, Powermode := 1\<rparr>) s)"

definition board_flush :: "fw \<Rightarrow> fw option" where
  "board_flush s =
     (if defined_in s ''PIN_NUM_EPD_RESET'' then do {
        let flags = (if ugfx_screen_flipped (gfx s) then 3 else 1 :: int);
        let lut = target_lut (gfx s);
        if 0xf0 \<le> lut
        then do { img \<leftarrow> badge_fb s; badge_eink_display_greyscale img flags (if 0xf0 < lut then unat (lut - 0xf0) else 16) s }
        else if 3 < lut then badge_eink_display (badge_fb s) flags s
        else badge_eink_display (badge_fb s) (flags OR push_bit 8 (uint lut + 1)) s
      }
      else if defined_in s ''I2C_ERC12864_ADDR''
      then do { img \<leftarrow> badge_fb s; (_, s) \<leftarrow> badge_erc12864_write_8bitcompat img s; Some s }
      else Some s)"

definition gdisp_lld_flush :: "fw \<Rightarrow> fw option" where
  "gdisp_lld_flush = board_flush"

text \<open>From the coordinates of the rotated screen to those of the frame buffer.\<close>

fun rotate_xy :: "orientation_t \<Rightarrow> int \<Rightarrow> int \<Rightarrow> int \<Rightarrow> int \<Rightarrow> int \<times> int" where
  "rotate_xy GDISP_ROTATE_0 w h x y = (x, y)"
| "rotate_xy GDISP_ROTATE_90 w h x y = (y, w - x - 1)"
| "rotate_xy GDISP_ROTATE_180 w h x y = (w - x - 1, h - y - 1)"
| "rotate_xy GDISP_ROTATE_270 w h x y = (h - y - 1, x)"

definition PIXIL_POS :: "GDisplay \<Rightarrow> int \<Rightarrow> int \<Rightarrow> int" where
  "PIXIL_POS g x y = y * linelen g + x"

definition fb_inside :: "fw \<Rightarrow> int \<Rightarrow> int \<Rightarrow> bool" where
  "fb_inside s x y \<longleftrightarrow> \<not> (x < 0 \<or> x \<ge> BADGE_FB_WIDTH s) \<and> \<not> (y < 0 \<or> y \<ge> BADGE_FB_HEIGHT s)"

text \<open>\<open>color\<close> is the value of \<open>gdispColor2Native(g->p.color)\<close>, a macro of uGFX.\<close>

definition gdisp_lld_draw_pixel :: "GDisplay \<Rightarrow> int \<Rightarrow> int \<Rightarrow> u8 \<Rightarrow> fw \<Rightarrow> fw option" where
  "gdisp_lld_draw_pixel g px py color s =
     (let (x, y) = rotate_xy (Orientation g) (Width g) (Height g) px py in
      if \<not> fb_inside s x y then Some s
      else if \<not> pixels g then None
      else do {
        buf \<leftarrow> badge_fb s;
        buf \<leftarrow> update_byte buf (nat (PIXIL_POS g x y)) (\<lambda>_. color);
        Some (s\<lparr>badge_fb := Some buf\<rparr>)
      })"

text \<open>The value before \<open>gdispNative2Color\<close>.\<close>

definition gdisp_lld_get_pixel_color :: "GDisplay \<Rightarrow> int \<Rightarrow> int \<Rightarrow> fw \<Rightarrow> u8 option" where
  "gdisp_lld_get_pixel_color g px py s =
     (let (x, y) = rotate_xy (Orientation g) (Width g) (Height g) px py in
      if \<not> fb_inside s x y then Some 255
      else if \<not> pixels g then None
      else do { buf \<leftarrow> badge_fb s; nth_opt buf (nat (PIXIL_POS g x y)) })"

datatype gdisp_control =
    GDISP_CONTROL_POWER int | GDISP_CONTROL_ORIENTATION "orientation_t option"
  | GDISP_CONTROL_BACKLIGHT nat | GDISP_CONTROL_CONTRAST nat | GDISP_CONTROL_OTHER

definition landscape :: "orientation_t \<Rightarrow> bool" where
  "landscape r \<longleftrightarrow> r = GDISP_ROTATE_0 \<or> r = GDISP_ROTATE_180"

definition swap_size :: "GDisplay \<Rightarrow> GDisplay" where
  "swap_size g = g\<lparr>Width := Height g, Height := Width g\<rparr>"

text \<open>An orientation or power mode that is none of the enumeration is ignored (\<open>None\<close>; modes 0 to 3).\<close>

fun gdisp_lld_control :: "gdisp_control \<Rightarrow> GDisplay \<Rightarrow> GDisplay" where
  "gdisp_lld_control (GDISP_CONTROL_POWER m) g =
     (if Powermode g = m then g else if m \<in> {0, 1, 2, 3} then g\<lparr>Powermode := m\<rparr> else g)"
| "gdisp_lld_control (GDISP_CONTROL_ORIENTATION None) g = g"
| "gdisp_lld_control (GDISP_CONTROL_ORIENTATION (Some r)) g =
     (if Orientation g = r then g
      else (if landscape r \<noteq> landscape (Orientation g) then swap_size g else g)\<lparr>Orientation := r\<rparr>)"
| "gdisp_lld_control (GDISP_CONTROL_BACKLIGHT v) g = g\<lparr>Backlight := int (if v > 100 then 100 else v)\<rparr>"
| "gdisp_lld_control (GDISP_CONTROL_CONTRAST v) g = g\<lparr>Contrast := int (if v > 100 then 100 else v)\<rparr>"
| "gdisp_lld_control GDISP_CONTROL_OTHER g = g"

section \<open>The button driver\<close>

definition ginput_lld_toggle_init :: "fw \<Rightarrow> fw" where
  "ginput_lld_toggle_init s = s\<lparr>inp := (inp s)\<lparr>badge_input_notify := CB_user 1\<rparr>\<rparr>"

text \<open>\<open>while (badge_input_get_event(0) != 0);\<close>\<close>

partial_function (option) drain_events :: "fw \<Rightarrow> fw option" where
  "drain_events s = (let (e, s) = badge_input_get_event 0 s in if e \<noteq> 0 then drain_events s else Some s)"

definition rotation_of :: "orientation_t \<Rightarrow> nat" where
  "rotation_of r = (case r of GDISP_ROTATE_0 \<Rightarrow> 0 | GDISP_ROTATE_90 \<Rightarrow> 1 | GDISP_ROTATE_180 \<Rightarrow> 2 | GDISP_ROTATE_270 \<Rightarrow> 3)"

definition dpad :: "nat list" where
  "dpad = [3, 1, 4, 2]"

definition dpad_mask :: u32 where
  "dpad_mask = push_bit 3 1 OR push_bit 1 1 OR push_bit 4 1 OR push_bit 2 1"

definition rotate_buttons :: "nat \<Rightarrow> u32 \<Rightarrow> u32" where
  "rotate_buttons k button_state =
     foldl (\<lambda>st i. if bit button_state (dpad ! i) then st OR push_bit (dpad ! ((i + k) mod 4)) 1 else st)
       (button_state AND NOT dpad_mask) [0..<4]"

text \<open>\<open>disp\<close> is the orientation of \<open>GDISP\<close>, \<open>None\<close> when it is null.  \<open>rotate ^= 2\<close> when the screen is flipped.\<close>

definition ginput_lld_toggle_getbits :: "orientation_t option \<Rightarrow> fw \<Rightarrow> (u32 \<times> fw) option" where
  "ginput_lld_toggle_getbits disp s = do {
     s \<leftarrow> drain_events s;
     let st = badge_input_button_state (inp s);
     Some (case disp of
             None \<Rightarrow> st
           | Some r \<Rightarrow> rotate_buttons (let k = rotation_of r in if ugfx_screen_flipped (gfx s) then (k XOR 2) else k) st, s)
   }"

section \<open>The file system driver\<close>

text \<open>
  \<open>GFILE\<close>: the flags and the handle, 0 for null.  \<open>stat\<close>, \<open>fopen\<close> and the other functions of the C
  library are calls; \<open>stat\<close> delivers the size in its bytes.
\<close>

abbreviation GFILEFLG_OPEN :: int where "GFILEFLG_OPEN \<equiv> 0x0001"
abbreviation GFILEFLG_READ :: int where "GFILEFLG_READ \<equiv> 0x0002"
abbreviation GFILEFLG_WRITE :: int where "GFILEFLG_WRITE \<equiv> 0x0004"
abbreviation GFILEFLG_APPEND :: int where "GFILEFLG_APPEND \<equiv> 0x0008"

record GFILE =
  gf_flags :: int
  gf_obj :: int

definition userfs_del :: "string \<Rightarrow> fw \<Rightarrow> bool \<times> fw" where
  "userfs_del fname s = (let (r, s) = ext ''unlink'' (str_arg fname) s in (r = 0, s))"

definition userfs_exists :: "string \<Rightarrow> fw \<Rightarrow> bool \<times> fw" where
  "userfs_exists fname s = (let (r, s) = ext ''stat'' (str_arg fname) s in (r = 0, s))"

definition userfs_filesize :: "string \<Rightarrow> fw \<Rightarrow> int \<times> fw" where
  "userfs_filesize fname s = (let ((r, bs), s) = ext_bytes ''stat'' (str_arg fname) s in (if r = 0 then int (le_bytes bs) else 0, s))"

definition userfs_ren :: "string \<Rightarrow> string \<Rightarrow> fw \<Rightarrow> bool \<times> fw" where
  "userfs_ren oldname newname s = (let (r, s) = ext ''rename'' (str_arg oldname @ str_arg newname) s in (r \<noteq> -1, s))"

definition fopen_mode :: "int \<Rightarrow> string" where
  "fopen_mode flags =
     (if flags = GFILEFLG_READ then ''r''
      else if flags = GFILEFLG_WRITE then ''w''
      else if flags = GFILEFLG_READ OR GFILEFLG_WRITE then ''rw''
      else if flags = GFILEFLG_WRITE OR GFILEFLG_APPEND then ''wa''
      else ''rw'')"

definition userfs_open :: "GFILE \<Rightarrow> string \<Rightarrow> fw \<Rightarrow> (bool \<times> GFILE) \<times> fw" where
  "userfs_open f fname s =
     (let (h, s) = ext ''fopen'' (str_arg fname @ str_arg (fopen_mode (gf_flags f))) s;
          f = f\<lparr>gf_obj := h\<rparr>
      in ((if h \<noteq> 0 then (True, f\<lparr>gf_flags := gf_flags f OR GFILEFLG_OPEN\<rparr>) else (False, f)), s))"

definition userfs_close :: "GFILE \<Rightarrow> fw \<Rightarrow> GFILE \<times> fw" where
  "userfs_close f s =
     (if gf_obj f \<noteq> 0
      then (f\<lparr>gf_flags := gf_flags f AND NOT GFILEFLG_OPEN\<rparr>, snd (ext ''fclose'' [gf_obj f] s))
      else (f, s))"

definition userfs_read :: "GFILE \<Rightarrow> nat \<Rightarrow> fw \<Rightarrow> (int \<times> u8 list) \<times> fw" where
  "userfs_read f sz s = (if gf_obj f \<noteq> 0 then ext_bytes ''fread'' [gf_obj f, 1, int sz] s else ((0, []), s))"

definition userfs_write :: "GFILE \<Rightarrow> u8 list \<Rightarrow> fw \<Rightarrow> int \<times> fw" where
  "userfs_write f buf s = (if gf_obj f \<noteq> 0 then ext ''fwrite'' ([gf_obj f, 1] @ map uint buf) s else (0, s))"

abbreviation SEEK_SET :: int where "SEEK_SET \<equiv> 0"
abbreviation SEEK_END :: int where "SEEK_END \<equiv> 2"

definition userfs_setpos :: "GFILE \<Rightarrow> int \<Rightarrow> fw \<Rightarrow> bool \<times> fw" where
  "userfs_setpos f pos s =
     (if gf_obj f \<noteq> 0 then let (r, s) = ext ''fseek'' [gf_obj f, pos, SEEK_SET] s in (r \<noteq> -1, s) else (False, s))"

definition userfs_getsize :: "GFILE \<Rightarrow> fw \<Rightarrow> int \<times> fw" where
  "userfs_getsize f s =
     (if gf_obj f \<noteq> 0
      then let (oldpos, s) = ext ''ftell'' [gf_obj f] s;
               s = snd (ext ''fseek'' [gf_obj f, 0, SEEK_END] s);
               (sz, s) = ext ''ftell'' [gf_obj f] s;
               s = snd (ext ''fseek'' [gf_obj f, oldpos, SEEK_SET] s)
           in (sz, s)
      else (0, s))"

definition userfs_eof :: "GFILE \<Rightarrow> fw \<Rightarrow> bool \<times> fw" where
  "userfs_eof f s = (if gf_obj f \<noteq> 0 then let (r, s) = ext ''feof'' [gf_obj f] s in (r \<noteq> 0, s) else (False, s))"

section \<open>The progress screen\<close>

lemma length_dec_digits: "n < 10 ^ k \<Longrightarrow> 0 < k \<Longrightarrow> length (dec_digits n) \<le> k"
proof (induction k arbitrary: n)
  case 0
  then show ?case by simp
next
  case (Suc k)
  show ?case
  proof (cases "n < 10")
    case True
    then show ?thesis by (subst dec_digits.simps) simp
  next
    case False
    then have "0 < k" and "n div 10 < 10 ^ k" using Suc.prems(1) by (cases k; auto simp: less_mult_imp_div_less)+
    then show ?thesis using False Suc.IH [of "n div 10"] by (subst dec_digits.simps) simp
  qed
qed

lemma dec_digits_u8: "length (dec_digits (unat (p :: u8))) \<le> 3"
  by (rule length_dec_digits) (use unat_u8_less [of p] in simp_all)

lemma show_disobey_iff: "show_disobey name p show_p s = None \<longleftrightarrow> show_p"
  by (auto simp: show_disobey_def sprintf_perc_def Let_def)

lemma show_still_works: "show_still name p show_p s \<noteq> None"
  using dec_digits_u8 [of p] by (auto simp: show_still_def sprintf_perc_def Let_def case_prod_beta)

section \<open>Rotation\<close>

text \<open>The logical screen has the size of the frame buffer, turned when the orientation is a quarter turn.\<close>

definition fb_ready :: "fw \<Rightarrow> bool" where
  "fb_ready s \<longleftrightarrow> (\<exists>buf. badge_fb s = Some buf \<and> length buf = 296 * 128)"

definition display_ok :: "fw \<Rightarrow> GDisplay \<Rightarrow> bool" where
  "display_ok s g \<longleftrightarrow> pixels g \<and> linelen g = BADGE_FB_WIDTH s \<and>
     (if landscape (Orientation g) then Width g = BADGE_FB_WIDTH s \<and> Height g = BADGE_FB_HEIGHT s
      else Width g = BADGE_FB_HEIGHT s \<and> Height g = BADGE_FB_WIDTH s)"

lemma control_ok: "display_ok s g \<Longrightarrow> display_ok s (gdisp_lld_control c g)"
  by (cases "(c, g)" rule: gdisp_lld_control.cases) (auto simp: display_ok_def landscape_def swap_size_def)

lemma controls_ok: "display_ok s g \<Longrightarrow> display_ok s (fold gdisp_lld_control cs g)"
  by (induction cs arbitrary: g) (simp_all add: control_ok)

definition on_screen :: "GDisplay \<Rightarrow> int \<Rightarrow> int \<Rightarrow> bool" where
  "on_screen g x y \<longleftrightarrow> 0 \<le> x \<and> x < Width g \<and> 0 \<le> y \<and> y < Height g"

lemma rotate_inside:
  assumes "display_ok s g"
  shows "fb_inside s (fst (rotate_xy (Orientation g) (Width g) (Height g) x y)) (snd (rotate_xy (Orientation g) (Width g) (Height g) x y))
    \<longleftrightarrow> on_screen g x y"
  using assms by (cases "Orientation g") (auto simp: display_ok_def landscape_def fb_inside_def on_screen_def)

lemma rotate_inj:
  "rotate_xy r w h x y = rotate_xy r w h x' y' \<longleftrightarrow> x = x' \<and> y = y'"
  by (cases r) auto

lemma pixil_pos_inj:
  assumes "linelen g = BADGE_FB_WIDTH s" and "fb_inside s x y" and "fb_inside s x' y'"
  shows "nat (PIXIL_POS g x y) < 296 * 128" and "nat (PIXIL_POS g x y) = nat (PIXIL_POS g x' y') \<longleftrightarrow> x = x' \<and> y = y'"
proof -
  let ?w = "BADGE_FB_WIDTH s"
  have w: "0 < ?w" by (simp add: BADGE_FB_WIDTH_def)
  have b: "0 \<le> x" "x < ?w" "0 \<le> y" "y < BADGE_FB_HEIGHT s" "0 \<le> x'" "x' < ?w" "0 \<le> y'"
    using assms(2,3) by (auto simp: fb_inside_def)
  have "y * ?w \<le> (BADGE_FB_HEIGHT s - 1) * ?w" using b w by (intro mult_right_mono) auto
  then have "y * ?w + x < BADGE_FB_HEIGHT s * ?w" using b by (simp add: algebra_simps)
  also have "\<dots> \<le> 296 * 128" by (simp add: BADGE_FB_WIDTH_def BADGE_FB_HEIGHT_def)
  finally show "nat (PIXIL_POS g x y) < 296 * 128" by (simp add: PIXIL_POS_def assms(1))
  have "y * ?w + x = y' * ?w + x' \<longleftrightarrow> x = x' \<and> y = y'"
  proof
    assume e: "y * ?w + x = y' * ?w + x'"
    have "(y * ?w + x) mod ?w = x" "(y' * ?w + x') mod ?w = x'" using b by simp_all
    then have "x = x'" using e by simp
    then show "x = x' \<and> y = y'" using e w by simp
  qed simp
  moreover have "0 \<le> y * ?w + x" "0 \<le> y' * ?w + x'" using b w by simp_all
  ultimately show "nat (PIXIL_POS g x y) = nat (PIXIL_POS g x' y') \<longleftrightarrow> x = x' \<and> y = y'"
    by (simp add: PIXIL_POS_def assms(1) nat_eq_iff)
qed

lemma board_init_ok:
  assumes "board_init g s0 = Some (g', s)" and "config s = config s0" and "Orientation g = GDISP_ROTATE_0"
    and "defined_in s0 ''PIN_NUM_EPD_RESET'' \<noteq> defined_in s0 ''I2C_ERC12864_ADDR''"
  shows "display_ok s g'"
proof -
  have fb: "badge_fb s' \<noteq> None" if "badge_fb_init t = (0, s')" for t s'
    using that by (auto simp: badge_fb_init_def Let_def case_prod_beta split: if_splits)
  have d: "defined_in s = defined_in s0" using assms(2) by (simp add: defined_in_def fun_eq_iff)
  show ?thesis
  proof (cases "defined_in s0 ''PIN_NUM_EPD_RESET''")
    case True
    obtain s1 s2 where "badge_fb_init s1 = (0, s2)" and "s = set_target_lut 2 s2"
      and "g' = g\<lparr>Width := 296, Height := 128, Backlight := 100, Contrast := 50, linelen := 296, pixels := (badge_fb s2 \<noteq> None)\<rparr>"
      using assms(1) True unfolding board_init_def
      by (auto simp: Let_def case_prod_beta bind_eq_Some_conv split: if_splits) (metis prod.collapse)
    then show ?thesis using True assms(3,4) d fb [of s1 s2]
      by (simp add: display_ok_def landscape_def BADGE_FB_WIDTH_def BADGE_FB_HEIGHT_def)
  next
    case False
    then obtain s2 where "badge_fb_init s0 = (0, s2)" and "s = s2"
      and "g' = g\<lparr>Width := 128, Height := 64, Backlight := 100, Contrast := 50, linelen := 128, pixels := (badge_fb s2 \<noteq> None)\<rparr>"
      using assms(1,4) unfolding board_init_def
      by (auto simp: case_prod_beta split: if_splits) (metis prod.collapse)
    then show ?thesis using False assms(3,4) d fb [of s0 s2]
      by (simp add: display_ok_def landscape_def BADGE_FB_WIDTH_def BADGE_FB_HEIGHT_def)
  qed
qed

section \<open>The direction buttons\<close>

lemma less_4: "i < 4 \<longleftrightarrow> i = 0 \<or> i = 1 \<or> i = 2 \<or> i = (3 :: nat)"
  by auto

lemma upt_0_4: "[0..<4] = [0, 1, 2, 3 :: nat]"
  by (simp add: upt_rec)

lemma bit_or_push_1: "bit ((x :: u32) OR push_bit n 1) k \<longleftrightarrow> bit x k \<or> k = n \<and> n < 32"
  by (simp only: bit_or_iff bit_push_1) simp

lemma bit_or_exp: "bit ((x :: u32) OR 2 ^ n) k \<longleftrightarrow> bit x k \<or> k = n \<and> n < 32"
  using bit_or_push_1 [of x n k] by simp

lemma bit_outside_dpad: "bit (x AND NOT dpad_mask) k \<longleftrightarrow> bit x k \<and> k \<notin> set dpad"
proof (cases "bit x k")
  case True
  then have "k < 32" using bit_imp_le_length [of x k] by simp
  then show ?thesis
    by (auto simp only: bit_and_iff bit_not_iff dpad_mask_def bit_or_iff bit_push_1 possible_bit_word)
      (auto simp: dpad_def)
qed (simp only: bit_and_iff, simp)

lemma bit_rotate_buttons:
  "bit (rotate_buttons k st) n \<longleftrightarrow>
     bit st n \<and> n \<notin> set dpad \<or> (\<exists>i < 4. bit st (dpad ! i) \<and> n = dpad ! ((i + k) mod 4))"
proof -
  have d: "dpad ! (j mod 4) < 32" for j
  proof -
    have "j mod 4 < 4" by simp
    then show ?thesis unfolding less_4 by (elim disjE) (simp_all add: dpad_def)
  qed
  have f: "bit (foldl (\<lambda>a i. if bit st (dpad ! i) then a OR push_bit (dpad ! ((i + k) mod 4)) 1 else a) a is) n \<longleftrightarrow>
      bit a n \<or> (\<exists>i \<in> set is. bit st (dpad ! i) \<and> n = dpad ! ((i + k) mod 4))" for a :: u32 and "is" :: "nat list"
    by (induction "is" arbitrary: a) (auto simp: bit_or_exp d)
  show ?thesis
    unfolding rotate_buttons_def f bit_outside_dpad by (simp only: set_upt Bex_def atLeastLessThan_iff le0 simp_thms)
qed

lemma turn_cancel:
  assumes "i < 4" and "j < 4" and "(i + k) mod 4 = (j + k) mod (4 :: nat)"
  shows "i = j"
proof -
  have "(i + k mod 4) mod 4 = (j + k mod 4) mod 4" using assms(3) by (simp add: mod_add_right_eq)
  moreover have "k mod 4 < 4" by simp
  ultimately show ?thesis using assms(1,2) unfolding less_4 by (elim disjE) simp_all
qed

lemma dpad_inj: "i < 4 \<Longrightarrow> j < 4 \<Longrightarrow> dpad ! i = dpad ! j \<Longrightarrow> i = j"
  unfolding less_4 by (elim disjE) (simp_all add: dpad_def)

section \<open>Properties\<close>

text \<open>C13: after any sequence of control operations on an initialised display, drawing a pixel returns; reading
  back at the same coordinates gives the new value when they are on the rotated screen, and every other
  position of the screen keeps its value: the rotation never makes two pixels share a byte or leaves
  the frame buffer.\<close>

theorem rotated_draw_then_read:
  assumes "display_ok s g0" and "fb_ready s" and "g = fold gdisp_lld_control cs g0"
  shows "\<exists>s'. gdisp_lld_draw_pixel g x y color s = Some s' \<and> fb_ready s' \<and>
     (\<forall>x' y'. gdisp_lld_get_pixel_color g x' y' s' =
        (if x' = x \<and> y' = y \<and> on_screen g x y then Some color else gdisp_lld_get_pixel_color g x' y' s))"
proof -
  have g: "display_ok s g" unfolding assms(3) by (rule controls_ok [OF assms(1)])
  then have p: "pixels g" "linelen g = BADGE_FB_WIDTH s" by (simp_all add: display_ok_def)
  obtain buf where buf: "badge_fb s = Some buf" "length buf = 296 * 128" using assms(2) by (auto simp: fb_ready_def)
  let ?r = "rotate_xy (Orientation g) (Width g) (Height g)"
  obtain u v where r: "?r x y = (u, v)" by (cases "?r x y")
  show ?thesis
  proof (cases "fb_inside s u v")
    case False
    then have "\<not> on_screen g x y" using rotate_inside [OF g, of x y] r by simp
    with False show ?thesis using assms(2) r by (simp add: gdisp_lld_draw_pixel_def)
  next
    case True
    let ?s = "s\<lparr>badge_fb := Some (buf[nat (PIXIL_POS g u v) := color])\<rparr>"
    have on: "on_screen g x y" using True rotate_inside [OF g, of x y] r by simp
    have i: "fb_inside ?s = fb_inside s" by (simp add: fb_inside_def BADGE_FB_WIDTH_def BADGE_FB_HEIGHT_def defined_in_def fun_eq_iff)
    have d: "gdisp_lld_draw_pixel g x y color s = Some ?s"
      using True p buf r pixil_pos_inj(1) [OF p(2) True True] by (simp add: gdisp_lld_draw_pixel_def update_byte_def)
    have "gdisp_lld_get_pixel_color g x' y' ?s = (if x' = x \<and> y' = y then Some color else gdisp_lld_get_pixel_color g x' y' s)" for x' y'
    proof -
      obtain u' v' where r': "?r x' y' = (u', v')" by (cases "?r x' y'")
      have e: "x' = x \<and> y' = y \<longleftrightarrow> u' = u \<and> v' = v" using rotate_inj [of _ _ _ x' y' x y] r r' by (metis prod.inject)
      show ?thesis
      proof (cases "fb_inside s u' v'")
        case False
        then show ?thesis using True e r' i by (auto simp: gdisp_lld_get_pixel_color_def)
      next
        case T: True
        note pos = pixil_pos_inj [OF p(2) T True]
        have "buf[nat (PIXIL_POS g u v) := color] ! nat (PIXIL_POS g u' v') =
            (if x' = x \<and> y' = y then color else buf ! nat (PIXIL_POS g u' v'))"
          unfolding e pos(2) [symmetric] using pos(1) buf(2) by (simp add: nth_list_update)
        then show ?thesis
          using T r' i p buf pos(1) by (simp add: gdisp_lld_get_pixel_color_def nth_opt_def)
      qed
    qed
    then show ?thesis using d on buf by (auto simp: fb_ready_def)
  qed
qed

text \<open>A landscape display turned to portrait and back to a quarter turn the other way.\<close>

theorem rotated_draw_then_read_witness:
  "let s = (power_on calm Map.empty)\<lparr>badge_fb := Some (replicate 37888 0)\<rparr>;
       g0 = \<lparr>Width = 296, Height = 128, Orientation = GDISP_ROTATE_0, Powermode = 1, Backlight = 100, Contrast = 50,
             pixels = True, linelen = 296\<rparr>;
       g = fold gdisp_lld_control [GDISP_CONTROL_ORIENTATION (Some GDISP_ROTATE_90), GDISP_CONTROL_ORIENTATION (Some GDISP_ROTATE_270)] g0
   in \<exists>s'. gdisp_lld_draw_pixel g 100 200 7 s = Some s' \<and> fb_ready s' \<and>
     (\<forall>x' y'. gdisp_lld_get_pixel_color g x' y' s' =
        (if x' = 100 \<and> y' = 200 \<and> on_screen g 100 200 then Some 7 else gdisp_lld_get_pixel_color g x' y' s))"
  unfolding Let_def
  by (rule rotated_draw_then_read [OF _ _ refl])
    (simp_all add: display_ok_def landscape_def BADGE_FB_WIDTH_def BADGE_FB_HEIGHT_def defined_in_def power_on_def fb_ready_def)

text \<open>C19: the button driver turns the four direction buttons with the screen: the button at place \<open>i\<close> of the
  circle left, up, right, down is reported at place \<open>i + k\<close> for \<open>k\<close> quarter turns, two more when the
  screen is flipped, and every other button is reported as it is.\<close>

theorem direction_buttons_turn_with_screen:
  assumes "drain_events s = Some s'"
    and "k = rotation_of r + (if ugfx_screen_flipped (gfx s') then 2 else 0)"
  shows "\<exists>v. ginput_lld_toggle_getbits (Some r) s = Some (v, s') \<and>
     (\<forall>i < 4. bit v (dpad ! ((i + k) mod 4)) \<longleftrightarrow> bit (badge_input_button_state (inp s')) (dpad ! i)) \<and>
     (\<forall>n. n \<notin> set dpad \<longrightarrow> (bit v n \<longleftrightarrow> bit (badge_input_button_state (inp s')) n))"
proof -
  let ?st = "badge_input_button_state (inp s')"
  let ?k = "if ugfx_screen_flipped (gfx s') then rotation_of r XOR 2 else rotation_of r"
  have "(0 :: nat) XOR 2 = 2" "(1 :: nat) XOR 2 = 3" "(2 :: nat) XOR 2 = 0" "(3 :: nat) XOR 2 = 1"
    by simp_all
  then have k: "(i + ?k) mod 4 = (i + k) mod 4" for i
    unfolding assms(2) by (cases r) (simp_all add: rotation_of_def, presburger+)
  have v: "ginput_lld_toggle_getbits (Some r) s = Some (rotate_buttons ?k ?st, s')"
    by (simp add: ginput_lld_toggle_getbits_def assms(1) Let_def)
  have l: "dpad ! (j mod 4) \<in> set dpad" for j
    by (rule nth_mem) (simp add: dpad_def)
  have "bit (rotate_buttons ?k ?st) (dpad ! ((i + k) mod 4)) \<longleftrightarrow> bit ?st (dpad ! i)" if i: "i < 4" for i
  proof -
    have "dpad ! ((i + k) mod 4) = dpad ! ((j + k) mod 4) \<longleftrightarrow> i = j" if "j < 4" for j
    proof
      assume eq: "dpad ! ((i + k) mod 4) = dpad ! ((j + k) mod 4)"
      have "(i + k) mod 4 < 4" and "(j + k) mod 4 < 4" by simp_all
      then have "(i + k) mod 4 = (j + k) mod 4" using eq by (rule dpad_inj)
      then show "i = j" by (rule turn_cancel [OF i that])
    qed simp
    then have "(\<exists>j < 4. bit ?st (dpad ! j) \<and> dpad ! ((i + k) mod 4) = dpad ! ((j + k) mod 4)) \<longleftrightarrow> bit ?st (dpad ! i)"
      using i by blast
    then show ?thesis unfolding bit_rotate_buttons k using l [of "i + k"] by blast
  qed
  moreover have "bit (rotate_buttons ?k ?st) n \<longleftrightarrow> bit ?st n" if "n \<notin> set dpad" for n
    unfolding bit_rotate_buttons k using that l by blast
  ultimately show ?thesis using v by blast
qed

theorem direction_buttons_turn_with_screen_witness:
  "let s = power_on calm Map.empty in
   \<exists>s' v. ginput_lld_toggle_getbits (Some GDISP_ROTATE_90) s = Some (v, s') \<and>
     (\<forall>i < 4. bit v (dpad ! ((i + 1) mod 4)) \<longleftrightarrow> bit (badge_input_button_state (inp s')) (dpad ! i)) \<and>
     (\<forall>n. n \<notin> set dpad \<longrightarrow> (bit v n \<longleftrightarrow> bit (badge_input_button_state (inp s')) n))"
proof -
  let ?s = "power_on calm Map.empty"
  let ?s' = "?s\<lparr>trace := [Ext ''xQueueReceive'' [0, 0]]\<rparr>"
  have "drain_events ?s = Some ?s'"
    by (subst drain_events.simps) (simp add: badge_input_get_event_def ext_bytes_def Let_def power_on_def calm_def macro_def)
  moreover have "1 = rotation_of GDISP_ROTATE_90 + (if ugfx_screen_flipped (gfx ?s') then 2 else 0)"
    by (simp add: rotation_of_def power_on_def)
  ultimately show ?thesis
    unfolding Let_def using direction_buttons_turn_with_screen [of ?s ?s' 1 GDISP_ROTATE_90] by blast
qed

text \<open>C36: on the Disobey badge showing a percentage writes past the end of the ten-byte text buffer whatever the
  percentage is; without a percentage, and on the other badges, the progress screen always returns.\<close>

theorem progress_screen_overflows_on_disobey:
  "graphics_show name percentage show_percentage force s = None \<longleftrightarrow>
     defined_in s ''CONFIG_DISOBEY'' \<and> show_percentage \<and> \<not> (\<not> force \<and> fst (badge_eink_dev_is_busy s))"
proof -
  have "defined_in (snd (badge_eink_dev_is_busy s)) = defined_in s"
    by (simp add: badge_eink_dev_is_busy_def Let_def case_prod_beta defined_in_def fun_eq_iff)
  then show ?thesis
    using show_still_works by (simp add: graphics_show_def case_prod_beta Let_def show_disobey_iff)
qed

end
