(* ===== verification/Ota.thy ===== *)
theory Ota
  imports Graphics
begin

text \<open>
  components/badge-ota/badge_ota.c: the firmware update over HTTPS.  The TLS library, the Wi-Fi stack
  and the flash are calls of the environment.

  The state of the static array \<open>buffer\<close> of 1024 bytes and of \<open>buffer_len\<close> is the list of the first
  \<open>buffer_len\<close> bytes: the code never looks at the others.  A part of the task that goes on answers
  \<open>Some (Some x, s)\<close>; \<open>Some (None, s)\<close> means that \<open>task_fatal_error\<close> has restarted the device; \<open>None\<close>
  is an abort, an access outside an array, or a loop that does not end.
\<close>

section \<open>Wi-Fi\<close>

datatype system_event = SYSTEM_EVENT_STA_START | SYSTEM_EVENT_STA_GOT_IP | SYSTEM_EVENT_STA_DISCONNECTED | SYSTEM_EVENT_OTHER

abbreviation CONNECTED_BIT :: int where "CONNECTED_BIT \<equiv> 1"

fun badge_ota_event_handler :: "system_event \<Rightarrow> fw \<Rightarrow> esp_err \<times> fw" where
  "badge_ota_event_handler SYSTEM_EVENT_STA_START s = (ESP_OK, snd (ext ''esp_wifi_connect'' [] s))"
| "badge_ota_event_handler SYSTEM_EVENT_STA_GOT_IP s =
     (ESP_OK, snd (ext ''xEventGroupSetBits'' [wifi_event_group s, CONNECTED_BIT] s))"
| "badge_ota_event_handler SYSTEM_EVENT_STA_DISCONNECTED s =
     (let s = snd (ext ''esp_wifi_connect'' [] s)
      in (ESP_OK, snd (ext ''xEventGroupClearBits'' [wifi_event_group s, CONNECTED_BIT] s)))"
| "badge_ota_event_handler SYSTEM_EVENT_OTHER s = (ESP_OK, s)"

definition str_bytes :: "string \<Rightarrow> u8 list" where
  "str_bytes x = map of_char x"

text \<open>A field of \<open>wifi_config\<close> of size \<open>n\<close>: the stored string, or the default when there is none.\<close>

definition wifi_field :: "string \<Rightarrow> string \<Rightarrow> nat \<Rightarrow> fw \<Rightarrow> u8 list \<times> fw" where
  "wifi_field key dflt n s =
     (let ((err, v), s) = badge_nvs_get_str ''badge'' key n s
      in (fill_buffer n (case v of Some (len, bs) \<Rightarrow> if err \<noteq> ESP_OK \<or> len = 0 then str_bytes dflt else bs
                          | None \<Rightarrow> str_bytes dflt), s))"

definition badge_ota_initialise_wifi :: "string \<Rightarrow> string \<Rightarrow> fw \<Rightarrow> fw option" where
  "badge_ota_initialise_wifi default_ssid default_password s = do {
     let s = snd (ext ''tcpip_adapter_init'' [] s);
     let (g, s) = ext ''xEventGroupCreate'' [] s;
     s \<leftarrow> checked ''esp_event_loop_init'' [] (s\<lparr>wifi_event_group := g\<rparr>);
     s \<leftarrow> checked ''esp_wifi_init'' [] s;
     s \<leftarrow> checked ''esp_wifi_set_storage'' [1] s;
     let (ssid, s) = wifi_field ''wifi.ssid'' default_ssid 32 s;
     let (password, s) = wifi_field ''wifi.password'' default_password 64 s;
     s \<leftarrow> checked ''esp_wifi_set_mode'' [1] s;
     s \<leftarrow> checked ''esp_wifi_set_config'' (map uint ssid @ map uint password) s;
     checked ''esp_wifi_start'' [] s
   }"

section \<open>Ends of the task\<close>

definition task_fatal_error :: "fw \<Rightarrow> ('a option \<times> fw) option" where
  "task_fatal_error s = do {
     s \<leftarrow> graphics_show ''OTA Update failed :('' 0 False True s;
     let s = snd (ext ''vTaskDelay'' [1000 div macro s ''portTICK_PERIOD_MS''] s);
     Some (None, snd (ext ''esp_restart'' [] s))
   }"

definition tbind :: "('a option \<times> fw) option \<Rightarrow> ('a \<Rightarrow> fw \<Rightarrow> ('b option \<times> fw) option) \<Rightarrow> ('b option \<times> fw) option" where
  "tbind m f = Option.bind m (\<lambda>(r, s). case r of None \<Rightarrow> Some (None, s) | Some a \<Rightarrow> f a s)"

text \<open>A call whose answer has to satisfy \<open>ok\<close>: otherwise the task ends in a restart, or in \<open>abort()\<close>.\<close>

definition or_fatal :: "string \<Rightarrow> int list \<Rightarrow> (int \<Rightarrow> bool) \<Rightarrow> fw \<Rightarrow> (unit option \<times> fw) option" where
  "or_fatal f args ok s = (let (ret, s) = ext f args s in if ok ret then Some (Some (), s) else task_fatal_error s)"

definition or_abort :: "string \<Rightarrow> int list \<Rightarrow> (int \<Rightarrow> bool) \<Rightarrow> fw \<Rightarrow> fw option" where
  "or_abort f args ok s = (let (ret, s) = ext f args s in if ok ret then Some s else None)"

section \<open>The TLS connection\<close>

abbreviation MBEDTLS_ERR_SSL_WANT_READ :: int where "MBEDTLS_ERR_SSL_WANT_READ \<equiv> - 0x6900"
abbreviation MBEDTLS_ERR_SSL_WANT_WRITE :: int where "MBEDTLS_ERR_SSL_WANT_WRITE \<equiv> - 0x6880"

partial_function (option) ssl_handshake_loop :: "fw \<Rightarrow> (int \<times> fw) option" where
  "ssl_handshake_loop s =
     (let (ret, s) = ext ''mbedtls_ssl_handshake'' [] s in
      if ret = MBEDTLS_ERR_SSL_WANT_READ then ssl_handshake_loop s
      else if ret = MBEDTLS_ERR_SSL_WANT_WRITE then ssl_handshake_loop s
      else Some (ret, s))"

partial_function (option) ssl_read_loop :: "nat \<Rightarrow> fw \<Rightarrow> ((int \<times> u8 list) \<times> fw) option" where
  "ssl_read_loop len s =
     (let ((ret, bs), s) = ext_bytes ''mbedtls_ssl_read'' [int len] s in
      if ret = MBEDTLS_ERR_SSL_WANT_READ then ssl_read_loop len s
      else if ret = MBEDTLS_ERR_SSL_WANT_WRITE then ssl_read_loop len s
      else Some ((ret, fill_buffer (nat ret) bs), s))"

partial_function (option) ssl_write_loop :: "int \<Rightarrow> u8 list \<Rightarrow> fw \<Rightarrow> (int \<times> fw) option" where
  "ssl_write_loop total_len buf s =
     (if buf = [] then Some (total_len, s)
      else let (ret, s) = ext ''mbedtls_ssl_write'' (map uint buf) s in
        if ret > 0 then
          (if nat ret > length buf then None else ssl_write_loop (total_len + ret) (drop (nat ret) buf) s)
        else if ret = MBEDTLS_ERR_SSL_WANT_READ then ssl_write_loop total_len buf s
        else if ret = MBEDTLS_ERR_SSL_WANT_WRITE then ssl_write_loop total_len buf s
        else Some (ret, s))"

section \<open>Lines of the response\<close>

abbreviation CR :: u8 where "CR \<equiv> 13"
abbreviation LF :: u8 where "LF \<equiv> 10"

definition memchr :: "u8 \<Rightarrow> u8 list \<Rightarrow> nat option" where
  "memchr c bs = (let i = length (takeWhile (\<lambda>b. b \<noteq> c) bs) in if i < length bs then Some i else None)"

function index_crlf :: "u8 list \<Rightarrow> nat option" where
  "index_crlf buf =
     (if length buf < 2 then None
      else case memchr CR (butlast buf) of
          None \<Rightarrow> None
        | Some cr \<Rightarrow> if buf ! (cr + 1) = LF then Some cr
                      else map_option (\<lambda>i. cr + 1 + i) (index_crlf (drop (cr + 1) buf)))"
  by pat_completeness auto
termination
  by (relation "measure length") auto

declare index_crlf.simps [simp del]

abbreviation BUFFER_SIZE :: nat where "BUFFER_SIZE \<equiv> 1024"

lemma buffer_shrinks: "bs \<noteq> [] \<Longrightarrow> \<not> m - n < length bs \<Longrightarrow> m - (n + length bs) < m - n"
  by (cases bs) auto

text \<open>Reading until the buffer contains the end of a line; the position of the line end, and the buffer.\<close>

function ota_line :: "u8 list \<Rightarrow> fw \<Rightarrow> ((nat \<times> u8 list) option \<times> fw) option" where
  "ota_line buf s =
     (case index_crlf buf of
        Some crlf \<Rightarrow> Some (Some (crlf, buf), s)
      | None \<Rightarrow>
          if BUFFER_SIZE = length buf then task_fatal_error s
          else do {
            ((ret, bs), s) \<leftarrow> ssl_read_loop (BUFFER_SIZE - length buf) s;
            if ret \<le> 0 then task_fatal_error s
            else if length bs = 0 \<or> length bs > BUFFER_SIZE - length buf then None
            else ota_line (buf @ bs) s
          })"
  by pat_completeness auto
termination
  by (relation "measure (\<lambda>(buf, s). BUFFER_SIZE - length buf)") (auto simp: buffer_shrinks)

declare ota_line.simps [simp del]

text \<open>A line as the zero-terminated string that the code makes of it, and the functions of \<open>string.h\<close>.\<close>

definition c_string :: "u8 list \<Rightarrow> u8 list" where
  "c_string bs = takeWhile (\<lambda>b. b \<noteq> 0) bs"

definition status_ok :: "u8 list \<Rightarrow> bool" where
  "status_ok line \<longleftrightarrow> take 7 line = str_bytes ''HTTP/1.'' \<and>
     (let code = dropWhile (\<lambda>b. b \<noteq> 32) line in code \<noteq> [] \<and> take 5 code = str_bytes '' 200 '')"

definition to_lower :: "u8 \<Rightarrow> u8" where
  "to_lower b = (if 65 \<le> b \<and> b \<le> 90 then b + 32 else b)"

definition is_digit :: "u8 \<Rightarrow> bool" where
  "is_digit b \<longleftrightarrow> 48 \<le> b \<and> b \<le> 57"

definition is_space :: "u8 \<Rightarrow> bool" where
  "is_space b \<longleftrightarrow> b = 32 \<or> 9 \<le> b \<and> b \<le> 13"

definition dec_value :: "u8 list \<Rightarrow> int" where
  "dec_value ds = foldl (\<lambda>v d. 10 * v + (uint d - 48)) 0 ds"

text \<open>\<open>atoi\<close> of newlib is \<open>strtol\<close>, which keeps to the range of a 32-bit \<open>long\<close>.\<close>

definition atoi :: "u8 list \<Rightarrow> int" where
  "atoi str =
     (let str = dropWhile is_space str;
          negative = (str \<noteq> [] \<and> hd str = 45);
          ds = takeWhile is_digit (if str \<noteq> [] \<and> (hd str = 45 \<or> hd str = 43) then tl str else str)
      in if negative then max (- (2 ^ 31)) (- dec_value ds) else min (2 ^ 31 - 1) (dec_value ds))"

text \<open>The value of a \<open>Content-Length\<close> header.\<close>

definition header_length :: "u8 list \<Rightarrow> int option" where
  "header_length line =
     (if map to_lower (take 15 line) = map to_lower (str_bytes ''Content-Length:'')
      then Some (atoi (dropWhile (\<lambda>b. b = 32) (drop 15 line))) else None)"

section \<open>The response\<close>

definition ota_status :: "fw \<Rightarrow> ((nat \<times> u8 list) option \<times> fw) option" where
  "ota_status s = tbind (ota_line [] s) (\<lambda>(crlf, buf) s.
     if \<not> status_ok (c_string (take crlf buf)) then task_fatal_error s
     else Some (Some (crlf, drop (crlf + 2) buf), s))"

text \<open>\<open>while (buffer != crlf)\<close>: the last line end, the length so far, the buffer.\<close>

partial_function (option) ota_headers :: "nat \<Rightarrow> int \<Rightarrow> u8 list \<Rightarrow> fw \<Rightarrow> ((int \<times> u8 list) option \<times> fw) option" where
  "ota_headers crlf content_length buf s =
     (if crlf = 0 then Some (Some (content_length, buf), s)
      else Option.bind (ota_line buf s) (\<lambda>(r, s). case r of
          None \<Rightarrow> Some (None, s)
        | Some (crlf, buf) \<Rightarrow>
            (case header_length (c_string (take crlf buf)) of
               None \<Rightarrow> ota_headers crlf content_length (drop (crlf + 2) buf) s
             | Some v \<Rightarrow> if v < 0 then task_fatal_error s else ota_headers crlf v (drop (crlf + 2) buf) s)))"

text \<open>\<open>while (content_pos + buffer_len < content_length && buffer_len < sizeof(buffer))\<close>\<close>

function ota_fill :: "nat \<Rightarrow> u8 list \<Rightarrow> fw \<Rightarrow> (u8 list option \<times> fw) option" where
  "ota_fill rest buf s =
     (if length buf < rest \<and> length buf < BUFFER_SIZE
      then let need_bytes = min (rest - length buf) (BUFFER_SIZE - length buf) in do {
        ((ret, bs), s) \<leftarrow> ssl_read_loop need_bytes s;
        if ret \<le> 0 then task_fatal_error s
        else if length bs = 0 \<or> length bs > need_bytes then None
        else ota_fill rest (buf @ bs) s
      }
      else Some (Some buf, s))"
  by pat_completeness auto
termination
  by (relation "measure (\<lambda>(rest, buf, s). BUFFER_SIZE - length buf)") (auto simp: buffer_shrinks)

declare ota_fill.simps [simp del]

text \<open>
  The loop over the data.  \<open>percent\<close> is \<open>(uint8_t) round(((float) content_pos * 100) / content_length)\<close>,
  in floating-point arithmetic, an argument of the model.
\<close>

partial_function (option) ota_body ::
    "(nat \<Rightarrow> nat \<Rightarrow> u8) \<Rightarrow> int \<Rightarrow> nat \<Rightarrow> nat \<Rightarrow> u8 \<Rightarrow> u8 list \<Rightarrow> fw \<Rightarrow> (nat option \<times> fw) option" where
  "ota_body percent update_handle content_length content_pos percentage buf s =
     (if content_pos < content_length
      then Option.bind (ota_fill (content_length - content_pos) buf s) (\<lambda>(r, s). case r of
          None \<Rightarrow> Some (None, s)
        | Some buf \<Rightarrow>
            (let (err, s) = ext ''esp_ota_write'' (update_handle # map uint buf) s in
             if err \<noteq> ESP_OK then task_fatal_error s
             else let content_pos = content_pos + length buf;
                      newperc = percent content_pos content_length
                  in Option.bind (if newperc \<noteq> percentage then graphics_show ''Updating'' newperc True False s else Some s)
                       (\<lambda>s. ota_body percent update_handle content_length content_pos newperc [] s)))
      else Some (Some content_pos, s))"

text \<open>From the status line to \<open>esp_ota_end\<close>: the number of bytes written.\<close>

definition ota_download :: "(nat \<Rightarrow> nat \<Rightarrow> u8) \<Rightarrow> nat \<Rightarrow> fw \<Rightarrow> (nat option \<times> fw) option" where
  "ota_download percent partition_size s =
     tbind (ota_status s) (\<lambda>(crlf, buf) s.
     tbind (ota_headers crlf (-1) buf s) (\<lambda>(content_length, buf) s.
       if content_length < 0 then task_fatal_error s
       else if content_length > int partition_size then task_fatal_error s
       else let ((err, h), s) = ext_bytes ''esp_ota_begin'' [0xffffffff] s;
                update_handle = int (le_bytes (take 4 h)) in
            if err \<noteq> ESP_OK then task_fatal_error s
            else tbind (ota_body percent update_handle (nat content_length) 0 110 buf s) (\<lambda>content_pos s.
              let s = snd (ext ''mbedtls_ssl_close_notify'' [] s) in
              tbind (or_fatal ''esp_ota_end'' [update_handle] (\<lambda>err. err = ESP_OK) s) (\<lambda>_ s. Some (Some content_pos, s)))))"

section \<open>The task\<close>

definition ota_connect :: "string \<Rightarrow> fw \<Rightarrow> (unit option \<times> fw) option" where
  "ota_connect server s =
     tbind (or_fatal ''mbedtls_net_connect'' (str_arg server @ str_arg ''443'') (\<lambda>ret. ret = 0) s) (\<lambda>_ s.
     let s = snd (ext ''mbedtls_ssl_set_bio'' [] s) in
     tbind (do { (ret, s) \<leftarrow> ssl_handshake_loop s; if ret \<noteq> 0 then task_fatal_error s else Some (Some (), s) }) (\<lambda>_ s.
       or_fatal ''mbedtls_ssl_get_verify_result'' [] (\<lambda>ret. ret = 0) s))"

definition ota_tls_setup :: "string \<Rightarrow> fw \<Rightarrow> (unit option \<times> fw) option" where
  "ota_tls_setup server s = do {
     let s = foldl (\<lambda>s f. snd (ext f [] s)) s [''mbedtls_ssl_init'', ''mbedtls_x509_crt_init'', ''mbedtls_ctr_drbg_init'',
       ''mbedtls_ssl_config_init'', ''mbedtls_entropy_init''];
     s \<leftarrow> or_abort ''mbedtls_ctr_drbg_seed'' [] (\<lambda>ret. ret = 0) s;
     s \<leftarrow> or_abort ''mbedtls_x509_crt_parse_der'' [] (\<lambda>ret. ret \<ge> 0) s;
     s \<leftarrow> or_abort ''mbedtls_ssl_set_hostname'' (str_arg server) (\<lambda>ret. ret = 0) s;
     tbind (or_fatal ''mbedtls_ssl_config_defaults'' [0, 0, 0] (\<lambda>ret. ret = 0) s) (\<lambda>_ s.
       let s = snd (ext ''mbedtls_ssl_conf_authmode'' [2] s);
           s = snd (ext ''mbedtls_ssl_conf_ca_chain'' [] s);
           s = snd (ext ''mbedtls_ssl_conf_rng'' [] s);
           s = (if defined_in s ''CONFIG_MBEDTLS_DEBUG'' then snd (ext ''mbedtls_esp_enable_debug_log'' [4] s) else s)
       in or_fatal ''mbedtls_ssl_setup'' [] (\<lambda>ret. ret = 0) s)
   }"

definition ota_wait :: "fw \<Rightarrow> fw" where
  "ota_wait s = snd (ext ''xEventGroupWaitBits'' [wifi_event_group s, CONNECTED_BIT, 0, 1, portMAX_DELAY] s)"

definition ota_request :: "string \<Rightarrow> fw \<Rightarrow> (unit option \<times> fw) option" where
  "ota_request request s = do {
     (ret, s) \<leftarrow> ssl_write_loop 0 (str_bytes request) s;
     if ret \<le> 0 then task_fatal_error s else Some (Some (), s)
   }"

definition ota_reboot :: "int \<Rightarrow> fw \<Rightarrow> (unit option \<times> fw) option" where
  "ota_reboot part_update s = do {
     s \<leftarrow> graphics_show ''Rebooting the badge'' 0 False True s;
     tbind (or_fatal ''esp_ota_set_boot_partition'' [part_update] (\<lambda>err. err = ESP_OK) s) (\<lambda>_ s.
       Some (Some (), snd (ext ''esp_restart'' [] s)))
   }"

text \<open>From the connection to the server to the end.\<close>

definition ota_session :: "string \<Rightarrow> string \<Rightarrow> (nat \<Rightarrow> nat \<Rightarrow> u8) \<Rightarrow> nat \<Rightarrow> int \<Rightarrow> fw \<Rightarrow> (unit option \<times> fw) option" where
  "ota_session server request percent size_update part_update s = do {
     let s = snd (ext ''mbedtls_net_init'' [] (ota_wait s));
     s \<leftarrow> graphics_show ''Handshaking server'' 0 False True s;
     tbind (ota_connect server s) (\<lambda>_ s.
     tbind (ota_request request s) (\<lambda>_ s. do {
       s \<leftarrow> graphics_show ''Starting OTA update'' 0 False True s;
       tbind (ota_download percent size_update s) (\<lambda>_ s. ota_reboot part_update s)
     }))
   }"

text \<open>The size of the partition comes with the answer of \<open>esp_ota_get_next_update_partition\<close>.\<close>

definition badge_ota_task :: "string \<Rightarrow> string \<Rightarrow> (nat \<Rightarrow> nat \<Rightarrow> u8) \<Rightarrow> fw \<Rightarrow> (unit option \<times> fw) option" where
  "badge_ota_task server request percent s = do {
     s \<leftarrow> or_abort ''esp_ota_get_running_partition'' [] (\<lambda>p. p \<noteq> 0) s;
     let ((part_update, sz), s) = ext_bytes ''esp_ota_get_next_update_partition'' [0] s;
     if part_update = 0 then None
     else do {
       s \<leftarrow> graphics_show ''Connecting to WiFi'' 0 False True s;
       tbind (ota_tls_setup server (ota_wait s)) (\<lambda>_ s.
         ota_session server request percent (le_bytes (take 4 sz)) part_update s)
     }
   }"

definition badge_ota_update :: "string \<Rightarrow> string \<Rightarrow> fw \<Rightarrow> fw option" where
  "badge_ota_update default_ssid default_password s = do {
     let (err, s) = ext ''nvs_flash_init'' [] s;
     s \<leftarrow> badge_init s;
     let s = graphics_init ''OTA UPDATE'' s;
     (err, s) \<leftarrow> (if err = ESP_ERR_NVS_NO_FREE_PAGES then do {
         let (p, s) = ext ''esp_partition_find_first'' [1, 2] s;
         if p = 0 then None
         else do { s \<leftarrow> checked ''esp_partition_erase_range'' [p, 0] s; Some (ext ''nvs_flash_init'' [] s) }
       }
       else Some (err, s));
     if err \<noteq> ESP_OK then None
     else do {
       s \<leftarrow> badge_ota_initialise_wifi default_ssid default_password s;
       Some (snd (ext ''xTaskCreatePinnedToCore:badge_ota_task'' [8192, 3, 0] s))
     }
   }"

end
