(* ===== verification/Ota_Response.thy ===== *)
theory Ota_Response
  imports Ota "HOL-Library.Sublist"
begin

text \<open>
  The specification of the updater: where a line ends, what the response as a whole says, and what the
  history of a run tells of the update.  The loops that read the status line and the headers refine it,
  however the network cuts the response into pieces.
\<close>

section \<open>The end of a line\<close>

text \<open>The specification: the first position of a carriage return that a line feed follows.\<close>

fun crlf_at :: "u8 list \<Rightarrow> nat option" where
  "crlf_at (b # c # bs) = (if b = CR \<and> c = LF then Some 0 else map_option Suc (crlf_at (c # bs)))"
| "crlf_at bs = None"

lemma crlf_at_append: "crlf_at xs = Some i \<Longrightarrow> crlf_at (xs @ ys) = Some i"
  by (induction xs arbitrary: i rule: crlf_at.induct) (auto split: if_splits)

lemma crlf_at_bound: "crlf_at xs = Some i \<Longrightarrow> i + 2 \<le> length xs"
  by (induction xs arbitrary: i rule: crlf_at.induct) (auto split: if_splits)

lemma crlf_at_skip: "CR \<notin> set xs \<Longrightarrow> crlf_at (xs @ ys) = map_option (\<lambda>i. length xs + i) (crlf_at ys)"
proof (induction xs)
  case (Cons x xs)
  then have "crlf_at ((x # xs) @ ys) = map_option Suc (crlf_at (xs @ ys))"
    by (cases "xs @ ys") auto
  then show ?case using Cons by (simp add: option.map_comp comp_def)
qed (cases "crlf_at ys"; simp)

lemma crlf_at_None: "CR \<notin> set (butlast xs) \<Longrightarrow> crlf_at xs = None"
  by (induction xs rule: crlf_at.induct) (auto split: if_splits)

lemma crlf_at_CR: "crlf_at (CR # b # xs) = (if b = LF then Some 0 else map_option Suc (crlf_at (b # xs)))"
  by simp

lemma memchr_None: "memchr c bs = None \<longleftrightarrow> c \<notin> set bs"
proof
  assume "memchr c bs = None"
  then have "length (takeWhile (\<lambda>b. b \<noteq> c) bs) = length bs"
    using length_takeWhile_le [of "\<lambda>b. b \<noteq> c" bs] by (simp add: memchr_def Let_def split: if_splits)
  then have "takeWhile (\<lambda>b. b \<noteq> c) bs = bs" by (metis takeWhile_eq_take take_all_iff order_refl)
  then show "c \<notin> set bs" by (metis (mono_tags, lifting) set_takeWhileD)
next
  assume "c \<notin> set bs"
  then have "takeWhile (\<lambda>b. b \<noteq> c) bs = bs" by (auto simp: takeWhile_eq_all_conv)
  then show "memchr c bs = None" by (simp only: memchr_def Let_def) simp
qed

lemma memchr_Some:
  assumes "memchr c bs = Some i"
  shows "i < length bs" and "bs ! i = c" and "c \<notin> set (take i bs)"
proof -
  have i: "i = length (takeWhile (\<lambda>b. b \<noteq> c) bs)" and l: "i < length bs"
    using assms by (auto simp: memchr_def Let_def split: if_splits)
  show "i < length bs" by (rule l)
  show "bs ! i = c" using nth_length_takeWhile [of "\<lambda>b. b \<noteq> c" bs] l unfolding i by blast
  have "take i bs = takeWhile (\<lambda>b. b \<noteq> c) bs" unfolding i by (rule takeWhile_eq_take [symmetric])
  then show "c \<notin> set (take i bs)" by (metis (mono_tags, lifting) set_takeWhileD)
qed

theorem index_crlf_first: "index_crlf buf = crlf_at buf"
proof (induction buf rule: index_crlf.induct)
  case (1 buf)
  show ?case
  proof (cases "length buf < 2 \<or> memchr CR (butlast buf) = None")
    case True
    have "length buf < 2 \<Longrightarrow> CR \<notin> set (butlast buf)" by (cases buf; auto)
    then have "crlf_at buf = None" using True by (intro crlf_at_None) (auto simp: memchr_None)
    then show ?thesis using True by (subst index_crlf.simps) (auto split: option.splits)
  next
    case False
    then obtain i where m: "memchr CR (butlast buf) = Some i" by auto
    have i: "i < length buf - 1" "buf ! i = CR" "CR \<notin> set (take i buf)"
      using memchr_Some [OF m] by (simp_all add: nth_butlast take_butlast)
    have d: "drop i buf = CR # drop (Suc i) buf" "drop (Suc i) buf = buf ! Suc i # drop (Suc (Suc i)) buf"
      using Cons_nth_drop_Suc [of i buf] Cons_nth_drop_Suc [of "Suc i" buf] i by simp_all
    have "crlf_at (take i buf @ drop i buf) = map_option (\<lambda>j. i + j) (crlf_at (drop i buf))"
      using crlf_at_skip [OF i(3), of "drop i buf"] i(1) by simp
    also have "crlf_at (drop i buf) = (if buf ! Suc i = LF then Some 0 else map_option Suc (crlf_at (drop (Suc i) buf)))"
      unfolding d(1) by (subst (1 2) d(2)) (rule crlf_at_CR)
    finally have c: "crlf_at buf = (if buf ! Suc i = LF then Some i else map_option (\<lambda>j. i + Suc j) (crlf_at (drop (Suc i) buf)))"
      by (simp add: option.map_comp comp_def)
    show ?thesis
      using 1 [OF _ m] False m
      by (subst index_crlf.simps, cases "crlf_at (drop (Suc i) buf)") (auto simp: c)
  qed
qed

section \<open>What the history tells\<close>

text \<open>The bytes received over the TLS connection, the bytes flashed, whether the boot partition was switched,
  and the size of the partition to be written.\<close>

fun received :: "environment \<Rightarrow> ext_call list \<Rightarrow> u8 list" where
  "received e [] = []"
| "received e (Ext f args # tr) = received e tr @
     (if f = ''mbedtls_ssl_read'' then (let (r, bs) = e (Ext f args # tr) in fill_buffer (nat r) bs) else [])"

fun flashed :: "ext_call list \<Rightarrow> u8 list" where
  "flashed [] = []"
| "flashed (Ext f args # tr) = flashed tr @ (if f = ''esp_ota_write'' then map word_of_int (tl args) else [])"

fun switched :: "ext_call list \<Rightarrow> bool" where
  "switched [] \<longleftrightarrow> False"
| "switched (Ext f args # tr) \<longleftrightarrow> f = ''esp_ota_set_boot_partition'' \<or> switched tr"

fun update_size :: "environment \<Rightarrow> ext_call list \<Rightarrow> nat" where
  "update_size e [] = 0"
| "update_size e (Ext f args # tr) =
     (if f = ''esp_ota_get_next_update_partition'' then le_bytes (take 4 (snd (e (Ext f args # tr)))) else update_size e tr)"

text \<open>A call answered 0; and every switch of the boot partition came after the certificate of the server
  was verified and after the image was accepted.\<close>

fun answered_ok :: "string \<Rightarrow> environment \<Rightarrow> ext_call list \<Rightarrow> bool" where
  "answered_ok f e [] \<longleftrightarrow> False"
| "answered_ok f e (Ext g args # tr) \<longleftrightarrow> f = g \<and> fst (e (Ext g args # tr)) = 0 \<or> answered_ok f e tr"

fun guarded :: "environment \<Rightarrow> ext_call list \<Rightarrow> bool" where
  "guarded e [] \<longleftrightarrow> True"
| "guarded e (Ext f args # tr) \<longleftrightarrow> guarded e tr \<and> (f = ''esp_ota_set_boot_partition'' \<longrightarrow>
     answered_ok ''mbedtls_ssl_get_verify_result'' e tr \<and> answered_ok ''esp_ota_end'' e tr)"

lemma answered_ok_suffix: "suffix tr tr' \<Longrightarrow> answered_ok f e tr \<Longrightarrow> answered_ok f e tr'"
proof -
  have "answered_ok f e tr \<Longrightarrow> answered_ok f e (new @ tr)" for new
  proof (induction new)
    case (Cons c new) then show ?case by (cases c) simp
  qed simp
  then show "suffix tr tr' \<Longrightarrow> answered_ok f e tr \<Longrightarrow> answered_ok f e tr'" by (auto simp: suffix_def)
qed

text \<open>A part of the task that neither reads, flashes nor switches.\<close>

definition offline :: "fw \<Rightarrow> fw \<Rightarrow> bool" where
  "offline s s' \<longleftrightarrow> env s' = env s \<and> config s' = config s \<and> suffix (trace s) (trace s') \<and>
     guarded (env s) (trace s') = guarded (env s) (trace s) \<and> flashed (trace s') = flashed (trace s) \<and>
     switched (trace s') = switched (trace s) \<and> update_size (env s) (trace s') = update_size (env s) (trace s)"

definition quiet :: "fw \<Rightarrow> fw \<Rightarrow> bool" where
  "quiet s s' \<longleftrightarrow> offline s s' \<and> received (env s) (trace s') = received (env s) (trace s)"

lemma offline_refl: "offline s s"
  by (simp add: offline_def)

lemma offline_trans: "offline s s1 \<Longrightarrow> offline s1 s2 \<Longrightarrow> offline s s2"
  by (auto simp: offline_def intro: suffix_order.trans)

lemma quiet_refl [simp]: "quiet s s"
  by (simp add: quiet_def offline_refl)

lemma quiet_trans [trans]: "quiet s s1 \<Longrightarrow> quiet s1 s2 \<Longrightarrow> quiet s s2"
  by (auto simp: quiet_def offline_def intro: suffix_order.trans)

text \<open>The calls that do not matter for the update.\<close>

definition other_call :: "string \<Rightarrow> bool" where
  "other_call f \<longleftrightarrow> f \<noteq> ''mbedtls_ssl_read'' \<and> f \<noteq> ''esp_ota_write'' \<and> f \<noteq> ''esp_ota_set_boot_partition'' \<and>
     f \<noteq> ''esp_ota_get_next_update_partition''"

lemma quiet_ext:
  assumes "quiet s t" and "other_call f"
  shows "quiet s (snd (ext f args t))"
  using assms unfolding quiet_def offline_def other_call_def by (simp add: suffix_ConsI)

lemma quiet_lut: "quiet s t \<Longrightarrow> quiet s (set_target_lut v t)"
  unfolding quiet_def offline_def set_target_lut_def by simp

lemma quiet_draw: "quiet s t \<Longrightarrow> quiet s (gdispDrawString x y txt font color t)"
  unfolding gdispDrawString_def by (erule quiet_ext) (simp add: other_call_def)

lemma quiet_still: "quiet s t \<Longrightarrow> quiet s (draw_still name show_p t)"
  unfolding draw_still_def Let_def case_prod_beta
  by (intro quiet_ext quiet_draw) (simp_all add: other_call_def)

lemma quiet_show:
  assumes "graphics_show name p show_p force s = Some s'"
  shows "quiet s s'"
proof -
  note intros = quiet_refl quiet_ext quiet_lut quiet_draw quiet_still
  have d: "quiet t t'" if "show_disobey name p show_p t = Some t'" for t t'
    using that unfolding show_disobey_def Let_def
    by (auto simp: bind_eq_Some_conv other_call_def simp del: ext_simps intro!: intros split: if_splits)
  have l: "quiet t t'" if "show_still name p show_p t = Some t'" for t t'
    using that unfolding show_still_def Let_def
    by (auto simp: bind_eq_Some_conv other_call_def simp del: ext_simps intro!: intros split: if_splits)
  have b: "quiet s (snd (badge_eink_dev_is_busy s))"
    unfolding badge_eink_dev_is_busy_def Let_def case_prod_beta
    by (auto simp: other_call_def simp del: ext_simps intro!: intros)
  show ?thesis
    using assms d l quiet_trans [OF b]
    unfolding graphics_show_def case_prod_beta Let_def by (auto split: if_splits)
qed

lemma quiet_fatal:
  assumes "task_fatal_error s = Some (r, s')"
  shows "r = None" and "quiet s s'"
proof -
  obtain s1 where 1: "graphics_show ''OTA Update failed :('' 0 False True s = Some s1" and "r = None"
    and 2: "s' = snd (ext ''esp_restart'' [] (snd (ext ''vTaskDelay'' [1000 div macro s1 ''portTICK_PERIOD_MS''] s1)))"
    using assms unfolding task_fatal_error_def Let_def by (auto simp: bind_eq_Some_conv simp del: ext_simps)
  show "r = None" by fact
  show "quiet s s'" unfolding 2
    by (intro quiet_ext quiet_show [OF 1]) (simp_all add: other_call_def)
qed

lemma tbind_Some:
  "tbind m f = Some (r, s') \<longleftrightarrow>
     (\<exists>s1. m = Some (None, s1) \<and> r = None \<and> s' = s1) \<or> (\<exists>a s1. m = Some (Some a, s1) \<and> f a s1 = Some (r, s'))"
  by (cases m) (auto simp: tbind_def split: option.splits)

lemma quiet_or_fatal:
  assumes "or_fatal f args ok s = Some (r, s')" and "other_call f"
  shows "quiet s s'"
proof -
  have 1: "quiet s (snd (ext f args s))" by (rule quiet_ext [OF quiet_refl assms(2)])
  show ?thesis
    using assms(1) 1 quiet_trans [OF 1 quiet_fatal(2)] unfolding or_fatal_def case_prod_beta Let_def
    by (auto simp del: ext_simps split: if_splits)
qed

lemma quiet_or_abort:
  assumes "or_abort f args ok s = Some s'" and "other_call f"
  shows "quiet s s'"
  using assms quiet_ext [OF quiet_refl assms(2)] unfolding or_abort_def case_prod_beta Let_def
  by (auto simp del: ext_simps split: if_splits)

section \<open>Reading\<close>

text \<open>A part of the task that receives \<open>new\<close>.\<close>

definition receives :: "u8 list \<Rightarrow> fw \<Rightarrow> fw \<Rightarrow> bool" where
  "receives new s s' \<longleftrightarrow> offline s s' \<and> received (env s) (trace s') = received (env s) (trace s) @ new"

lemma receives_quiet: "receives [] s s' = quiet s s'"
  by (simp add: receives_def quiet_def)

lemma receives_trans: "receives xs s s1 \<Longrightarrow> receives ys s1 s2 \<Longrightarrow> receives (xs @ ys) s s2"
  by (auto simp: receives_def offline_def intro: suffix_order.trans)

lemma length_fill_buffer [simp]: "length (fill_buffer n bs) = n"
  by (simp add: fill_buffer_def)

lemma read_call_receives:
  "receives (fill_buffer (nat (fst (fst (ext_bytes ''mbedtls_ssl_read'' args s)))) (snd (fst (ext_bytes ''mbedtls_ssl_read'' args s)))) s
     (snd (ext_bytes ''mbedtls_ssl_read'' args s))"
  by (simp add: receives_def offline_def ext_bytes_def Let_def case_prod_beta suffix_ConsI)

lemma ssl_read_loop_receives:
  assumes "ssl_read_loop len s = Some ((ret, bs), s')"
  shows "receives bs s s'" and "length bs = nat ret"
proof -
  have "receives (snd (fst y)) s (snd y) \<and> length (snd (fst y)) = nat (fst (fst y))"
    if "ssl_read_loop len s = Some y" for y
  proof (rule ssl_read_loop.raw_induct [OF _ that])
    fix rd :: "nat \<Rightarrow> fw \<Rightarrow> ((int \<times> u8 list) \<times> fw) option" and len s y
    assume IH: "\<And>len s y. rd len s = Some y \<Longrightarrow> receives (snd (fst y)) s (snd y) \<and> length (snd (fst y)) = nat (fst (fst y))"
      and body: "(let ((ret, bs), s) = ext_bytes ''mbedtls_ssl_read'' [int len] s in
        if ret = MBEDTLS_ERR_SSL_WANT_READ then rd len s
        else if ret = MBEDTLS_ERR_SSL_WANT_WRITE then rd len s
        else Some ((ret, fill_buffer (nat ret) bs), s)) = Some y"
    let ?a = "ext_bytes ''mbedtls_ssl_read'' [int len] s"
    note r = read_call_receives [of "[int len]" s]
    show "receives (snd (fst y)) s (snd y) \<and> length (snd (fst y)) = nat (fst (fst y))"
    proof (cases "fst (fst ?a) = MBEDTLS_ERR_SSL_WANT_READ \<or> fst (fst ?a) = MBEDTLS_ERR_SSL_WANT_WRITE")
      case True
      then have y: "rd len (snd ?a) = Some y" using body by (auto simp: case_prod_beta Let_def)
      have "receives [] s (snd ?a)" using r True by (auto simp: fill_buffer_def)
      then show ?thesis using IH [OF y] receives_trans by fastforce
    next
      case False
      then show ?thesis using body r by (auto simp: case_prod_beta Let_def)
    qed
  qed
  from this [OF assms] show "receives bs s s'" "length bs = nat ret" by simp_all
qed

lemma ota_line_receives:
  assumes "ota_line buf s = Some (r, s')" and "length buf \<le> BUFFER_SIZE"
  shows "\<exists>new. receives new s s' \<and> (case r of None \<Rightarrow> True | Some (crlf, buf') \<Rightarrow>
     buf' = buf @ new \<and> crlf_at buf' = Some crlf \<and> length buf' \<le> BUFFER_SIZE)"
  using assms
proof (induction buf s arbitrary: r s' rule: ota_line.induct)
  case (1 buf s)
  show ?case
  proof (cases "index_crlf buf")
    case (Some crlf)
    then have "r = Some (crlf, buf)" and "s' = s" using "1.prems"(1) by (simp_all add: ota_line.simps)
    then show ?thesis using Some "1.prems"(2)
      by (intro exI [of _ "[]"]) (simp add: receives_quiet index_crlf_first)
  next
    case None
    show ?thesis
    proof (cases "BUFFER_SIZE = length buf")
      case True
      then have "task_fatal_error s = Some (r, s')" using None "1.prems"(1) by (simp add: ota_line.simps)
      from quiet_fatal [OF this] show ?thesis by (intro exI [of _ "[]"]) (simp add: receives_quiet)
    next
      case False
      let ?n = "BUFFER_SIZE - length buf"
      obtain ret bs s1 where rd: "ssl_read_loop ?n s = Some ((ret, bs), s1)"
        and rest: "(if ret \<le> 0 then task_fatal_error s1
            else if length bs = 0 \<or> length bs > ?n then None else ota_line (buf @ bs) s1) = Some (r, s')"
        using "1.prems"(1) None False by (subst (asm) ota_line.simps) (auto simp: bind_eq_Some_conv)
      note r1 = ssl_read_loop_receives(1) [OF rd]
      show ?thesis
      proof (cases "ret \<le> 0")
        case True
        then have "task_fatal_error s1 = Some (r, s')" using rest by simp
        from quiet_fatal [OF this] show ?thesis using receives_trans [OF r1, of "[]"]
          by (intro exI [of _ "bs @ []"]) (simp add: receives_quiet)
      next
        case pos: False
        then have l: "\<not> (length bs = 0 \<or> length bs > ?n)" and rec: "ota_line (buf @ bs) s1 = Some (r, s')"
          using rest by (auto split: if_splits)
        have "length bs \<le> ?n" using l by simp
        then have "length (buf @ bs) \<le> BUFFER_SIZE" using "1.prems"(2) by simp
        from "1.IH" [OF None False rd refl refl pos l rec this] obtain new where new: "receives new s1 s'"
          and r: "case r of None \<Rightarrow> True | Some (crlf, buf') \<Rightarrow>
            buf' = (buf @ bs) @ new \<and> crlf_at buf' = Some crlf \<and> length buf' \<le> BUFFER_SIZE" by blast
        show ?thesis using receives_trans [OF r1 new] r by (intro exI [of _ "bs @ new"]) (auto split: option.splits)
      qed
    qed
  qed
qed

section \<open>The response as a whole\<close>

text \<open>The specification: a parser of all that the server sends, which knows of no buffer.  The answer is
  the value of the last \<open>Content-Length\<close> header and what follows the headers.\<close>

function http_headers :: "int \<Rightarrow> u8 list \<Rightarrow> (int \<times> u8 list) option" where
  "http_headers cl rs =
     (case crlf_at rs of
        None \<Rightarrow> None
      | Some i \<Rightarrow>
          let line = c_string (take i rs); rest = drop (i + 2) rs;
              cl = (case header_length line of None \<Rightarrow> cl | Some v \<Rightarrow> v)
          in if header_length line \<noteq> None \<and> cl < 0 then None
             else if i = 0 then Some (cl, rest) else http_headers cl rest)"
  by pat_completeness auto
termination
  by (relation "measure (\<lambda>(cl, rs). length rs)") (auto dest!: crlf_at_bound)

declare http_headers.simps [simp del]

definition http_response :: "u8 list \<Rightarrow> (int \<times> u8 list) option" where
  "http_response rs =
     (case crlf_at rs of
        None \<Rightarrow> None
      | Some i \<Rightarrow> if status_ok (c_string (take i rs)) then http_headers (-1) (drop (i + 2) rs) else None)"

lemma headers_line_stable:
  assumes "crlf_at buf = Some i"
  shows "http_headers cl (buf @ new) =
    (let line = c_string (take i buf); rest = drop (i + 2) buf @ new;
         cl = (case header_length line of None \<Rightarrow> cl | Some v \<Rightarrow> v)
     in if header_length line \<noteq> None \<and> cl < 0 then None
        else if i = 0 then Some (cl, rest) else http_headers cl rest)"
  using crlf_at_append [OF assms, of new] crlf_at_bound [OF assms]
  by (subst http_headers.simps) (simp add: Let_def)

lemma header_length_empty [simp]: "header_length [] = None"
  by (simp add: header_length_def str_bytes_def)

text \<open>What the loop over the headers does, from the buffer \<open>buf\<close> in state \<open>s\<close>.\<close>

definition headers_post :: "nat \<Rightarrow> int \<Rightarrow> u8 list \<Rightarrow> fw \<Rightarrow> (int \<times> u8 list) option \<times> fw \<Rightarrow> bool" where
  "headers_post crlf cl buf s y \<longleftrightarrow> (\<exists>new. receives new s (snd y) \<and>
     (case fst y of None \<Rightarrow> True | Some (cl', buf') \<Rightarrow> length buf' \<le> BUFFER_SIZE \<and>
       (if crlf = 0 then cl' = cl \<and> buf' = buf @ new else http_headers cl (buf @ new) = Some (cl', buf'))))"

lemma headers_post_step:
  assumes line: "receives n1 s s1" "crlf_at (buf @ n1) = Some i" and crlf: "crlf \<noteq> 0"
    and header: "header_length (c_string (take i (buf @ n1))) = h"
      "cl1 = (case h of None \<Rightarrow> cl | Some v \<Rightarrow> v)" "h \<noteq> None \<longrightarrow> 0 \<le> cl1"
    and rest: "headers_post i cl1 (drop (i + 2) (buf @ n1)) s1 y"
  shows "headers_post crlf cl buf s y"
proof -
  obtain n2 where n2: "receives n2 s1 (snd y)"
    and p: "case fst y of None \<Rightarrow> True | Some (cl', buf') \<Rightarrow> length buf' \<le> BUFFER_SIZE \<and>
      (if i = 0 then cl' = cl1 \<and> buf' = drop (i + 2) (buf @ n1) @ n2
       else http_headers cl1 (drop (i + 2) (buf @ n1) @ n2) = Some (cl', buf'))"
    using rest unfolding headers_post_def by blast
  have "http_headers cl (buf @ (n1 @ n2)) =
      (if i = 0 then Some (cl1, drop (i + 2) (buf @ n1) @ n2) else http_headers cl1 (drop (i + 2) (buf @ n1) @ n2))"
    using headers_line_stable [OF line(2), of cl n2] header by (auto simp: Let_def split: option.splits)
  then show ?thesis using receives_trans [OF line(1) n2] p crlf unfolding headers_post_def
    by (intro exI [of _ "n1 @ n2"]) (auto split: option.splits if_splits)
qed

lemma headers_post_fatal:
  assumes "receives n1 s s1" and "task_fatal_error s1 = Some y"
  shows "headers_post crlf cl buf s y"
  using quiet_fatal [of s1 "fst y" "snd y"] assms receives_trans [OF assms(1), of "[]" "snd y"]
  unfolding headers_post_def by (intro exI [of _ n1]) (cases y, simp add: receives_quiet)

lemma ota_headers_receives:
  assumes "ota_headers crlf cl buf s = Some y" and "length buf \<le> BUFFER_SIZE"
  shows "headers_post crlf cl buf s y"
proof -
  have "length buf \<le> BUFFER_SIZE \<longrightarrow> headers_post crlf cl buf s y"
    if "ota_headers crlf cl buf s = Some y" for crlf cl buf s y
  proof (rule ota_headers.raw_induct [OF _ that], rule impI)
    fix hd :: "nat \<Rightarrow> int \<Rightarrow> u8 list \<Rightarrow> fw \<Rightarrow> ((int \<times> u8 list) option \<times> fw) option"
      and crlf :: nat and cl :: int and buf :: "u8 list" and s :: fw and y :: "(int \<times> u8 list) option \<times> fw"
    assume IH: "\<And>crlf cl buf s y. hd crlf cl buf s = Some y \<Longrightarrow> length buf \<le> BUFFER_SIZE \<longrightarrow> headers_post crlf cl buf s y"
      and body: "(if crlf = 0 then Some (Some (cl, buf), s)
        else Option.bind (ota_line buf s) (\<lambda>(r, s). case r of
          None \<Rightarrow> Some (None, s)
        | Some (crlf, buf) \<Rightarrow>
            (case header_length (c_string (take crlf buf)) of
               None \<Rightarrow> hd crlf cl (drop (crlf + 2) buf) s
             | Some v \<Rightarrow> if v < 0 then task_fatal_error s else hd crlf v (drop (crlf + 2) buf) s))) = Some y"
      and len: "length buf \<le> BUFFER_SIZE"
    show "headers_post crlf cl buf s y"
    proof (cases "crlf = 0")
      case True
      then have "y = (Some (cl, buf), s)" using body by simp
      then show ?thesis using True len unfolding headers_post_def by (auto intro!: exI [of _ "[]"] simp: receives_quiet)
    next
      case False
      then obtain r s1 where line: "ota_line buf s = Some (r, s1)"
        and rest: "(case r of None \<Rightarrow> Some (None, s1)
          | Some (crlf, buf) \<Rightarrow>
            (case header_length (c_string (take crlf buf)) of
               None \<Rightarrow> hd crlf cl (drop (crlf + 2) buf) s1
             | Some v \<Rightarrow> if v < 0 then task_fatal_error s1 else hd crlf v (drop (crlf + 2) buf) s1)) = Some y"
        using body by (auto simp: bind_eq_Some_conv)
      obtain n1 where n1: "receives n1 s s1" and l: "case r of None \<Rightarrow> True | Some (i, buf1) \<Rightarrow>
        buf1 = buf @ n1 \<and> crlf_at buf1 = Some i \<and> length buf1 \<le> BUFFER_SIZE"
        using ota_line_receives [OF line len] by blast
      show ?thesis
      proof (cases r)
        case None
        then show ?thesis using n1 rest unfolding headers_post_def by auto
      next
        case (Some a)
        then obtain i where r: "r = Some (i, buf @ n1)" and i: "crlf_at (buf @ n1) = Some i"
          and len1: "length (drop (i + 2) (buf @ n1)) \<le> BUFFER_SIZE" using l by (auto split: prod.splits)
        show ?thesis
        proof (cases "header_length (c_string (take i (buf @ n1)))")
          case None
          then show ?thesis using rest r IH len1 by (intro headers_post_step [OF n1 i False None refl]) simp_all
        next
          case (Some v)
          show ?thesis
          proof (cases "v < 0")
            case True
            then show ?thesis using rest r Some headers_post_fatal [OF n1] by simp
          next
            case nonneg: False
            show ?thesis using rest r Some nonneg IH len1
              by (intro headers_post_step [OF n1 i False Some refl]) simp_all
          qed
        qed
      qed
    qed
  qed
  from this [OF assms(1)] show ?thesis using assms(2) by simp
qed

end
