(* ===== verification/Ota_Safety.thy ===== *)
theory Ota_Safety
  imports Ota_Response
begin

text \<open>
  What the update task does to the flash: the loop over the data, the download and the whole task.
\<close>

section \<open>The data\<close>

text \<open>A part of the task that receives \<open>new\<close> and flashes \<open>data\<close>.\<close>

definition transfers :: "u8 list \<Rightarrow> u8 list \<Rightarrow> fw \<Rightarrow> fw \<Rightarrow> bool" where
  "transfers new data s s' \<longleftrightarrow> env s' = env s \<and> config s' = config s \<and> suffix (trace s) (trace s') \<and>
     guarded (env s) (trace s') = guarded (env s) (trace s) \<and>
     switched (trace s') = switched (trace s) \<and> update_size (env s) (trace s') = update_size (env s) (trace s) \<and>
     received (env s) (trace s') = received (env s) (trace s) @ new \<and> flashed (trace s') = flashed (trace s) @ data"

lemma transfers_receives: "receives new s s' \<Longrightarrow> transfers new [] s s'"
  by (simp add: transfers_def receives_def offline_def)

lemma transfers_quiet: "quiet s s' \<Longrightarrow> transfers [] [] s s'"
  by (simp add: transfers_def quiet_def offline_def)

lemma transfers_trans: "transfers xs ds s s1 \<Longrightarrow> transfers ys es s1 s2 \<Longrightarrow> transfers (xs @ ys) (ds @ es) s s2"
  by (auto simp: transfers_def intro: suffix_order.trans)

lemma transfers_write: "transfers [] data s (snd (ext ''esp_ota_write'' (h # map uint data) s))"
  by (simp add: transfers_def suffix_ConsI comp_def)

lemma ota_fill_receives:
  assumes "ota_fill rest buf s = Some (r, s')"
  shows "\<exists>new. receives new s s' \<and> (case r of None \<Rightarrow> True | Some buf' \<Rightarrow> buf' = buf @ new \<and>
     length buf' \<le> max (length buf) rest \<and> length buf' \<le> max (length buf) BUFFER_SIZE \<and>
     (rest \<le> length buf' \<or> BUFFER_SIZE \<le> length buf'))"
  using assms
proof (induction rest buf s arbitrary: r s' rule: ota_fill.induct)
  case (1 rest buf s)
  show ?case
  proof (cases "length buf < rest \<and> length buf < BUFFER_SIZE")
    case False
    then have "r = Some buf" "s' = s" using "1.prems" unfolding ota_fill.simps [of rest buf s] by (simp_all only: if_False) simp_all
    then show ?thesis using False by (intro exI [of _ "[]"]) (auto simp: receives_quiet)
  next
    case True
    let ?n = "min (rest - length buf) (BUFFER_SIZE - length buf)"
    obtain ret bs s1 where rd: "ssl_read_loop ?n s = Some ((ret, bs), s1)"
      and rest: "(if ret \<le> 0 then task_fatal_error s1
          else if length bs = 0 \<or> length bs > ?n then None else ota_fill rest (buf @ bs) s1) = Some (r, s')"
      using "1.prems" True by (subst (asm) ota_fill.simps) (auto simp: bind_eq_Some_conv Let_def)
    note r1 = ssl_read_loop_receives(1) [OF rd]
    show ?thesis
    proof (cases "ret \<le> 0")
      case True
      then have "task_fatal_error s1 = Some (r, s')" using rest by simp
      from quiet_fatal [OF this] show ?thesis using receives_trans [OF r1, of "[]"]
        by (intro exI [of _ "bs @ []"]) (simp add: receives_quiet)
    next
      case pos: False
      then have l: "\<not> (length bs = 0 \<or> length bs > ?n)" and rec: "ota_fill rest (buf @ bs) s1 = Some (r, s')"
        using rest by (auto split: if_splits)
      from "1.IH" [OF True refl rd refl refl pos l rec] obtain new where new: "receives new s1 s'"
        and r: "case r of None \<Rightarrow> True | Some buf' \<Rightarrow> buf' = (buf @ bs) @ new \<and>
          length buf' \<le> max (length (buf @ bs)) rest \<and> length buf' \<le> max (length (buf @ bs)) BUFFER_SIZE \<and>
          (rest \<le> length buf' \<or> BUFFER_SIZE \<le> length buf')" by blast
      have "length (buf @ bs) \<le> rest" "length (buf @ bs) \<le> BUFFER_SIZE" using l True by (auto simp: min_def split: if_splits)
      then show ?thesis using receives_trans [OF r1 new] r
        by (intro exI [of _ "bs @ new"]) (auto split: option.splits)
    qed
  qed
qed

text \<open>What the loop over the data does.\<close>

definition body_post :: "nat \<Rightarrow> nat \<Rightarrow> u8 list \<Rightarrow> fw \<Rightarrow> nat option \<times> fw \<Rightarrow> bool" where
  "body_post cl pos buf s y \<longleftrightarrow> (\<exists>new data. transfers new data s (snd y) \<and>
     (case fst y of None \<Rightarrow> True | Some pos' \<Rightarrow>
        if pos < cl then data = buf @ new \<and> pos' = pos + length data \<and> cl \<le> pos' \<and> pos' \<le> max cl (pos + length buf)
        else new = [] \<and> data = [] \<and> pos' = pos))"

lemma body_post_fatal:
  assumes "transfers new data s s1" and "task_fatal_error s1 = Some y"
  shows "body_post cl pos buf s y"
  using quiet_fatal [of s1 "fst y" "snd y"] assms(2) transfers_trans [OF assms(1) transfers_quiet, of "snd y"]
  unfolding body_post_def by (rule_tac exI [of _ new], rule_tac exI [of _ data]) (cases y, simp)

lemma body_post_step:
  assumes fill: "receives n1 s s1" "length (buf @ n1) \<le> max (length buf) (cl - pos)" "pos < cl"
    and flash: "transfers [] (buf @ n1) s1 s2" "quiet s2 s3"
    and rest: "body_post cl (pos + length (buf @ n1)) [] s3 y"
  shows "body_post cl pos buf s y"
proof -
  have t: "transfers n1 (buf @ n1) s s3"
    using transfers_trans [OF transfers_trans [OF transfers_receives [OF fill(1)] flash(1)] transfers_quiet [OF flash(2)]] by simp
  obtain n2 d2 where n2: "transfers n2 d2 s3 (snd y)" and p: "case fst y of None \<Rightarrow> True | Some pos' \<Rightarrow>
      if pos + length (buf @ n1) < cl then d2 = [] @ n2 \<and> pos' = pos + length (buf @ n1) + length d2 \<and> cl \<le> pos' \<and>
        pos' \<le> max cl (pos + length (buf @ n1) + length ([] :: u8 list))
      else n2 = [] \<and> d2 = [] \<and> pos' = pos + length (buf @ n1)"
    using rest unfolding body_post_def by blast
  have "n1 = []" if "cl \<le> pos + length buf" using fill(2,3) that by (cases n1) (auto simp: max_def split: if_splits)
  then show ?thesis unfolding body_post_def
    using transfers_trans [OF t n2] p fill(2,3)
    by (rule_tac exI [of _ "n1 @ n2"], rule_tac exI [of _ "(buf @ n1) @ d2"])
      (auto simp: max_def split: option.splits if_splits)
qed

lemma ota_body_transfers:
  assumes "ota_body percent h cl pos pct buf s = Some y"
  shows "body_post cl pos buf s y"
proof (rule ota_body.raw_induct [OF _ assms])
  fix body :: "(nat \<Rightarrow> nat \<Rightarrow> u8) \<Rightarrow> int \<Rightarrow> nat \<Rightarrow> nat \<Rightarrow> u8 \<Rightarrow> u8 list \<Rightarrow> fw \<Rightarrow> (nat option \<times> fw) option"
    and percent :: "nat \<Rightarrow> nat \<Rightarrow> u8" and h :: int and cl pos :: nat and pct :: u8 and buf :: "u8 list" and s :: fw and y :: "nat option \<times> fw"
  assume IH: "\<And>percent h cl pos pct buf s y. body percent h cl pos pct buf s = Some y \<Longrightarrow> body_post cl pos buf s y"
    and step: "(if pos < cl
      then Option.bind (ota_fill (cl - pos) buf s) (\<lambda>(r, s). case r of
          None \<Rightarrow> Some (None, s)
        | Some buf \<Rightarrow>
            (let (err, s) = ext ''esp_ota_write'' (h # map uint buf) s in
             if err \<noteq> ESP_OK then task_fatal_error s
             else let pos = pos + length buf; newperc = percent pos cl
                  in Option.bind (if newperc \<noteq> pct then graphics_show ''Updating'' newperc True False s else Some s)
                       (\<lambda>s. body percent h cl pos newperc [] s)))
      else Some (Some pos, s)) = Some y"
  show "body_post cl pos buf s y"
  proof (cases "pos < cl")
    case False
    then have "y = (Some pos, s)" using step by simp
    then show ?thesis using False transfers_quiet [OF quiet_refl, of s] unfolding body_post_def by auto
  next
    case True
    then obtain r s1 where f: "ota_fill (cl - pos) buf s = Some (r, s1)" using step by (auto simp: bind_eq_Some_conv)
    obtain n1 where n1: "receives n1 s s1" and r: "case r of None \<Rightarrow> True | Some buf' \<Rightarrow> buf' = buf @ n1 \<and>
      length buf' \<le> max (length buf) (cl - pos)" using ota_fill_receives [OF f] by (auto split: option.splits)
    show ?thesis
    proof (cases r)
      case None
      then have "y = (None, s1)" using step True f by simp
      then show ?thesis using transfers_receives [OF n1] unfolding body_post_def by auto
    next
      case (Some buf')
      then have len: "length (buf @ n1) \<le> max (length buf) (cl - pos)" and r: "r = Some (buf @ n1)" using r by auto
      obtain err s2 where e: "ext ''esp_ota_write'' (h # map uint (buf @ n1)) s1 = (err, s2)" by fastforce
      have w: "transfers [] (buf @ n1) s1 s2" using transfers_write [of "buf @ n1" s1 h] unfolding e snd_conv .
      let ?pos = "pos + length (buf @ n1)"
      have after: "(if err \<noteq> ESP_OK then task_fatal_error s2
             else Option.bind (if percent ?pos cl \<noteq> pct then graphics_show ''Updating'' (percent ?pos cl) True False s2 else Some s2)
                    (\<lambda>s. body percent h cl ?pos (percent ?pos cl) [] s)) = Some y"
        using step unfolding if_P [OF True] f r bind.bind_lunit option.case prod.case e Let_def .
      show ?thesis
      proof (cases "err = ESP_OK")
        case False
        then show ?thesis
          using after body_post_fatal [OF transfers_trans [OF transfers_receives [OF n1] w]] by simp
      next
        case ok: True
        then obtain s3 where s3: "(if percent ?pos cl \<noteq> pct then graphics_show ''Updating'' (percent ?pos cl) True False s2
            else Some s2) = Some s3" and b: "body percent h cl ?pos (percent ?pos cl) [] s3 = Some y"
          using after by (auto simp only: simp_thms if_False bind_eq_Some_conv)
        have "quiet s2 s3" using s3 quiet_show [of _ _ True False s2 s3] by (simp split: if_splits)
        then show ?thesis using body_post_step [OF n1 len True w _ IH [OF b]] by blast
      qed
    qed
  qed
qed

section \<open>The download\<close>

lemma http_headers_append: "http_headers cl rs = Some (v, body) \<Longrightarrow> http_headers cl (rs @ xs) = Some (v, body @ xs)"
proof (induction cl rs rule: http_headers.induct)
  case (1 cl rs)
  then obtain i where i: "crlf_at rs = Some i" by (subst (asm) (3) http_headers.simps) (auto split: option.splits)
  from "1.prems" show ?case
    using "1.IH" [OF i refl refl refl] headers_line_stable [OF i, of cl xs] headers_line_stable [OF i, of cl "[]"]
    by (auto simp: Let_def split: if_splits option.splits)
qed

lemma http_response_append: "http_response rs = Some (v, body) \<Longrightarrow> http_response (rs @ xs) = Some (v, body @ xs)"
  by (auto simp: http_response_def crlf_at_append crlf_at_bound http_headers_append dest: crlf_at_bound
      split: option.splits if_splits)

lemma ota_status_receives:
  assumes "ota_status s = Some (r, s')"
  shows "\<exists>new. receives new s s' \<and> (case r of None \<Rightarrow> True | Some (i, buf) \<Rightarrow>
    crlf_at new = Some i \<and> i \<noteq> 0 \<and> status_ok (c_string (take i new)) \<and> buf = drop (i + 2) new \<and> length buf \<le> BUFFER_SIZE)"
proof -
  have e: "\<not> status_ok []" by (simp add: status_ok_def str_bytes_def)
  obtain r1 s1 where l: "ota_line [] s = Some (r1, s1)"
    using assms unfolding ota_status_def tbind_Some by blast
  obtain new where new: "receives new s s1" and r1: "case r1 of None \<Rightarrow> True | Some (i, buf) \<Rightarrow>
      buf = [] @ new \<and> crlf_at buf = Some i \<and> length buf \<le> BUFFER_SIZE"
    using ota_line_receives [OF l, OF eq_refl [THEN order_trans, of _ 0]] by (simp only: list.size le0) blast
  show ?thesis
  proof (cases r1)
    case None
    then show ?thesis using assms l new unfolding ota_status_def tbind_Some by auto
  next
    case (Some a)
    then obtain i where i: "r1 = Some (i, new)" "crlf_at new = Some i" "length new \<le> BUFFER_SIZE"
      using r1 by (auto split: prod.splits)
    show ?thesis
    proof (cases "status_ok (c_string (take i new))")
      case True
      then have "r = Some (i, drop (i + 2) new)" "s' = s1" using assms l i unfolding ota_status_def tbind_Some by auto
      then show ?thesis using new i True e by (intro exI [of _ new]) (auto simp: c_string_def intro!: Nat.gr0I)
    next
      case False
      then have "task_fatal_error s1 = Some (r, s')" using assms l i unfolding ota_status_def tbind_Some by auto
      from quiet_fatal [OF this] show ?thesis using receives_trans [OF new, of "[]" s']
        by (intro exI [of _ new]) (simp add: receives_quiet)
    qed
  qed
qed

text \<open>What the download does, from the status line to \<open>esp_ota_end\<close>.\<close>

definition firmware_of :: "u8 list \<Rightarrow> nat \<Rightarrow> u8 list \<Rightarrow> bool" where
  "firmware_of response psize data \<longleftrightarrow> (\<exists>cl body. http_response response = Some (cl, body) \<and> 0 \<le> cl \<and> cl \<le> int psize \<and>
     data = (if cl = 0 then [] else body) \<and> nat cl \<le> length data \<and> length data \<le> max (nat cl) BUFFER_SIZE)"

definition download_post :: "nat \<Rightarrow> fw \<Rightarrow> nat option \<times> fw \<Rightarrow> bool" where
  "download_post psize s y \<longleftrightarrow> (\<exists>new data. transfers new data s (snd y) \<and>
     (case fst y of None \<Rightarrow> True | Some n \<Rightarrow> firmware_of new psize data \<and> n = length data \<and>
        answered_ok ''esp_ota_end'' (env s) (trace (snd y))))"

lemma download_post_quiet:
  assumes "transfers new data s s1" and "quiet s1 s2"
  shows "download_post psize s (None, s2)"
  using transfers_trans [OF assms(1) transfers_quiet [OF assms(2)]] unfolding download_post_def by auto

lemma download_post_fatal:
  assumes "transfers new data s s1" and "task_fatal_error s1 = Some y"
  shows "download_post psize s y"
  using quiet_fatal [of s1 "fst y" "snd y"] assms(2) download_post_quiet [OF assms(1)]
  by (cases y) simp

lemma or_fatal_cases:
  assumes "or_fatal f args (\<lambda>r. r = 0) s = Some (r, s')" and "other_call f"
  shows "quiet s s'" and "r = None \<or> r = Some () \<and> answered_ok f (env s) (trace s')"
proof -
  show "quiet s s'" by (rule quiet_or_fatal [OF assms])
  show "r = None \<or> r = Some () \<and> answered_ok f (env s) (trace s')"
    using assms(1) quiet_fatal(1) unfolding or_fatal_def case_prod_beta Let_def by (auto split: if_splits)
qed

text \<open>The part of the download after the headers.\<close>

definition ota_install :: "(nat \<Rightarrow> nat \<Rightarrow> u8) \<Rightarrow> nat \<Rightarrow> int \<Rightarrow> u8 list \<Rightarrow> fw \<Rightarrow> (nat option \<times> fw) option" where
  "ota_install percent psize content_length buf s =
     (if content_length < 0 then task_fatal_error s
      else if content_length > int psize then task_fatal_error s
      else let ((err, h), s) = ext_bytes ''esp_ota_begin'' [0xffffffff] s;
               update_handle = int (le_bytes (take 4 h)) in
           if err \<noteq> ESP_OK then task_fatal_error s
           else tbind (ota_body percent update_handle (nat content_length) 0 110 buf s) (\<lambda>content_pos s.
             let s = snd (ext ''mbedtls_ssl_close_notify'' [] s) in
             tbind (or_fatal ''esp_ota_end'' [update_handle] (\<lambda>err. err = ESP_OK) s) (\<lambda>_ s. Some (Some content_pos, s))))"

lemma ota_download_install: "ota_download percent psize s =
    tbind (ota_status s) (\<lambda>(crlf, buf) s. tbind (ota_headers crlf (-1) buf s) (\<lambda>(cl, buf) s. ota_install percent psize cl buf s))"
  unfolding ota_download_def ota_install_def ..

lemma quiet_begin: "quiet s (snd (ext_bytes ''esp_ota_begin'' args s))"
  using quiet_ext [OF quiet_refl, of "''esp_ota_begin''" s args]
  by (simp add: ext_bytes_def Let_def case_prod_beta other_call_def)

lemma ota_install_transfers:
  assumes "ota_install percent psize cl buf s = Some (r, s')" and "length buf \<le> BUFFER_SIZE"
  shows "\<exists>new data. transfers new data s s' \<and> (case r of None \<Rightarrow> True | Some n \<Rightarrow>
    0 \<le> cl \<and> cl \<le> int psize \<and> (cl = 0 \<longrightarrow> new = []) \<and> data = (if cl = 0 then [] else buf @ new) \<and> nat cl \<le> length data \<and>
    length data \<le> max (nat cl) BUFFER_SIZE \<and> n = length data \<and> answered_ok ''esp_ota_end'' (env s) (trace s'))"
proof -
  have fatal: ?thesis if "quiet s s1" and "task_fatal_error s1 = Some (r, s')" for s1
    using quiet_fatal [OF that(2)] transfers_quiet [OF quiet_trans [OF that(1)]] by auto
  obtain err h s1 where b: "ext_bytes ''esp_ota_begin'' [0xffffffff] s = ((err, h), s1)" by (metis prod.exhaust)
  have q1: "quiet s s1" using quiet_begin [of s "[0xffffffff]"] b by simp
  show ?thesis
  proof (cases "cl < 0 \<or> cl > int psize \<or> err \<noteq> ESP_OK")
    case True
    then show ?thesis
      using assms(1) fatal [OF quiet_refl] fatal [OF q1] unfolding ota_install_def b Let_def prod.case
      by (auto split: if_splits)
  next
    case False
    let ?h = "int (le_bytes (take 4 h))"
    have eq: "tbind (ota_body percent ?h (nat cl) 0 110 buf s1) (\<lambda>n s.
        tbind (or_fatal ''esp_ota_end'' [?h] (\<lambda>err. err = ESP_OK) (snd (ext ''mbedtls_ssl_close_notify'' [] s)))
          (\<lambda>_ s. Some (Some n, s))) = Some (r, s')"
      using assms(1) False unfolding ota_install_def b Let_def prod.case by simp
    then obtain r1 s2 where body: "ota_body percent ?h (nat cl) 0 110 buf s1 = Some (r1, s2)" unfolding tbind_Some by blast
    obtain new data where t: "transfers new data s1 s2" and r1: "case r1 of None \<Rightarrow> True | Some n \<Rightarrow>
        if 0 < nat cl then data = buf @ new \<and> n = 0 + length data \<and> nat cl \<le> n \<and> n \<le> max (nat cl) (0 + length buf)
        else new = [] \<and> data = [] \<and> n = 0"
      using ota_body_transfers [OF body] unfolding body_post_def fst_conv snd_conv by blast
    have t: "transfers new data s s2" using transfers_trans [OF transfers_quiet [OF q1] t] by simp
    show ?thesis
    proof (cases r1)
      case None
      then have "r = None" "s' = s2" using eq body unfolding tbind_Some by auto
      then show ?thesis using t by auto
    next
      case (Some n)
      define s3 where "s3 = snd (ext ''mbedtls_ssl_close_notify'' [] s2)"
      have q: "quiet s2 s3" unfolding s3_def by (rule quiet_ext [OF quiet_refl]) (simp add: other_call_def)
      obtain r4 s4 where fin: "or_fatal ''esp_ota_end'' [?h] (\<lambda>err. err = 0) s3 = Some (r4, s4)"
        and r: "(r4 = None \<and> r = None \<or> r4 = Some () \<and> r = Some n)" "s' = s4"
        using eq body Some unfolding tbind_Some s3_def by auto
      have o: "other_call ''esp_ota_end''" by (simp add: other_call_def)
      have "transfers new data s s'"
        using transfers_trans [OF t transfers_quiet [OF quiet_trans [OF q or_fatal_cases(1) [OF fin o]]]] r by simp
      moreover have "env s3 = env s" using t q unfolding transfers_def quiet_def offline_def by simp
      ultimately show ?thesis
        using or_fatal_cases(2) [OF fin o] r r1 Some False assms(2)
        by (rule_tac exI [of _ new], rule_tac exI [of _ data]) (auto simp: max_def split: if_splits)
    qed
  qed
qed

lemma ota_download_transfers:
  assumes "ota_download percent psize s = Some y"
  shows "download_post psize s y"
proof -
  obtain r s' where y: "y = (r, s')" by fastforce
  obtain r1 s1 where st: "ota_status s = Some (r1, s1)"
    using assms unfolding ota_download_install y tbind_Some by blast
  obtain n1 where n1: "receives n1 s s1" and r1: "case r1 of None \<Rightarrow> True | Some (i, buf) \<Rightarrow>
    crlf_at n1 = Some i \<and> i \<noteq> 0 \<and> status_ok (c_string (take i n1)) \<and> buf = drop (i + 2) n1 \<and> length buf \<le> BUFFER_SIZE"
    using ota_status_receives [OF st] by blast
  note t1 = transfers_receives [OF n1]
  show ?thesis
  proof (cases r1)
    case None
    then have "y = (None, s1)" using assms st unfolding ota_download_install y tbind_Some by auto
    then show ?thesis using download_post_quiet [OF t1 quiet_refl] by simp
  next
    case (Some a)
    then obtain i where i: "r1 = Some (i, drop (i + 2) n1)" "crlf_at n1 = Some i" "i \<noteq> 0" "status_ok (c_string (take i n1))"
      "length (drop (i + 2) n1) \<le> BUFFER_SIZE" using r1 by (cases a) auto
    have "tbind (ota_headers i (-1) (drop (i + 2) n1) s1) (\<lambda>(cl, buf) s. ota_install percent psize cl buf s) = Some y"
      using assms st i(1) unfolding ota_download_install y tbind_def by simp
    then obtain r2 s2 where hd: "ota_headers i (-1) (drop (i + 2) n1) s1 = Some (r2, s2)"
      and rest: "tbind (Some (r2, s2)) (\<lambda>(cl, buf) s. ota_install percent psize cl buf s) = Some y"
      unfolding y tbind_Some by blast
    obtain n2 where n2: "receives n2 s1 s2" and r2: "case r2 of None \<Rightarrow> True | Some (cl, buf) \<Rightarrow> length buf \<le> BUFFER_SIZE \<and>
        http_headers (-1) (drop (i + 2) n1 @ n2) = Some (cl, buf)"
      using ota_headers_receives [OF hd i(5)] i(3) unfolding headers_post_def fst_conv snd_conv by (auto simp only: if_False)
    note t2 = transfers_trans [OF t1 transfers_receives [OF n2], simplified]
    show ?thesis
    proof (cases r2)
      case None
      then show ?thesis using rest download_post_quiet [OF t2 quiet_refl] by (auto simp: tbind_def)
    next
      case (Some b)
      then obtain cl buf where b: "r2 = Some (cl, buf)" by (cases b) auto
      then have inst: "ota_install percent psize cl buf s2 = Some (r, s')" using rest y by (simp add: tbind_def)
      have h: "http_headers (-1) (drop (i + 2) n1 @ n2) = Some (cl, buf)" and len: "length buf \<le> BUFFER_SIZE"
        using r2 unfolding b by simp_all
      have "http_response (n1 @ n2) = Some (cl, buf)"
        using h i(4) crlf_at_append [OF i(2), of n2] crlf_at_bound [OF i(2)] by (simp add: http_response_def)
      then have resp: "http_response (n1 @ n2 @ n3) = Some (cl, buf @ n3)" for n3
        using http_response_append [of "n1 @ n2"] by simp
      obtain n3 data where t3: "transfers n3 data s2 s'" and r: "case r of None \<Rightarrow> True | Some n \<Rightarrow>
          0 \<le> cl \<and> cl \<le> int psize \<and> (cl = 0 \<longrightarrow> n3 = []) \<and> data = (if cl = 0 then [] else buf @ n3) \<and> nat cl \<le> length data \<and>
          length data \<le> max (nat cl) BUFFER_SIZE \<and> n = length data \<and> answered_ok ''esp_ota_end'' (env s2) (trace s')"
        using ota_install_transfers [OF inst len] by blast
      have e: "env s2 = env s" using t2 by (simp add: transfers_def)
      have "firmware_of (n1 @ n2 @ n3) psize data" if "r = Some n" for n
        using r resp [of n3] that unfolding firmware_of_def by auto
      then show ?thesis unfolding download_post_def
        using transfers_trans [OF t2 t3] r unfolding e y fst_conv snd_conv append_assoc append_Nil
        by (rule_tac exI [of _ "n1 @ n2 @ n3"], rule_tac exI [of _ data]) (cases r, simp_all)
    qed
  qed
qed

section \<open>The task\<close>

lemma tbindE:
  assumes "tbind m f = Some (r, s')"
  obtains s1 where "m = Some (None, s1)" "r = None" "s' = s1"
  | a s1 where "m = Some (Some a, s1)" "f a s1 = Some (r, s')"
  using assms unfolding tbind_Some by blast

lemma bindE:
  assumes "Option.bind m f = Some y"
  obtains x where "m = Some x" "f x = Some y"
  using assms by (auto simp: bind_eq_Some_conv)

lemma ssl_handshake_loop_quiet:
  assumes "ssl_handshake_loop s = Some y"
  shows "quiet s (snd y)"
proof (rule ssl_handshake_loop.raw_induct [OF _ assms])
  fix hs :: "fw \<Rightarrow> (int \<times> fw) option" and s y
  assume IH: "\<And>s y. hs s = Some y \<Longrightarrow> quiet s (snd y)"
    and body: "(let (ret, s) = ext ''mbedtls_ssl_handshake'' [] s in
      if ret = MBEDTLS_ERR_SSL_WANT_READ then hs s
      else if ret = MBEDTLS_ERR_SSL_WANT_WRITE then hs s
      else Some (ret, s)) = Some y"
  have q: "quiet s (snd (ext ''mbedtls_ssl_handshake'' [] s))" by (rule quiet_ext) (simp_all add: other_call_def)
  show "quiet s (snd y)" using body IH quiet_trans [OF q] q by (fastforce simp: case_prod_beta Let_def simp del: ext_simps split: if_splits)
qed

lemma ssl_write_loop_quiet:
  assumes "ssl_write_loop n buf s = Some y"
  shows "quiet s (snd y)"
proof (rule ssl_write_loop.raw_induct [OF _ assms])
  fix wr :: "int \<Rightarrow> u8 list \<Rightarrow> fw \<Rightarrow> (int \<times> fw) option" and n :: int and buf :: "u8 list" and s y
  assume IH: "\<And>n buf s y. wr n buf s = Some y \<Longrightarrow> quiet s (snd y)"
    and body: "(if buf = [] then Some (n, s)
      else let (ret, s) = ext ''mbedtls_ssl_write'' (map uint buf) s in
        if ret > 0 then
          (if nat ret > length buf then None else wr (n + ret) (drop (nat ret) buf) s)
        else if ret = MBEDTLS_ERR_SSL_WANT_READ then wr n buf s
        else if ret = MBEDTLS_ERR_SSL_WANT_WRITE then wr n buf s
        else Some (ret, s)) = Some y"
  have q: "quiet s (snd (ext ''mbedtls_ssl_write'' (map uint buf) s))" by (rule quiet_ext) (simp_all add: other_call_def)
  obtain ret s1 where e: "ext ''mbedtls_ssl_write'' (map uint buf) s = (ret, s1)" by fastforce
  consider "y = (n, s)" | n' buf' where "wr n' buf' s1 = Some y" | ret where "y = (ret, s1)"
    using body unfolding e Let_def prod.case
    by (cases "buf = []"; cases "ret > 0"; cases "nat ret > length buf"; cases "ret = MBEDTLS_ERR_SSL_WANT_READ";
        cases "ret = MBEDTLS_ERR_SSL_WANT_WRITE"; simp add: eq_commute [of _ y])
  then show "quiet s (snd y)" using q e IH quiet_trans [of s s1] by cases (simp_all del: ext_simps)
qed

lemma ota_request_quiet:
  assumes "ota_request request s = Some (r, s')"
  shows "quiet s s'"
proof -
  from assms obtain ret s1 where w: "ssl_write_loop 0 (str_bytes request) s = Some (ret, s1)"
    and rest: "(if ret \<le> 0 then task_fatal_error s1 else Some (Some (), s1)) = Some (r, s')"
    unfolding ota_request_def by (elim bindE) (simp split: prod.splits)
  show ?thesis using ssl_write_loop_quiet [OF w] rest
    by (auto split: if_splits dest: quiet_fatal(2) intro: quiet_trans)
qed

lemma ota_connect_quiet:
  assumes "ota_connect server s = Some (r, s')"
  shows "quiet s s' \<and> (r = None \<or> answered_ok ''mbedtls_ssl_get_verify_result'' (env s) (trace s'))"
proof -
  have o: "other_call ''mbedtls_net_connect''" "other_call ''mbedtls_ssl_set_bio''" "other_call ''mbedtls_ssl_get_verify_result''"
    by (simp_all add: other_call_def)
  from assms show ?thesis unfolding ota_connect_def
  proof (cases rule: tbindE)
    case (1 s1)
    then show ?thesis using quiet_or_fatal [OF _ o(1)] by blast
  next
    case (2 a s1)
    have q: "quiet s (snd (ext ''mbedtls_ssl_set_bio'' [] s1))" by (intro quiet_ext quiet_or_fatal [OF 2(1)] o)
    from 2(2) show ?thesis unfolding Let_def
    proof (cases rule: tbindE)
      case (1 s2)
      then obtain ret s3 where hs: "ssl_handshake_loop (snd (ext ''mbedtls_ssl_set_bio'' [] s1)) = Some (ret, s3)"
        and rest: "(if ret \<noteq> 0 then task_fatal_error s3 else Some (Some (), s3)) = Some (None, s2)"
        by (elim bindE) (simp split: prod.splits)
      show ?thesis using 1 rest quiet_trans [OF q ssl_handshake_loop_quiet [OF hs]]
        by (auto split: if_splits dest!: quiet_fatal(2) intro: quiet_trans)
    next
      case (2 b s2)
      then obtain ret s3 where hs: "ssl_handshake_loop (snd (ext ''mbedtls_ssl_set_bio'' [] s1)) = Some (ret, s3)"
        and rest: "(if ret \<noteq> 0 then task_fatal_error s3 else Some (Some (), s3)) = Some (Some b, s2)"
        by (elim bindE) (simp split: prod.splits)
      have "quiet s s2" using rest quiet_trans [OF q ssl_handshake_loop_quiet [OF hs]]
        by (auto split: if_splits dest: quiet_fatal(1))
      then show ?thesis using or_fatal_cases [OF 2(2) o(3)] quiet_trans
        by (auto simp: quiet_def offline_def)
    qed
  qed
qed

lemma ota_tls_setup_quiet:
  assumes "ota_tls_setup server s = Some (r, s')"
  shows "quiet s s'"
proof -
  let ?s0 = "foldl (\<lambda>s f. snd (ext f [] s)) s [''mbedtls_ssl_init'', ''mbedtls_x509_crt_init'', ''mbedtls_ctr_drbg_init'',
       ''mbedtls_ssl_config_init'', ''mbedtls_entropy_init'']"
  have q0: "quiet s ?s0" by (simp only: foldl.simps, intro quiet_ext quiet_refl) (simp_all add: other_call_def)
  obtain s1 s2 s3 where 1: "or_abort ''mbedtls_ctr_drbg_seed'' [] (\<lambda>ret. ret = 0) ?s0 = Some s1"
    "or_abort ''mbedtls_x509_crt_parse_der'' [] (\<lambda>ret. ret \<ge> 0) s1 = Some s2"
    "or_abort ''mbedtls_ssl_set_hostname'' (str_arg server) (\<lambda>ret. ret = 0) s2 = Some s3"
    and rest: "tbind (or_fatal ''mbedtls_ssl_config_defaults'' [0, 0, 0] (\<lambda>ret. ret = 0) s3) (\<lambda>_ s.
       let s = snd (ext ''mbedtls_ssl_conf_authmode'' [2] s);
           s = snd (ext ''mbedtls_ssl_conf_ca_chain'' [] s);
           s = snd (ext ''mbedtls_ssl_conf_rng'' [] s);
           s = (if defined_in s ''CONFIG_MBEDTLS_DEBUG'' then snd (ext ''mbedtls_esp_enable_debug_log'' [4] s) else s)
       in or_fatal ''mbedtls_ssl_setup'' [] (\<lambda>ret. ret = 0) s) = Some (r, s')"
    using assms unfolding ota_tls_setup_def Let_def [where ?s = "foldl _ _ _"] by (elim bindE) blast
  have "quiet ?s0 s1" "quiet s1 s2" "quiet s2 s3"
    using 1 by (auto elim!: quiet_or_abort simp: other_call_def)
  then have q3: "quiet s s3" using q0 quiet_trans by blast
  from rest show ?thesis
  proof (cases rule: tbindE)
    case (1 t)
    then show ?thesis using quiet_trans [OF q3 quiet_or_fatal] by (simp add: other_call_def)
  next
    case (2 a t)
    let ?t = "snd (ext ''mbedtls_ssl_conf_rng'' [] (snd (ext ''mbedtls_ssl_conf_ca_chain'' []
      (snd (ext ''mbedtls_ssl_conf_authmode'' [2] t)))))"
    have qt: "quiet s ?t" using quiet_trans [OF q3 quiet_or_fatal [OF 2(1)]]
      by (intro quiet_ext) (simp_all add: other_call_def)
    have "quiet s (if defined_in ?t ''CONFIG_MBEDTLS_DEBUG'' then snd (ext ''mbedtls_esp_enable_debug_log'' [4] ?t) else ?t)"
      using qt quiet_ext [OF qt, of "''mbedtls_esp_enable_debug_log''"] by (simp add: other_call_def del: ext_simps)
    then show ?thesis using 2(2) unfolding Let_def
      by (elim quiet_trans quiet_or_fatal) (simp add: other_call_def)
  qed
qed

text \<open>What a session does: it ends with no switch, or with a switch after all checks.\<close>

definition session_post :: "nat \<Rightarrow> fw \<Rightarrow> fw \<Rightarrow> bool" where
  "session_post psize s s' \<longleftrightarrow>
     (\<exists>new data. transfers new data s s') \<or>
     (\<exists>n t args u. download_post psize s (Some n, t) \<and> answered_ok ''mbedtls_ssl_get_verify_result'' (env s) (trace t) \<and>
        u = snd (ext ''esp_ota_set_boot_partition'' args t) \<and> quiet u s')"

lemma download_post_prefix:
  assumes "quiet s t" and "download_post psize t y"
  shows "download_post psize s y"
proof -
  have e: "env t = env s" using assms(1) by (simp add: quiet_def offline_def)
  obtain new data where t: "transfers new data t (snd y)" and r: "case fst y of None \<Rightarrow> True | Some n \<Rightarrow>
      firmware_of new psize data \<and> n = length data \<and> answered_ok ''esp_ota_end'' (env t) (trace (snd y))"
    using assms(2) unfolding download_post_def by blast
  have "transfers new data s (snd y)" using transfers_trans [OF transfers_quiet [OF assms(1)] t] by simp
  then show ?thesis using r unfolding download_post_def e by blast
qed

lemma download_post_later:
  assumes "download_post psize s (Some n, t)" and "quiet t u"
  shows "download_post psize s (Some n, u)"
proof -
  obtain new data where t: "transfers new data s t" and p: "firmware_of new psize data" "n = length data"
    "answered_ok ''esp_ota_end'' (env s) (trace t)"
    using assms(1) unfolding download_post_def by auto
  have "transfers new data s u" using transfers_trans [OF t transfers_quiet [OF assms(2)]] by simp
  moreover have "answered_ok ''esp_ota_end'' (env s) (trace u)"
    using answered_ok_suffix p(3) assms(2) unfolding quiet_def offline_def by blast
  ultimately show ?thesis using p unfolding download_post_def by auto
qed

lemma ota_reboot_switches:
  assumes "ota_reboot part t = Some (r, s')"
  obtains s5 args where "quiet t s5" and "quiet (snd (ext ''esp_ota_set_boot_partition'' args s5)) s'"
proof -
  obtain s5 where s5: "graphics_show ''Rebooting the badge'' 0 False True t = Some s5"
    and m: "tbind (or_fatal ''esp_ota_set_boot_partition'' [part] (\<lambda>err. err = ESP_OK) s5) (\<lambda>_ s.
       Some (Some (), snd (ext ''esp_restart'' [] s))) = Some (r, s')"
    using assms unfolding ota_reboot_def by (elim bindE)
  let ?u = "snd (ext ''esp_ota_set_boot_partition'' [part] s5)"
  from m have "quiet ?u s'"
  proof (cases rule: tbindE)
    case (1 s1)
    then show ?thesis unfolding or_fatal_def case_prod_beta Let_def
      by (simp del: ext_simps split: if_splits) (auto dest: quiet_fatal)
  next
    case (2 a s1)
    then have "s1 = ?u" unfolding or_fatal_def case_prod_beta Let_def
      by (auto simp del: ext_simps dest: quiet_fatal(1) split: if_splits)
    then show ?thesis using 2(2) quiet_ext [OF quiet_refl, of "''esp_restart''" ?u "[]"]
      by (simp add: other_call_def del: ext_simps)
  qed
  then show ?thesis by (rule that [OF quiet_show [OF s5]])
qed

lemma quiet_session: "quiet s s' \<Longrightarrow> session_post psize s s'"
  unfolding session_post_def using transfers_quiet by blast

lemma session_post_prefix:
  assumes "quiet s t" and "session_post psize t s'"
  shows "session_post psize s s'"
proof -
  have e: "env t = env s" using assms(1) by (simp add: quiet_def offline_def)
  show ?thesis
    using assms(2) transfers_trans [OF transfers_quiet [OF assms(1)]] download_post_prefix [OF assms(1)]
    unfolding session_post_def e by fastforce
qed

lemma ota_session_transfers:
  assumes "ota_session server request percent psize part s = Some (r, s')"
  shows "session_post psize s s'"
proof -
  let ?s0 = "snd (ext ''mbedtls_net_init'' [] (ota_wait s))"
  have q0: "quiet s ?s0" unfolding ota_wait_def by (intro quiet_ext quiet_refl) (simp_all add: other_call_def)
  obtain s1 where sh: "graphics_show ''Handshaking server'' 0 False True ?s0 = Some s1"
    and m: "tbind (ota_connect server s1) (\<lambda>_ s. tbind (ota_request request s) (\<lambda>_ s. do {
       s \<leftarrow> graphics_show ''Starting OTA update'' 0 False True s;
       tbind (ota_download percent psize s) (\<lambda>_ s. ota_reboot part s) })) = Some (r, s')"
    using assms unfolding ota_session_def Let_def by (elim bindE) blast
  have q1: "quiet s s1" by (rule quiet_trans [OF q0 quiet_show [OF sh]])
  from m show ?thesis
  proof (cases rule: tbindE)
    case (1 t)
    then show ?thesis using quiet_session quiet_trans [OF q1] ota_connect_quiet by blast
  next
    case (2 a s2)
    have q2: "quiet s s2" and v: "answered_ok ''mbedtls_ssl_get_verify_result'' (env s1) (trace s2)"
      using ota_connect_quiet [OF 2(1)] quiet_trans [OF q1] by auto
    from 2(2) show ?thesis
    proof (cases rule: tbindE)
      case (1 t)
      then show ?thesis using quiet_session quiet_trans [OF q2] ota_request_quiet by blast
    next
      case (2 b s3)
      then obtain s4 where sh: "graphics_show ''Starting OTA update'' 0 False True s3 = Some s4"
        and m: "tbind (ota_download percent psize s4) (\<lambda>_ s. ota_reboot part s) = Some (r, s')"
        by (elim bindE) blast
      have q4: "quiet s2 s4" by (rule quiet_trans [OF ota_request_quiet [OF 2(1)] quiet_show [OF sh]])
      have dl: "download_post psize s (r1, t)" if "ota_download percent psize s4 = Some (r1, t)" for r1 t
        using download_post_prefix [OF quiet_trans [OF q2 q4] ota_download_transfers [OF that]] .
      from m show ?thesis
      proof (cases rule: tbindE)
        case (1 t)
        then show ?thesis using dl [OF 1(1)] unfolding session_post_def download_post_def by auto
      next
        case (2 n t)
        obtain s5 args where s5: "quiet t s5" "quiet (snd (ext ''esp_ota_set_boot_partition'' args s5)) s'"
          by (rule ota_reboot_switches [OF 2(2)])
        have "suffix (trace s4) (trace t)"
          using ota_download_transfers [OF 2(1)] unfolding download_post_def transfers_def by auto
        then have "suffix (trace s2) (trace s5)" and "env s1 = env s"
          using q1 q4 s5(1) unfolding quiet_def offline_def by (auto intro: suffix_order.trans)
        then have "answered_ok ''mbedtls_ssl_get_verify_result'' (env s) (trace s5)"
          using v by (auto intro: answered_ok_suffix)
        with download_post_later [OF dl [OF 2(1)] s5(1)] s5(2) show ?thesis
          unfolding session_post_def by (intro disjI2 exI conjI) (assumption | rule refl)+
      qed
    qed
  qed
qed

text \<open>Nothing of an update has happened yet.\<close>

definition no_update_yet :: "fw \<Rightarrow> bool" where
  "no_update_yet s \<longleftrightarrow> received (env s) (trace s) = [] \<and> flashed (trace s) = [] \<and> \<not> switched (trace s) \<and> guarded (env s) (trace s)"

lemma badge_ota_task_session:
  assumes "badge_ota_task server request percent s = Some (r, s')"
  obtains s1 where "env s1 = env s" and "no_update_yet s1 = no_update_yet s"
    and "session_post (update_size (env s) (trace s1)) s1 s'"
proof -
  obtain s0 where s0: "or_abort ''esp_ota_get_running_partition'' [] (\<lambda>p. p \<noteq> 0) s = Some s0"
    and m: "(let ((part, sz), s) = ext_bytes ''esp_ota_get_next_update_partition'' [0] s0 in
      if part = 0 then None
      else do {
        s \<leftarrow> graphics_show ''Connecting to WiFi'' 0 False True s;
        tbind (ota_tls_setup server (ota_wait s)) (\<lambda>_ s. ota_session server request percent (le_bytes (take 4 sz)) part s)
      }) = Some (r, s')"
    using assms unfolding badge_ota_task_def by (elim bindE)
  have q0: "quiet s s0" using quiet_or_abort [OF s0] by (simp add: other_call_def)
  then have e0: "env s0 = env s" by (simp add: quiet_def offline_def)
  obtain part sz where a: "env s (Ext ''esp_ota_get_next_update_partition'' [0] # trace s0) = (part, sz)" by fastforce
  define s1 where "s1 = snd (ext_bytes ''esp_ota_get_next_update_partition'' [0] s0)"
  have s1: "env s1 = env s" "trace s1 = Ext ''esp_ota_get_next_update_partition'' [0] # trace s0"
    using e0 by (simp_all add: s1_def ext_bytes_def Let_def case_prod_beta)
  have x: "ext_bytes ''esp_ota_get_next_update_partition'' [0] s0 = ((part, sz), s1)"
    using e0 a by (simp add: s1_def ext_bytes_def Let_def case_prod_beta)
  obtain s2 where sh: "graphics_show ''Connecting to WiFi'' 0 False True s1 = Some s2"
    and m: "tbind (ota_tls_setup server (ota_wait s2)) (\<lambda>_ s. ota_session server request percent (le_bytes (take 4 sz)) part s) = Some (r, s')"
    using m unfolding x Let_def prod.case by (auto elim: bindE split: if_splits)
  have q2: "quiet s1 (ota_wait s2)" unfolding ota_wait_def
    by (intro quiet_ext quiet_show [OF sh]) (simp add: other_call_def)
  have "session_post (le_bytes (take 4 sz)) s1 s'"
    using m
  proof (cases rule: tbindE)
    case (1 t)
    then show ?thesis using quiet_session quiet_trans [OF q2] ota_tls_setup_quiet by blast
  next
    case (2 b t)
    show ?thesis
      by (rule session_post_prefix [OF quiet_trans [OF q2 ota_tls_setup_quiet [OF 2(1)]] ota_session_transfers [OF 2(2)]])
  qed
  moreover have "no_update_yet s1 = no_update_yet s"
    using q0 s1 unfolding no_update_yet_def quiet_def offline_def by simp
  moreover have "update_size (env s) (trace s1) = le_bytes (take 4 sz)" using s1 a by simp
  ultimately show ?thesis using that s1(1) by metis
qed

end
