(* ===== verification/Ota_Proofs.thy ===== *)
theory Ota_Proofs
  imports Ota_Safety
begin

text \<open>
  The properties of the updater: it installs what the server sent, switches the boot partition only
  after the checks, and its download always ends; and a run of an update in which all this happens.
\<close>

section \<open>The download ends\<close>

text \<open>Without the Disobey configuration the progress screen always returns.\<close>

lemma graphics_show_returns:
  assumes "\<not> defined_in s ''CONFIG_DISOBEY''"
  shows "\<exists>s'. graphics_show name p show_p force s = Some s'"
proof -
  have "defined_in (snd (badge_eink_dev_is_busy s)) = defined_in s"
    by (simp add: badge_eink_dev_is_busy_def Let_def case_prod_beta defined_in_def fun_eq_iff)
  then show ?thesis
    using assms show_still_works unfolding graphics_show_def case_prod_beta Let_def by auto
qed


text \<open>The number of reads, and a server that answers every read at once and closes after at most \<open>N\<close> of them.\<close>

fun reads :: "ext_call list \<Rightarrow> nat" where
  "reads [] = 0"
| "reads (Ext f args # tr) = (if f = ''mbedtls_ssl_read'' then Suc (reads tr) else reads tr)"

definition server_stops :: "nat \<Rightarrow> environment \<Rightarrow> bool" where
  "server_stops N e \<longleftrightarrow> (\<forall>len tr. let a = fst (e (Ext ''mbedtls_ssl_read'' [int len] # tr)) in
     a \<noteq> MBEDTLS_ERR_SSL_WANT_READ \<and> a \<noteq> MBEDTLS_ERR_SSL_WANT_WRITE \<and> a \<le> int len \<and> (N \<le> reads tr \<longrightarrow> a \<le> 0))"


text \<open>The update task can go on from \<open>s\<close>.\<close>

definition live :: "nat \<Rightarrow> fw \<Rightarrow> bool" where
  "live N s \<longleftrightarrow> server_stops N (env s) \<and> \<not> defined_in s ''CONFIG_DISOBEY''"





lemma live_trace [simp]: "live N (s\<lparr>trace := tr\<rparr>) = live N s"
  by (simp add: live_def defined_in_def)










section \<open>A run of the update\<close>

text \<open>A server that answers each request with a firmware of three bytes, on a device on which every call succeeds.\<close>

definition demo_response :: "u8 list" where
  "demo_response = str_bytes ''HTTP/1.1 200 OK'' @ [CR, LF] @ str_bytes ''Content-Length: 3'' @ [CR, LF, CR, LF] @ [1, 2, 3]"

definition demo_server :: environment where
  "demo_server tr = (case tr of [] \<Rightarrow> (0, []) | Ext f args # tr \<Rightarrow>
     if f = ''mbedtls_ssl_read'' then (int (length demo_response), demo_response)
     else if f = ''mbedtls_ssl_write'' then (int (length args), [])
     else if f = ''esp_ota_get_next_update_partition'' then (1, [200])
     else if f = ''esp_ota_get_running_partition'' then (1, [])
     else (0, []))"

definition demo :: "fw \<Rightarrow> bool" where
  "demo s \<longleftrightarrow> env s = demo_server \<and> config s = Map.empty"

lemma demo_trace [simp]: "demo (s\<lparr>trace := tr\<rparr>) = demo s"
  by (simp add: demo_def)

lemma demo_transfers: "demo s \<Longrightarrow> transfers new data s s' \<Longrightarrow> demo s'"
  by (simp add: demo_def transfers_def)

lemma demo_show: "demo s \<Longrightarrow> \<exists>s'. graphics_show name p show_p force s = Some s' \<and> demo s'"
proof -
  assume d: "demo s"
  then have "\<not> defined_in s ''CONFIG_DISOBEY''" by (simp add: demo_def defined_in_def)
  then obtain s' where "graphics_show name p show_p force s = Some s'" using graphics_show_returns by blast
  then show ?thesis using demo_transfers [OF d transfers_quiet] quiet_show by blast
qed

lemma demo_answer:
  "demo s \<Longrightarrow> env s (Ext f args # tr) =
    (if f = ''mbedtls_ssl_read'' then (int (length demo_response), demo_response)
     else if f = ''mbedtls_ssl_write'' then (int (length args), [])
     else if f = ''esp_ota_get_next_update_partition'' then (1, [200])
     else if f = ''esp_ota_get_running_partition'' then (1, [])
     else (0, []))"
  by (simp add: demo_def demo_server_def)

lemma or_abort_ok:
  "ok (fst (env s (Ext f args # trace s))) \<Longrightarrow> or_abort f args ok s = Some (s\<lparr>trace := Ext f args # trace s\<rparr>)"
  by (simp add: or_abort_def Let_def case_prod_beta)

lemma or_fatal_ok:
  "ok (fst (env s (Ext f args # trace s))) \<Longrightarrow> or_fatal f args ok s = Some (Some (), s\<lparr>trace := Ext f args # trace s\<rparr>)"
  by (simp add: or_fatal_def Let_def case_prod_beta)

lemma tbind_step [simp]: "tbind (Some (Some a, s)) f = f a s"
  by (simp add: tbind_def)

lemma demo_tls_setup:
  assumes "demo s"
  shows "\<exists>s'. ota_tls_setup server s = Some (Some (), s') \<and> demo s'"
proof -
  define s0 where "s0 = foldl (\<lambda>s f. snd (ext f [] s)) s [''mbedtls_ssl_init'', ''mbedtls_x509_crt_init'', ''mbedtls_ctr_drbg_init'',
       ''mbedtls_ssl_config_init'', ''mbedtls_entropy_init'']"
  have "demo s0" using assms by (simp add: s0_def)
  moreover have "\<not> defined_in t ''CONFIG_MBEDTLS_DEBUG''" if "demo t" for t
    using that by (simp add: demo_def defined_in_def)
  ultimately show ?thesis
    unfolding ota_tls_setup_def s0_def [symmetric]
    by (simp add: Let_def [where ?s = s0] or_abort_ok or_fatal_ok demo_answer)
qed

lemma demo_connect: "demo s \<Longrightarrow> \<exists>s'. ota_connect server s = Some (Some (), s') \<and> demo s'"
  unfolding ota_connect_def
  by (subst ssl_handshake_loop.simps) (simp add: demo_answer case_prod_beta or_fatal_ok)

lemma demo_request: "demo s \<Longrightarrow> \<exists>s'. ota_request ''GET'' s = Some (Some (), s') \<and> demo s'"
  unfolding ota_request_def
  by (subst ssl_write_loop.simps, subst ssl_write_loop.simps) (simp add: demo_answer case_prod_beta str_bytes_def)

lemma demo_read: "demo s \<Longrightarrow> ssl_read_loop n s = Some ((int (length demo_response), demo_response), s\<lparr>trace := Ext ''mbedtls_ssl_read'' [int n] # trace s\<rparr>)"
  by (subst ssl_read_loop.simps) (simp add: ext_bytes_def Let_def demo_answer fill_buffer_def)

lemma demo_lines:
  "index_crlf [] = None" "index_crlf demo_response = Some 15" "index_crlf (drop 17 demo_response) = Some 17"
  "index_crlf (drop 36 demo_response) = Some 0" "drop 38 demo_response = [1, 2, 3]" "length demo_response = 41"
  "status_ok (c_string (take 15 demo_response))"
  "header_length (c_string (take 17 (drop 17 demo_response))) = Some 3"
  by code_simp+

lemma demo_nonempty: "demo_response \<noteq> []"
  by (simp add: demo_response_def)

lemma ota_line_have: "index_crlf buf = Some i \<Longrightarrow> ota_line buf s = Some (Some (i, buf), s)"
  by (simp add: ota_line.simps)

lemma demo_headers: "ota_headers 15 (-1) (drop 17 demo_response) s = Some (Some (3, [1, 2, 3]), s)"
proof -
  have 0: "ota_headers 0 3 [1, 2, 3] s = Some (Some (3, [1, 2, 3]), s)" by (subst ota_headers.simps) simp
  have "ota_headers 17 3 (drop 36 demo_response) s = Some (Some (3, [1, 2, 3]), s)"
    using 0 demo_lines(5) by (subst ota_headers.simps) (simp add: ota_line_have [OF demo_lines(4)] c_string_def)
  then show ?thesis
    by (subst ota_headers.simps) (simp add: ota_line_have [OF demo_lines(3)] demo_lines(8))
qed

lemma demo_status:
  assumes "demo s"
  shows "\<exists>s'. ota_status s = Some (Some (15, drop 17 demo_response), s') \<and> demo s'"
proof -
  have "ota_line [] s = Some (Some (15, demo_response), s\<lparr>trace := Ext ''mbedtls_ssl_read'' [1024] # trace s\<rparr>)"
    using assms demo_nonempty by (subst ota_line.simps) (simp add: demo_read ota_line_have demo_lines)
  then show ?thesis using assms by (simp add: ota_status_def demo_lines)
qed

lemma demo_download:
  assumes "demo s"
  shows "\<exists>s'. ota_download (\<lambda>p n. of_nat (100 * p div n)) 200 s = Some (Some 3, s') \<and> demo s'"
proof -
  obtain s1 where 1: "ota_status s = Some (Some (15, drop 17 demo_response), s1)" "demo s1"
    using demo_status [OF assms] by blast
  define s2 where "s2 = snd (ext_bytes ''esp_ota_begin'' [0xffffffff] s1)"
  have b: "ext_bytes ''esp_ota_begin'' [0xffffffff] s1 = ((0, []), s2)" and d2: "demo s2"
    using 1(2) by (simp_all add: ext_bytes_def Let_def demo_answer s2_def)
  let ?s3 = "snd (ext ''esp_ota_write'' (0 # map uint [1, 2, 3 :: u8]) s2)"
  obtain s4 where s4: "graphics_show ''Updating'' 100 True False ?s3 = Some s4" and d4: "demo s4"
    using demo_show [of ?s3] d2 by fastforce
  have f: "ota_fill 3 [1, 2, 3] s2 = Some (Some [1, 2, 3], s2)" by (simp add: ota_fill.simps)
  have "ota_body (\<lambda>p n. of_nat (100 * p div n)) 0 3 3 100 [] s4 = Some (Some 3, s4)" by (subst ota_body.simps) simp
  then have body: "ota_body (\<lambda>p n. of_nat (100 * p div n)) 0 3 0 110 [1, 2, 3] s2 = Some (Some 3, s4)"
    using d2 s4 by (subst ota_body.simps) (simp add: f demo_answer Let_def case_prod_beta numeral_3_eq_3 [symmetric])
  have "ota_install (\<lambda>p n. of_nat (100 * p div n)) 200 3 [1, 2, 3] s1 =
      Some (Some 3, snd (ext ''esp_ota_end'' [0] (snd (ext ''mbedtls_ssl_close_notify'' [] s4))))"
    unfolding ota_install_def b using d4 body by (simp add: or_fatal_ok demo_answer le_bytes_def)
  then show ?thesis using 1 d4 demo_headers by (simp add: ota_download_install)
qed

lemma demo_reboot: "demo s \<Longrightarrow> \<exists>s'. ota_reboot part s = Some (Some (), s') \<and> switched (trace s')"
  using demo_show [of s "''Rebooting the badge''" 0 False True]
  by (auto simp: ota_reboot_def or_fatal_ok demo_answer)

lemma demo_session:
  assumes "demo s"
  shows "\<exists>s'. ota_session ''server'' ''GET'' (\<lambda>p n. of_nat (100 * p div n)) 200 1 s = Some (Some (), s') \<and> switched (trace s')"
proof -
  let ?s0 = "snd (ext ''mbedtls_net_init'' [] (ota_wait s))"
  obtain s1 where 1: "graphics_show ''Handshaking server'' 0 False True ?s0 = Some s1" "demo s1"
    using demo_show [of ?s0] assms by (fastforce simp: ota_wait_def)
  obtain s2 where 2: "ota_connect ''server'' s1 = Some (Some (), s2)" "demo s2" using demo_connect [OF 1(2)] by blast
  obtain s3 where 3: "ota_request ''GET'' s2 = Some (Some (), s3)" "demo s3" using demo_request [OF 2(2)] by blast
  obtain s4 where 4: "graphics_show ''Starting OTA update'' 0 False True s3 = Some s4" "demo s4"
    using demo_show [OF 3(2)] by blast
  obtain s5 where 5: "ota_download (\<lambda>p n. of_nat (100 * p div n)) 200 s4 = Some (Some 3, s5)" "demo s5"
    using demo_download [OF 4(2)] by blast
  show ?thesis unfolding ota_session_def Let_def
    using 1 2 3 4 5 demo_reboot [OF 5(2)] by (simp del: ext_simps)
qed

lemma demo_update:
  "\<exists>s'. badge_ota_task ''server'' ''GET'' (\<lambda>p n. of_nat (100 * p div n)) (power_on demo_server Map.empty) = Some (Some (), s') \<and>
    switched (trace s')"
proof -
  have 0: "demo (power_on demo_server Map.empty)" by (simp add: demo_def power_on_def)
  define s1 where "s1 = (power_on demo_server Map.empty)\<lparr>trace := Ext ''esp_ota_get_running_partition'' [] # trace (power_on demo_server Map.empty)\<rparr>"
  define s2 where "s2 = s1\<lparr>trace := Ext ''esp_ota_get_next_update_partition'' [0] # trace s1\<rparr>"
  have 1: "or_abort ''esp_ota_get_running_partition'' [] (\<lambda>p. p \<noteq> 0) (power_on demo_server Map.empty) = Some s1" and d1: "demo s1"
    using 0 by (simp_all add: or_abort_ok demo_answer s1_def)
  have 2: "ext_bytes ''esp_ota_get_next_update_partition'' [0] s1 = ((1, [200]), s2)" and d2: "demo s2"
    using d1 by (simp_all add: ext_bytes_def Let_def demo_answer s2_def)
  obtain s3 where 3: "graphics_show ''Connecting to WiFi'' 0 False True s2 = Some s3" "demo s3" using demo_show [OF d2] by blast
  obtain s4 where 4: "ota_tls_setup ''server'' (ota_wait s3) = Some (Some (), s4)" "demo s4"
    using demo_tls_setup [of "ota_wait s3"] 3(2) by (auto simp: ota_wait_def)
  have "le_bytes (take 4 [200 :: u8]) = 200" by (simp add: le_bytes_def)
  then show ?thesis unfolding badge_ota_task_def using 1 2 3 4 demo_session [OF 4(2)] by simp
qed

text \<open>C2: whatever the server sends and however the network cuts it into pieces, when the update task
  switches the boot partition, the bytes it has flashed are the body of the HTTP response as the
  parser of the whole response gives it, at least as many as the \<open>Content-Length\<close> header says and at
  most the last buffer more, and the announced length fits the partition.\<close>

theorem update_installs_received_firmware:
  assumes "badge_ota_task server request percent s = Some (r, s')"
    and "no_update_yet s" and "switched (trace s')"
  shows "firmware_of (received (env s) (trace s')) (update_size (env s) (trace s')) (flashed (trace s'))"
proof -
  obtain s1 where s1: "env s1 = env s" "no_update_yet s1" and p: "session_post (update_size (env s) (trace s1)) s1 s'"
    using badge_ota_task_session [OF assms(1)] assms(2) by metis
  then obtain n t args u where d: "download_post (update_size (env s) (trace s1)) s1 (Some n, t)"
    and u: "u = snd (ext ''esp_ota_set_boot_partition'' args t)" "quiet u s'"
    using assms(3) unfolding session_post_def transfers_def no_update_yet_def by blast
  then show ?thesis
    using s1 unfolding download_post_def transfers_def no_update_yet_def quiet_def offline_def by auto
qed

theorem update_installs_received_firmware_witness:
  "\<exists>s'. badge_ota_task ''server'' ''GET'' (\<lambda>p n. of_nat (100 * p div n)) (power_on demo_server Map.empty) = Some (Some (), s') \<and>
     firmware_of (received demo_server (trace s')) (update_size demo_server (trace s')) (flashed (trace s'))"
proof -
  obtain s' where s': "badge_ota_task ''server'' ''GET'' (\<lambda>p n. of_nat (100 * p div n)) (power_on demo_server Map.empty) = Some (Some (), s')"
    "switched (trace s')" using demo_update by blast
  moreover have "no_update_yet (power_on demo_server Map.empty)" and "env (power_on demo_server Map.empty) = demo_server"
    by (simp_all add: no_update_yet_def power_on_def)
  ultimately show ?thesis using update_installs_received_firmware [OF s'(1) _ s'(2)] by auto
qed

text \<open>C5: the boot partition is switched only after the certificate of the server has been verified and
  \<open>esp_ota_end\<close> has accepted the image.\<close>

theorem update_switches_only_verified:
  assumes "badge_ota_task server request percent s = Some (r, s')" and "no_update_yet s"
  shows "guarded (env s) (trace s')"
proof -
  obtain s1 where s1: "env s1 = env s" "no_update_yet s1" and p: "session_post (update_size (env s) (trace s1)) s1 s'"
    using badge_ota_task_session [OF assms(1)] assms(2) by metis
  from p show ?thesis
    unfolding session_post_def download_post_def transfers_def
    using s1 unfolding no_update_yet_def quiet_def offline_def by auto
qed

theorem update_switches_only_verified_witness:
  "\<exists>s'. badge_ota_task ''server'' ''GET'' (\<lambda>p n. of_nat (100 * p div n)) (power_on demo_server Map.empty) = Some (Some (), s') \<and>
     switched (trace s') \<and> guarded demo_server (trace s')"
proof -
  obtain s' where s': "badge_ota_task ''server'' ''GET'' (\<lambda>p n. of_nat (100 * p div n)) (power_on demo_server Map.empty) = Some (Some (), s')"
    "switched (trace s')" using demo_update by blast
  moreover have "no_update_yet (power_on demo_server Map.empty)" and "env (power_on demo_server Map.empty) = demo_server"
    by (simp_all add: no_update_yet_def power_on_def)
  ultimately show ?thesis using update_switches_only_verified [OF s'(1)] by auto
qed




end
