(* ===== verification/Locfd.thy ===== *)
theory Locfd
  imports Ota Inflate
begin

text \<open>
  \<open>badge_init_locfd\<close> of components/badge-first-run/badge_first_run.c: unpacking the preseed archive,
  a .zip file in the second application partition, into the file system.

  The contents of the partition are the argument \<open>part_read\<close>, as in the flash reader; the file system
  is the environment.  The state is the flash reader and the firmware state; a \<open>return\<close> of an error
  is \<open>Err\<close>.
\<close>

section \<open>Reading from a source and writing to a file\<close>

text \<open>\<open>res = reader(reader_obj, buf, n); if (res == -1 || res != n) return ESP_FAIL;\<close>\<close>

definition read_exact :: "'r reader \<Rightarrow> nat \<Rightarrow> 'r \<times> fw \<Rightarrow> u8 list cres \<times> 'r \<times> fw" where
  "read_exact rd n st =
     (case rd (fst st) n of
        (Ret (res, bs), r) \<Rightarrow> if res = - 1 \<or> res \<noteq> int n then (Err ESP_FAIL, r, snd st) else (Ret (fill_buffer n bs), r, snd st)
      | (Err e, r) \<Rightarrow> (Err ESP_FAIL, r, snd st)
      | (Oob, r) \<Rightarrow> (Oob, r, snd st)
      | (Spin, r) \<Rightarrow> (Spin, r, snd st))"

text \<open>A call that fails with a negative number, or also with 0.\<close>

definition sys_call :: "string \<Rightarrow> int list \<Rightarrow> (int \<Rightarrow> bool) \<Rightarrow> 'r \<times> fw \<Rightarrow> int cres \<times> 'r \<times> fw" where
  "sys_call f args ok st = (let (r, s) = ext f args (snd st) in (if ok r then Ret r else Err ESP_FAIL, fst st, s))"

lemma sys_call_Ret: "sys_call f args ok st = (Ret r, st') \<Longrightarrow> ok r"
  by (auto simp: sys_call_def Let_def case_prod_beta split: if_splits)

function write_all :: "int \<Rightarrow> u8 list \<Rightarrow> 'r \<times> fw \<Rightarrow> unit cres \<times> 'r \<times> fw" where
  "write_all fd bs st =
     (if bs = [] then (Ret (), st)
      else cbind (sys_call ''write'' (fd # map uint bs) (\<lambda>err. err > 0) st) (\<lambda>err st.
        if nat err > length bs then (Oob, st) else write_all fd (drop (nat err) bs) st))"
  by pat_completeness auto
termination
  by (relation "measure (\<lambda>(fd, bs, st). length bs)") (auto dest!: sys_call_Ret)

declare write_all.simps [simp del]

function copy_file :: "'r reader \<Rightarrow> int \<Rightarrow> nat \<Rightarrow> 'r \<times> fw \<Rightarrow> unit cres \<times> 'r \<times> fw" where
  "copy_file rd fd n st =
     (if n = 0 then (Ret (), st)
      else let sz = min n 128 in
        cbind (read_exact rd sz st) (\<lambda>buf st.
        cbind (write_all fd buf st) (\<lambda>_ st. copy_file rd fd (n - sz) st)))"
  by pat_completeness auto
termination
  by (relation "measure (\<lambda>(rd, fd, n, st). n)") auto

declare copy_file.simps [simp del]

section \<open>The archive\<close>

record local_file_header =
  version_need :: nat
  gp_bit_flag :: nat
  compr_method :: nat
  file_time :: nat
  file_date :: nat
  crc32 :: nat
  compr_size :: nat
  uncompr_size :: nat
  fname_len :: nat
  ext_len :: nat

definition header_of :: "u8 list \<Rightarrow> local_file_header" where
  "header_of h =
     (let num = (\<lambda>i n. le_bytes (take n (drop i h)))
      in \<lparr>version_need = num 0 2, gp_bit_flag = num 2 2, compr_method = num 4 2, file_time = num 6 2, file_date = num 8 2,
          crc32 = num 10 4, compr_size = num 14 4, uncompr_size = num 18 4, fname_len = num 22 2, ext_len = num 24 2\<rparr>)"

function skip_ext :: "'r reader \<Rightarrow> nat \<Rightarrow> 'r \<times> fw \<Rightarrow> unit cres \<times> 'r \<times> fw" where
  "skip_ext rd n st =
     (if n = 0 then (Ret (), st)
      else let sz = min n 16 in cbind (read_exact rd sz st) (\<lambda>_ st. skip_ext rd (n - sz) st))"
  by pat_completeness auto
termination
  by (relation "measure (\<lambda>(rd, n, st). n)") auto

declare skip_ext.simps [simp del]

abbreviation slash :: u8 where "slash \<equiv> 47"

text \<open>The array \<open>fname[256]\<close>: a slash, the name in the archive and a zero.\<close>

definition read_fname :: "'r reader \<Rightarrow> nat \<Rightarrow> 'r \<times> fw \<Rightarrow> u8 list cres \<times> 'r \<times> fw" where
  "read_fname rd n st =
     (if n = 0 then (Err ESP_FAIL, st)
      else if n \<ge> 255 then (Err ESP_FAIL, st)
      else cbind (read_exact rd n st) (\<lambda>bs st. (Ret (slash # bs), st)))"

definition make_dir :: "u8 list \<Rightarrow> 'r \<times> fw \<Rightarrow> unit cres \<times> 'r \<times> fw" where
  "make_dir fname st =
     cbind (sys_call ''mkdir'' (0x1ed # map uint (c_string (butlast fname)) @ [0]) (\<lambda>err. err \<ge> 0) st) (\<lambda>_ st. (Ret (), st))"

definition close_file :: "int \<Rightarrow> 'r \<times> fw \<Rightarrow> 'r \<times> fw" where
  "close_file fd st = (fst st, snd (ext ''close'' [fd] (snd st)))"

text \<open>A deflated file: the decoder reads through the flash reader; at the end it has to be at the end of its stream.\<close>

definition inflate_file :: "'r reader \<Rightarrow> int \<Rightarrow> nat \<Rightarrow> 'r \<times> fw \<Rightarrow> unit cres \<times> 'r \<times> fw" where
  "inflate_file rd fd n st =
     (let (res, dr, s) =
        cbind (copy_file (lib_deflate_read rd) fd n (lib_deflate_init (fst st), snd st)) (\<lambda>_ st.
          let st = close_file fd st in
          case lib_deflate_read rd (fst st) 1 of
            (Ret (res, bs), dr) \<Rightarrow> (if res \<noteq> 0 then Err ESP_FAIL else Ret (), dr, snd st)
          | (Err e, dr) \<Rightarrow> (Err ESP_FAIL, dr, snd st)
          | (Oob, dr) \<Rightarrow> (Oob, dr, snd st)
          | (Spin, dr) \<Rightarrow> (Spin, dr, snd st))
      in (res, read_p dr, s))"

definition extract_file :: "'r reader \<Rightarrow> local_file_header \<Rightarrow> u8 list \<Rightarrow> 'r \<times> fw \<Rightarrow> unit cres \<times> 'r \<times> fw" where
  "extract_file rd h fname st =
     (if compr_method h \<noteq> 8 \<and> compr_method h \<noteq> 0 then (Err ESP_FAIL, st)
      else cbind (sys_call ''open'' ([0x601, 0x1a4] @ map uint (c_string fname) @ [0]) (\<lambda>fd. fd \<ge> 0) st) (\<lambda>fd st.
        if compr_method h = 8 then inflate_file rd fd (uncompr_size h) st
        else cbind (copy_file rd fd (uncompr_size h) st) (\<lambda>_ st. (Ret (), close_file fd st))))"

definition extract_entry :: "'r reader \<Rightarrow> 'r \<times> fw \<Rightarrow> unit cres \<times> 'r \<times> fw" where
  "extract_entry rd st =
     cbind (read_exact rd 26 st) (\<lambda>hdr st.
       let h = header_of hdr in
       cbind (read_fname rd (fname_len h) st) (\<lambda>fname st.
       cbind (skip_ext rd (ext_len h) st) (\<lambda>_ st.
         if last fname = slash then make_dir fname st else extract_file rd h fname st)))"

text \<open>One round of the loop; leaving it with \<open>True\<close> is the \<open>break\<close>, with \<open>False\<close> the \<open>return ESP_OK\<close>.\<close>

definition unzip_round :: "'r reader \<Rightarrow> bool \<Rightarrow> 'r \<times> fw \<Rightarrow> (bool, bool) step cres \<times> 'r \<times> fw" where
  "unzip_round rd first_chunk st =
     cbind (read_exact rd 4 st) (\<lambda>bs st.
       let pk_sig = le_bytes bs in
       if pk_sig = 0x04034b50 then cbind (extract_entry rd st) (\<lambda>_ st. (Ret (More False), st))
       else if pk_sig = 0x02014b50 \<or> pk_sig = 0x06054b50 then (Ret (Done True), st)
       else if first_chunk then (Ret (Done False), st)
       else (Err ESP_FAIL, st))"

definition badge_init_locfd :: "(nat \<Rightarrow> nat \<Rightarrow> int \<times> u8 list) \<Rightarrow> fw \<Rightarrow> esp_err cres \<times> fw" where
  "badge_init_locfd part_read s =
     (let ((part_ota1, address), s) = ext_bytes ''esp_partition_find_first'' ([0, 0x11] @ str_arg ''ota_1'') s in
      if part_ota1 = 0 then (Ret ESP_FAIL, s)
      else let (dr, s) = ext ''malloc'' [0] s in
      if dr = 0 then (Ret ESP_ERR_NO_MEM, s)
      else let (fr, s) = ext ''malloc'' [1] s in
      if fr = 0 then (Ret ESP_ERR_NO_MEM, s)
      else case loop_c (unzip_round (lib_flash_read part_read)) True (lib_flash_new 4096, s) of
          (Ret False, _, s) \<Rightarrow> (Ret ESP_OK, s)
        | (Ret True, _, s) \<Rightarrow>
            let s = snd (ext ''free'' [dr] s);
                (res, s) = ext ''spi_flash_erase_sector'' [int ((le_bytes (take 4 address) + 4096) mod 2 ^ 32 div SPI_FLASH_SEC_SIZE)] s
            in (Ret (if res \<noteq> ESP_OK then res else ESP_OK), s)
        | (Err e, _, s) \<Rightarrow> (Ret e, s)
        | (Oob, _, s) \<Rightarrow> (Oob, s)
        | (Spin, _, s) \<Rightarrow> (Spin, s))"

end
