(* ===== verification/Locfd_Proofs.thy ===== *)
theory Locfd_Proofs
  imports Locfd Readers
begin

text \<open>
  The preseed archive: an archive of stored files and directories in the flash is unpacked into exactly
  these files and directories.
\<close>

section \<open>What the file system has seen\<close>

text \<open>The directories made and the files written, newest first.\<close>

datatype fs_op = Dir "u8 list" | File "u8 list" "u8 list"

fun append_data :: "u8 list \<Rightarrow> fs_op list \<Rightarrow> fs_op list" where
  "append_data bs (File n d # h) = File n (d @ bs) # h"
| "append_data bs h = h"

definition bytes_of :: "int list \<Rightarrow> u8 list" where
  "bytes_of xs = map word_of_int xs"

lemma bytes_of_uint [simp]: "bytes_of (map uint bs) = bs"
  by (simp add: bytes_of_def comp_def)

lemma bytes_of_append [simp]: "bytes_of (xs @ ys) = bytes_of xs @ bytes_of ys"
  by (simp add: bytes_of_def)

fun fs_history :: "environment \<Rightarrow> ext_call list \<Rightarrow> fs_op list" where
  "fs_history e [] = []"
| "fs_history e (Ext f args # tr) =
     (let r = fst (e (Ext f args # tr)) in
      if f = ''mkdir'' \<and> r \<ge> 0 then Dir (butlast (bytes_of (drop 1 args))) # fs_history e tr
      else if f = ''open'' \<and> r \<ge> 0 then File (butlast (bytes_of (drop 2 args))) [] # fs_history e tr
      else if f = ''write'' \<and> r \<ge> 0 then append_data (take (nat r) (bytes_of (tl args))) (fs_history e tr)
      else fs_history e tr)"

text \<open>A file system on which every call works; a write may take only a part of the data.\<close>

definition fs_works :: "environment \<Rightarrow> bool" where
  "fs_works e \<longleftrightarrow> (\<forall>args tr.
     0 \<le> fst (e (Ext ''mkdir'' args # tr)) \<and> 0 \<le> fst (e (Ext ''open'' args # tr)) \<and>
     fst (e (Ext ''malloc'' args # tr)) \<noteq> 0 \<and> fst (e (Ext ''esp_partition_find_first'' args # tr)) \<noteq> 0 \<and>
     (1 < length args \<longrightarrow> 0 < fst (e (Ext ''write'' args # tr)) \<and> fst (e (Ext ''write'' args # tr)) < int (length args)))"

lemma fs_works_D:
  assumes "fs_works e"
  shows "0 \<le> fst (e (Ext ''mkdir'' args # tr))" "0 \<le> fst (e (Ext ''open'' args # tr))"
    "fst (e (Ext ''malloc'' args # tr)) \<noteq> 0" "fst (e (Ext ''esp_partition_find_first'' args # tr)) \<noteq> 0"
    "1 < length args \<Longrightarrow> 0 < fst (e (Ext ''write'' args # tr))"
    "1 < length args \<Longrightarrow> fst (e (Ext ''write'' args # tr)) < int (length args)"
  using assms unfolding fs_works_def by blast+

abbreviation history :: "fw \<Rightarrow> fs_op list" where
  "history s \<equiv> fs_history (env s) (trace s)"

lemma append_data_twice: "append_data ys (append_data xs h) = append_data (xs @ ys) h"
  by (induction xs h rule: append_data.induct) auto

lemma write_all_appends:
  assumes "fs_works (env s)"
  shows "wpc (write_all fd bs (r, s)) (\<lambda>_ (r', s'). r' = r \<and> env s' = env s \<and>
    history s' = append_data bs (history s)) E"
  using assms
proof (induction "length bs" arbitrary: bs s rule: less_induct)
  case less
  show ?case
  proof (cases "bs = []")
    case True
    have "append_data [] h = h" for h by (induction "[] :: u8 list" h rule: append_data.induct) auto
    then show ?thesis using True by (simp add: write_all.simps)
  next
    case False
    let ?c = "Ext ''write'' (fd # map uint bs) # trace s"
    define n where "n = nat (fst (env s ?c))"
    have l: "1 < length (fd # map uint bs)" using False by (cases bs) auto
    have n: "fst (env s ?c) > 0" "nat (fst (env s ?c)) = n" "n \<le> length bs" "0 < n"
      using fs_works_D(5,6) [OF less.prems l, of "trace s"] unfolding n_def by simp_all
    let ?s = "s\<lparr>trace := ?c\<rparr>"
    have h: "fs_history (env s) ?c = append_data (take n bs) (history s)" using n by (simp add: Let_def)
    have "wpc (write_all fd (drop n bs) (r, ?s)) (\<lambda>_ (r', s'). r' = r \<and> env s' = env ?s \<and>
      history s' = append_data (drop n bs) (history ?s)) E"
      using less.prems n False by (intro less.hyps) simp_all
    then have "wpc (write_all fd (drop n bs) (r, ?s)) (\<lambda>_ (r', s'). r' = r \<and> env s' = env s \<and>
      history s' = append_data bs (history s)) E"
      by (rule wpc_mono) (auto simp: h append_data_twice simp del: fs_history.simps)
    then show ?thesis
      using False n by (subst write_all.simps) (simp add: sys_call_def Let_def case_prod_beta)
  qed
qed

section \<open>Reading from the flash\<close>

text \<open>The flash reader stands at byte \<open>p\<close>; the partition holds \<open>bs\<close> from byte \<open>p\<close> on.\<close>

definition at_byte :: "(nat \<Rightarrow> u8) \<Rightarrow> nat \<Rightarrow> flash_reader \<Rightarrow> bool" where
  "at_byte img p fr \<longleftrightarrow> flash_good img fr \<and> flash_pos fr = p"

definition holds_at :: "(nat \<Rightarrow> u8) \<Rightarrow> nat \<Rightarrow> nat \<Rightarrow> u8 list \<Rightarrow> bool" where
  "holds_at img psize p bs \<longleftrightarrow> p + length bs \<le> psize \<and> map img [p..<p + length bs] = bs"

lemma holds_at_append:
  "holds_at img psize p (xs @ ys) \<longleftrightarrow> holds_at img psize p xs \<and> holds_at img psize (p + length xs) ys"
proof -
  have "map img [p..<p + (length xs + length ys)] = map img [p..<p + length xs] @ map img [p + length xs..<p + length xs + length ys]"
    using upt_add_eq_append [of p "p + length xs" "length ys"] by (simp add: add.assoc)
  then show ?thesis by (auto simp: holds_at_def append_eq_append_conv)
qed

lemma at_byte_new: "at_byte img p (lib_flash_new p)"
  by (simp add: at_byte_def flash_good_def flash_pos_def lib_flash_new_def)

lemma read_flash:
  assumes "flash_partition part_read img psize" "SPI_FLASH_SEC_SIZE dvd psize"
    and "at_byte img p fr" and "holds_at img psize p bs"
    and "\<And>fr'. at_byte img (p + length bs) fr' \<Longrightarrow> Q bs (fr', s)" and "n = length bs"
  shows "wpc (read_exact (lib_flash_read part_read) n (fr, s)) Q E"
proof -
  obtain fr' where "lib_flash_read part_read fr (length bs) = (Ret (int (length bs), bs), fr')" "at_byte img (p + length bs) fr'"
    using flash_read_loop_spec [OF assms(1,2), of fr "length bs" "[]"] assms(3,4)
    unfolding at_byte_def holds_at_def lib_flash_read_def by auto
  then show ?thesis using assms(5,6) by (simp add: read_exact_def fill_buffer_def)
qed

lemma skip_flash:
  assumes flash: "flash_partition part_read img psize" "SPI_FLASH_SEC_SIZE dvd psize"
    and "at_byte img p fr" and "holds_at img psize p bs"
    and "\<And>fr'. at_byte img (p + length bs) fr' \<Longrightarrow> Q () (fr', s)" and "n = length bs"
  shows "wpc (skip_ext (lib_flash_read part_read) n (fr, s)) Q E"
  using assms(3-)
proof (induction n arbitrary: p fr bs rule: less_induct)
  case (less n)
  show ?case
  proof (cases "n = 0")
    case True
    then show ?thesis using less.prems(1,3,4) by (simp add: skip_ext.simps)
  next
    case False
    let ?m = "min n 16"
    have bs: "bs = take ?m bs @ drop ?m bs" and m: "length (take ?m bs) = ?m" using less.prems(4) by simp_all
    have h: "holds_at img psize p (take ?m bs)" "holds_at img psize (p + ?m) (drop ?m bs)"
      using less.prems(2) holds_at_append [of img psize p "take ?m bs" "drop ?m bs"] m by simp_all
    have "wpc (skip_ext (lib_flash_read part_read) (n - ?m) (fr', s)) Q E" if "at_byte img (p + ?m) fr'" for fr'
      using False less.prems(3,4) by (intro less.IH [OF _ that h(2)]) (auto simp: add.assoc)
    then show ?thesis
      using False m by (subst skip_ext.simps) (auto simp: Let_def intro!: read_flash [OF flash less.prems(1) h(1)])
  qed
qed

lemma copy_flash:
  assumes flash: "flash_partition part_read img psize" "SPI_FLASH_SEC_SIZE dvd psize"
    and "at_byte img p fr" and "holds_at img psize p bs" and "fs_works (env s)"
    and "\<And>fr' s'. at_byte img (p + length bs) fr' \<Longrightarrow> env s' = env s \<Longrightarrow> history s' = append_data bs (history s) \<Longrightarrow> Q () (fr', s')"
    and "n = length bs"
  shows "wpc (copy_file (lib_flash_read part_read) fd n (fr, s)) Q E"
  using assms(3-)
proof (induction n arbitrary: p fr bs s rule: less_induct)
  case (less n)
  show ?case
  proof (cases "n = 0")
    case True
    have "append_data [] h = h" for h by (induction "[] :: u8 list" h rule: append_data.induct) auto
    then show ?thesis using True less.prems(1,4,5) by (simp add: copy_file.simps)
  next
    case False
    let ?m = "min n 128"
    have bs: "bs = take ?m bs @ drop ?m bs" and m: "length (take ?m bs) = ?m" using less.prems(5) by simp_all
    have h: "holds_at img psize p (take ?m bs)" "holds_at img psize (p + ?m) (drop ?m bs)"
      using less.prems(2) holds_at_append [of img psize p "take ?m bs" "drop ?m bs"] m by simp_all
    have rest: "wpc (copy_file (lib_flash_read part_read) fd (n - ?m) (fr', s')) Q E"
      if "at_byte img (p + ?m) fr'" "env s' = env s" "history s' = append_data (take ?m bs) (history s)" for fr' s'
      using False less.prems(3-5) that
      by (intro less.IH [OF _ that(1) h(2)]) (auto simp: add.assoc append_data_twice)
    have "wpc (cbind (write_all fd (take ?m bs) (fr', s)) (\<lambda>_. copy_file (lib_flash_read part_read) fd (n - ?m))) Q E"
      if "at_byte img (p + ?m) fr'" for fr'
      unfolding wpc_cbind
      by (rule wpc_mono [OF write_all_appends [OF less.prems(3)]]) (use rest that in auto)
    then show ?thesis
      using False m by (subst copy_file.simps) (auto simp: Let_def simp del: wpc_cbind intro!: read_flash [OF flash less.prems(1) h(1)] simp: wpc_cbind [of "read_exact _ _ _"])
  qed
qed

section \<open>Archives\<close>

definition le_num :: "nat \<Rightarrow> nat \<Rightarrow> u8 list" where
  "le_num n v = map (\<lambda>i. of_nat (v div 256 ^ i)) [0..<n]"

lemma length_le_num [simp]: "length (le_num n v) = n"
  by (simp add: le_num_def)

lemma le_num_Suc: "le_num (Suc n) v = of_nat v # le_num n (v div 256)"
  by (simp add: le_num_def upt_conv_Cons map_Suc_upt [symmetric] div_mult2_eq del: upt_Suc)

lemma le_bytes_le_num: "v < 256 ^ n \<Longrightarrow> le_bytes (le_num n v) = v"
proof (induction n arbitrary: v)
  case 0
  then show ?case by (simp add: le_num_def le_bytes_def)
next
  case (Suc n)
  have "le_bytes (le_num (Suc n) v) = v mod 256 + 256 * le_bytes (le_num n (v div 256))"
    by (simp add: le_num_Suc le_bytes_def unsigned_of_nat take_bit_eq_mod)
  then show ?case using Suc.IH [of "v div 256"] Suc.prems by (simp add: less_mult_imp_div_less mult.commute)
qed

text \<open>
  An entry: a directory or a stored file, its name, the extra field, and the header fields that the code
  does not look at.
\<close>

record zip_entry =
  ze_dir :: bool
  ze_name :: "u8 list"
  ze_data :: "u8 list"
  ze_extra :: "u8 list"
  ze_flags :: "u8 list"
  ze_times :: "u8 list"

definition stored_name :: "zip_entry \<Rightarrow> u8 list" where
  "stored_name z = ze_name z @ (if ze_dir z then [slash] else [])"

definition entry_ok :: "zip_entry \<Rightarrow> bool" where
  "entry_ok z \<longleftrightarrow> length (ze_flags z) = 4 \<and> length (ze_times z) = 12 \<and> length (ze_extra z) < 65536 \<and>
     length (ze_data z) < 2 ^ 32 \<and> ze_name z \<noteq> [] \<and> length (stored_name z) < 255 \<and> 0 \<notin> set (ze_name z) \<and>
     (if ze_dir z then ze_data z = [] else last (ze_name z) \<noteq> slash)"

definition zip_header :: "zip_entry \<Rightarrow> u8 list" where
  "zip_header z = ze_flags z @ le_num 2 0 @ ze_times z @ le_num 4 (length (ze_data z)) @
     le_num 2 (length (stored_name z)) @ le_num 2 (length (ze_extra z))"

definition zip_bytes :: "zip_entry \<Rightarrow> u8 list" where
  "zip_bytes z = [0x50, 0x4b, 3, 4] @ zip_header z @ stored_name z @ ze_extra z @ ze_data z"

definition zip_archive :: "zip_entry list \<Rightarrow> u8 list" where
  "zip_archive zs = concat (map zip_bytes zs) @ [0x50, 0x4b, 1, 2]"

definition entry_op :: "zip_entry \<Rightarrow> fs_op" where
  "entry_op z = (if ze_dir z then Dir (slash # ze_name z) else File (slash # ze_name z) (ze_data z))"

lemma zip_header_fields:
  assumes "entry_ok z"
  shows "length (zip_header z) = 26" "compr_method (header_of (zip_header z)) = 0"
    "uncompr_size (header_of (zip_header z)) = length (ze_data z)"
    "fname_len (header_of (zip_header z)) = length (stored_name z)"
    "ext_len (header_of (zip_header z)) = length (ze_extra z)"
proof -
  have l: "length (ze_flags z) = 4" "length (ze_times z) = 12" and b: "length (ze_extra z) < 256 ^ 2" "length (ze_data z) < 256 ^ 4"
    "length (stored_name z) < 256 ^ 2"
    using assms by (simp_all add: entry_ok_def)
  show "length (zip_header z) = 26" using l by (simp add: zip_header_def)
  show "compr_method (header_of (zip_header z)) = 0" "uncompr_size (header_of (zip_header z)) = length (ze_data z)"
    "fname_len (header_of (zip_header z)) = length (stored_name z)" "ext_len (header_of (zip_header z)) = length (ze_extra z)"
    using l b by (simp_all add: header_of_def zip_header_def le_bytes_le_num Let_def)
qed

text \<open>The calls for one entry.\<close>

lemma sys_call_wp:
  assumes "ok (fst (env s (Ext f args # trace s)))"
    and "\<And>a. a = fst (env s (Ext f args # trace s)) \<Longrightarrow> Q a (r, s\<lparr>trace := Ext f args # trace s\<rparr>)"
  shows "wpc (sys_call f args ok (r, s)) Q E"
  using assms by (simp add: sys_call_def Let_def case_prod_beta)

lemma c_string_no_zero: "0 \<notin> set bs \<Longrightarrow> c_string bs = bs"
  by (auto simp: c_string_def takeWhile_eq_all_conv)

lemma extract_entry_stored:
  assumes flash: "flash_partition part_read img psize" "SPI_FLASH_SEC_SIZE dvd psize"
    and ok: "entry_ok z" and pos: "at_byte img p fr"
    and img: "holds_at img psize p (zip_header z @ stored_name z @ ze_extra z @ ze_data z)" and fs: "fs_works (env s)"
    and post: "\<And>fr' s'. at_byte img (p + 26 + length (stored_name z) + length (ze_extra z) + length (ze_data z)) fr' \<Longrightarrow> env s' = env s \<Longrightarrow>
      history s' = entry_op z # history s \<Longrightarrow> Q () (fr', s')"
  shows "wpc (extract_entry (lib_flash_read part_read) (fr, s)) Q E"
proof -
  note f = zip_header_fields [OF ok]
  have h: "holds_at img psize p (zip_header z)" "holds_at img psize (p + 26) (stored_name z)"
    "holds_at img psize (p + 26 + length (stored_name z)) (ze_extra z)"
    "holds_at img psize (p + 26 + length (stored_name z) + length (ze_extra z)) (ze_data z)"
    using img f(1) by (simp_all add: holds_at_append)
  have name: "stored_name z \<noteq> []" "length (stored_name z) < 255" "c_string (slash # ze_name z) = slash # ze_name z"
    using ok by (auto simp: entry_ok_def stored_name_def intro!: c_string_no_zero)
  let ?p = "p + 26 + length (stored_name z) + length (ze_extra z)"
  have dir: "wpc (make_dir (slash # stored_name z) (fr', s)) Q E" if "ze_dir z" "at_byte img ?p fr'" for fr'
  proof -
    let ?args = "0x1ed # map uint (slash # ze_name z) @ [0]"
    let ?s = "s\<lparr>trace := Ext ''mkdir'' ?args # trace s\<rparr>"
    have "history ?s = entry_op z # history s"
      using fs_works_D(1) [OF fs, of ?args "trace s"] that(1) by (simp add: entry_op_def Let_def bytes_of_def comp_def)
    then have "Q () (fr', ?s)" using post that ok by (simp add: entry_ok_def)
    moreover have "c_string (butlast (slash # stored_name z)) = slash # ze_name z"
      using that(1) name(3) by (simp add: stored_name_def butlast_append)
    ultimately show ?thesis
      unfolding make_dir_def wpc_cbind by (auto intro!: sys_call_wp fs_works_D(1) [OF fs])
  qed
  have plain: "wpc (extract_file (lib_flash_read part_read) (header_of (zip_header z)) (slash # stored_name z) (fr', s)) Q E"
    if "\<not> ze_dir z" "at_byte img ?p fr'" for fr'
  proof -
    let ?args = "[0x601, 0x1a4] @ map uint (slash # ze_name z) @ [0]"
    let ?s = "s\<lparr>trace := Ext ''open'' ?args # trace s\<rparr>"
    have n: "stored_name z = ze_name z" using that(1) by (simp add: stored_name_def)
    have hist: "history ?s = File (slash # ze_name z) [] # history s"
      using fs_works_D(2) [OF fs, of ?args "trace s"] by (simp add: Let_def bytes_of_def comp_def)
    have "wpc (copy_file (lib_flash_read part_read) fd (length (ze_data z)) (fr', ?s)) (\<lambda>_ st. Q () (close_file fd st)) E" for fd
      using hist post that fs
      by (intro copy_flash [OF flash that(2) h(4)]) (auto simp: close_file_def entry_op_def Let_def)
    then show ?thesis
      unfolding extract_file_def wpc_cbind f using name(3) n
      by (auto intro!: sys_call_wp fs_works_D(2) [OF fs] simp: wpc_cbind)
  qed
  have last: "last (slash # stored_name z) = slash \<longleftrightarrow> ze_dir z"
    using ok by (auto simp: stored_name_def entry_ok_def)
  have rest: "wpc (skip_ext (lib_flash_read part_read) (length (ze_extra z)) (fr', s)) (\<lambda>_ st.
      wpc (if last (slash # stored_name z) = slash then make_dir (slash # stored_name z) st
        else extract_file (lib_flash_read part_read) (header_of (zip_header z)) (slash # stored_name z) st) Q E) E"
    if "at_byte img (p + 26 + length (stored_name z)) fr'" for fr'
    using dir plain unfolding last by (intro skip_flash [OF flash that h(3) _ refl]) simp
  have fname: "wpc (read_fname (lib_flash_read part_read) (length (stored_name z)) (fr', s)) (\<lambda>fname st.
      wpc (skip_ext (lib_flash_read part_read) (length (ze_extra z)) st) (\<lambda>_ st.
        wpc (if last fname = slash then make_dir fname st
          else extract_file (lib_flash_read part_read) (header_of (zip_header z)) fname st) Q E) E) E"
    if "at_byte img (p + 26) fr'" for fr'
  proof -
    have "read_fname (lib_flash_read part_read) (length (stored_name z)) (fr', s) =
        cbind (read_exact (lib_flash_read part_read) (length (stored_name z)) (fr', s)) (\<lambda>bs st. (Ret (slash # bs), st))"
      using name(1,2) by (simp add: read_fname_def)
    then show ?thesis unfolding wpc_cbind
      by (simp only: wpc_cbind) (rule read_flash [OF flash that h(2) _ refl], simp only: wpc_simps rest)
  qed
  show ?thesis
    unfolding extract_entry_def wpc_cbind Let_def
    by (rule read_flash [OF flash pos h(1)]) (use fname f(1) in \<open>simp_all add: f\<close>)
qed

lemma unzip_stored:
  assumes flash: "flash_partition part_read img psize" "SPI_FLASH_SEC_SIZE dvd psize"
    and ok: "\<forall>z \<in> set zs. entry_ok z" and img: "holds_at img psize p (zip_archive zs)"
    and pos: "at_byte img p fr" and fs: "fs_works (env s)"
  shows "wpc (loop_c (unzip_round (lib_flash_read part_read)) True (fr, s))
    (\<lambda>b (fr', s'). b \<and> env s' = env s \<and> history s' = rev (map entry_op zs) @ history s) E"
proof -
  define I where "I = (\<lambda>(first :: bool) (fr, s'). \<exists>dn rest q. zs = dn @ rest \<and> at_byte img q fr \<and>
    holds_at img psize q (zip_archive rest) \<and> env s' = env s \<and> history s' = rev (map entry_op dn) @ history s)"
  show ?thesis
  proof (rule loop_c_wp [where I = I and m = "\<lambda>_ (fr, _). psize - flash_pos fr"])
    show "I True (fr, s)" using img pos unfolding I_def prod.case by (rule_tac exI [of _ "[]"], rule_tac exI [of _ zs], rule_tac exI [of _ p]) simp
  next
    fix first st
    assume "I first st"
    then obtain fr s' dn rest q where st: "st = (fr, s')" and zs: "zs = dn @ rest" and q: "at_byte img q fr"
      and h: "holds_at img psize q (zip_archive rest)" and e: "env s' = env s" and hist: "history s' = rev (map entry_op dn) @ history s"
      unfolding I_def by (cases st) auto
    show "wpc (unzip_round (lib_flash_read part_read) first st)
      (\<lambda>x s'. case x of More a \<Rightarrow> I a s' \<and> (case s' of (fr, _) \<Rightarrow> psize - flash_pos fr) < (case st of (fr, _) \<Rightarrow> psize - flash_pos fr)
        | Done b \<Rightarrow> (case s' of (fr', s') \<Rightarrow> b \<and> env s' = env s \<and> history s' = rev (map entry_op zs) @ history s)) E"
    proof (cases rest)
      case Nil
      then have h: "holds_at img psize q [0x50, 0x4b, 1, 2]" using h by (simp add: zip_archive_def)
      show ?thesis unfolding st unzip_round_def wpc_cbind
        by (rule read_flash [OF flash q h]) (use zs Nil e hist in \<open>simp_all add: le_bytes_def\<close>)
    next
      case (Cons z rest')
      have z: "entry_ok z" using ok zs Cons by simp
      define body where "body = zip_header z @ stored_name z @ ze_extra z @ ze_data z"
      have "zip_archive rest = [0x50, 0x4b, 3, 4] @ body @ zip_archive rest'"
        by (simp add: Cons zip_archive_def zip_bytes_def body_def)
      then have h: "holds_at img psize q [0x50, 0x4b, 3, 4]" "holds_at img psize (q + 4) body"
        "holds_at img psize (q + 4 + length body) (zip_archive rest')"
        using h by (simp_all only: holds_at_append length_Cons list.size One_nat_def add_Suc_right add_0_right numeral_eq_Suc pred_numeral_simps arith_simps)
      have len: "q + 4 + length (zip_header z @ stored_name z @ ze_extra z @ ze_data z) =
          q + 30 + length (stored_name z) + length (ze_extra z) + length (ze_data z)"
        using zip_header_fields(1) [OF z] by simp
      have hs: "holds_at img psize q [0x50, 0x4b, 3, 4]"
        "holds_at img psize (q + 4) (zip_header z @ stored_name z @ ze_extra z @ ze_data z)"
        "holds_at img psize (q + 30 + length (stored_name z) + length (ze_extra z) + length (ze_data z)) (zip_archive rest')"
        using h unfolding body_def len by (simp_all only:)
      let ?q = "q + 30 + length (stored_name z) + length (ze_extra z) + length (ze_data z)"
      have s4: "Suc (Suc (Suc (Suc q))) = q + 4" by simp
      have qq: "q < psize" "flash_pos fr = q" using hs(1) q by (simp_all add: holds_at_def at_byte_def)
      have step: "I False (fr2, s2) \<and> psize - flash_pos fr2 < psize - flash_pos fr"
        if "at_byte img ?q fr2" "env s2 = env s'" "history s2 = entry_op z # history s'" for fr2 s2
      proof
        show "I False (fr2, s2)" unfolding I_def prod.case
          by (rule_tac exI [of _ "dn @ [z]"], rule_tac exI [of _ rest'], rule_tac exI [of _ ?q])
            (use that zs Cons hs(3) e hist in simp)
      qed (use that(1) qq in \<open>simp add: at_byte_def\<close>)
      have entry: "wpc (extract_entry (lib_flash_read part_read) (fr1, s'))
          (\<lambda>_ s2. I False s2 \<and> (case s2 of (fr2, _) \<Rightarrow> psize - flash_pos fr2) < psize - flash_pos fr) E"
        if "at_byte img (q + 4) fr1" for fr1
        using fs e step by (intro extract_entry_stored [OF flash z that hs(2)]) (simp_all add: add.commute add.left_commute)
      show ?thesis unfolding st unzip_round_def wpc_cbind
        by (rule read_flash [OF flash q hs(1)]) (use entry in \<open>simp_all add: le_bytes_def s4\<close>)
    qed
  qed
qed

text \<open>C6: unpacking the preseed archive: when the partition holds an archive of directories and stored files from its
  second sector on, then, whatever the header fields that the code ignores say and however the file system
  cuts the writes, \<open>badge_init_locfd\<close> returns and the files and directories it has made are those of the
  archive, in order and with their contents.\<close>

theorem preseed_archive_is_unpacked:
  assumes "flash_partition part_read img psize" and "SPI_FLASH_SEC_SIZE dvd psize"
    and "\<forall>z \<in> set zs. entry_ok z" and "holds_at img psize 4096 (zip_archive zs)" and "fs_works (env s)"
  shows "\<exists>r s'. badge_init_locfd part_read s = (Ret r, s') \<and> fs_history (env s) (trace s') = rev (map entry_op zs) @ fs_history (env s) (trace s)"
proof -
  let ?call = "\<lambda>f args s. s\<lparr>trace := Ext f args # trace s\<rparr>"
  define s1 where "s1 = ?call ''malloc'' [1] (?call ''malloc'' [0] (?call ''esp_partition_find_first'' ([0, 0x11] @ str_arg ''ota_1'') s))"
  have s1: "env s1 = env s" "history s1 = history s" by (simp_all add: s1_def Let_def)
  have "wpc (loop_c (unzip_round (lib_flash_read part_read)) True (lib_flash_new 4096, s1))
    (\<lambda>b (fr', s'). b \<and> env s' = env s1 \<and> history s' = rev (map entry_op zs) @ history s1) (\<lambda>_ _. False)"
    using assms(5) s1(1) by (intro unzip_stored [OF assms(1-4)] at_byte_new) simp
  then obtain fr2 s2 where "loop_c (unzip_round (lib_flash_read part_read)) True (lib_flash_new 4096, s1) = (Ret True, fr2, s2)"
    "env s2 = env s" "history s2 = rev (map entry_op zs) @ history s"
    using s1 by (auto elim!: wpc_cases)
  then show ?thesis
    using fs_works_D(3,4) [OF assms(5)] unfolding badge_init_locfd_def s1_def
    by (simp add: ext_bytes_def Let_def case_prod_beta)
qed

text \<open>A directory \<open>a\<close> and a file \<open>a/b\<close>, on a file system that writes one byte at a time.\<close>

definition demo_entries :: "zip_entry list" where
  "demo_entries =
     [\<lparr>ze_dir = True, ze_name = [97], ze_data = [], ze_extra = [], ze_flags = [10, 0, 0, 0], ze_times = replicate 12 0\<rparr>,
      \<lparr>ze_dir = False, ze_name = [97, 47, 98], ze_data = [1, 2, 3], ze_extra = [7, 7], ze_flags = [10, 0, 0, 0], ze_times = replicate 12 0\<rparr>]"

definition demo_flash :: "nat \<Rightarrow> u8" where
  "demo_flash p = (if 4096 \<le> p \<and> p < 4096 + length (zip_archive demo_entries) then zip_archive demo_entries ! (p - 4096) else 0xff)"

lemma image_of: "map (\<lambda>p. if a \<le> p \<and> p < a + length xs then xs ! (p - a) else d) [a..<a + length xs] = xs"
  by (rule nth_equalityI) auto

lemma preseed_archive_is_unpacked_witness:
  "\<exists>r s'. badge_init_locfd (\<lambda>off n. if off < 8192 then (0, map demo_flash [off..<off + n]) else (-1, [])) (power_on (\<lambda>_. (1, [])) Map.empty) =
      (Ret r, s') \<and> fs_history (\<lambda>_. (1, [])) (trace s') = [File [47, 97, 47, 98] [1, 2, 3], Dir [47, 97]]"
proof -
  have l: "length (zip_archive demo_entries) = 74"
    by (simp add: zip_archive_def zip_bytes_def demo_entries_def zip_header_def stored_name_def)
  have "flash_partition (\<lambda>off n. if off < 8192 then (0, map demo_flash [off..<off + n]) else (-1, [])) demo_flash 8192"
    by (auto simp: flash_partition_def)
  moreover have "SPI_FLASH_SEC_SIZE dvd 8192" by (simp add: SPI_FLASH_SEC_SIZE_def)
  moreover have "\<forall>z \<in> set demo_entries. entry_ok z" by (simp add: demo_entries_def entry_ok_def stored_name_def)
  moreover have "holds_at demo_flash 8192 4096 (zip_archive demo_entries)"
    unfolding holds_at_def demo_flash_def image_of using l by simp
  moreover have "fs_works (env (power_on (\<lambda>_. (1, [])) Map.empty))" by (simp add: fs_works_def power_on_def)
  ultimately obtain r s' where "badge_init_locfd (\<lambda>off n. if off < 8192 then (0, map demo_flash [off..<off + n]) else (-1, []))
      (power_on (\<lambda>_. (1, [])) Map.empty) = (Ret r, s')"
    "fs_history (env (power_on (\<lambda>_. (1, [])) Map.empty)) (trace s') =
      rev (map entry_op demo_entries) @ fs_history (env (power_on (\<lambda>_. (1, [])) Map.empty)) (trace (power_on (\<lambda>_. (1, [])) Map.empty))"
    using preseed_archive_is_unpacked by blast
  then show ?thesis by (simp add: power_on_def demo_entries_def entry_op_def)
qed

end
