(* ===== verification/Ymodem.thy ===== *)
theory Ymodem
  imports Ota
begin

text \<open>
  The \<open>ymodem\<close> module of MicroPython (components/micropython/esp32/modymodem.c): files over the serial
  console.  The console (\<open>mp_hal_stdin_rx_chr\<close>, \<open>uart_tx_one_char\<close>), the file system and
  \<open>physicalPathN\<close> are calls of the environment; \<open>uart0_raw_input\<close>, a variable of the interrupt
  handler of the console, is set by a call.

  A loop of the protocol that never ends is \<open>Spin\<close>, an access outside a buffer \<open>Oob\<close>.
\<close>

section \<open>Bytes on the line\<close>

abbreviation PACKET_HEADER :: nat where "PACKET_HEADER \<equiv> 3"
abbreviation PACKET_TRAILER :: nat where "PACKET_TRAILER \<equiv> 2"
abbreviation PACKET_OVERHEAD :: nat where "PACKET_OVERHEAD \<equiv> 5"
abbreviation PACKET_SIZE :: nat where "PACKET_SIZE \<equiv> 128"
abbreviation PACKET_1K_SIZE :: nat where "PACKET_1K_SIZE \<equiv> 1024"
abbreviation FILE_SIZE_LENGTH :: nat where "FILE_SIZE_LENGTH \<equiv> 16"
abbreviation SOH :: u8 where "SOH \<equiv> 0x01"
abbreviation STX :: u8 where "STX \<equiv> 0x02"
abbreviation EOT :: u8 where "EOT \<equiv> 0x04"
abbreviation ACK :: u8 where "ACK \<equiv> 0x06"
abbreviation NAK :: u8 where "NAK \<equiv> 0x15"
abbreviation CA :: u8 where "CA \<equiv> 0x18"
abbreviation CRC16 :: u8 where "CRC16 \<equiv> 0x43"
abbreviation ABORT1 :: u8 where "ABORT1 \<equiv> 0x41"
abbreviation ABORT2 :: u8 where "ABORT2 \<equiv> 0x61"
abbreviation NAK_TIMEOUT :: int where "NAK_TIMEOUT \<equiv> 1000"
abbreviation MAX_ERRORS :: u32 where "MAX_ERRORS \<equiv> 45"

definition crc16_bit :: "u16 \<Rightarrow> u16" where
  "crc16_bit crc = (if crc AND 0x8000 \<noteq> 0 then push_bit 1 crc XOR 0x1021 else push_bit 1 crc)"

definition crc16_byte :: "u16 \<Rightarrow> u8 \<Rightarrow> u16" where
  "crc16_byte crc b = (crc16_bit ^^ 8) (crc XOR push_bit 8 (ucast b))"

definition crc16 :: "u8 list \<Rightarrow> u16" where
  "crc16 buf = foldl crc16_byte 0 buf"

definition Receive_Byte :: "int \<Rightarrow> fw \<Rightarrow> u8 option \<times> fw" where
  "Receive_Byte timeout s =
     (let (cb, s) = ext ''mp_hal_stdin_rx_chr'' [timeout] s in (if cb < 0 then None else Some (word_of_int cb), s))"

text \<open>\<open>uart0_raw_input = v\<close> under \<open>uart0_mutex\<close>.\<close>

definition set_raw_input :: "int \<Rightarrow> fw \<Rightarrow> fw" where
  "set_raw_input v s =
     (let s = snd (ext ''xSemaphoreTake'' (str_arg ''uart0_mutex'') s);
          s = snd (ext ''uart0_raw_input'' [v] s)
      in snd (ext ''xSemaphoreGive'' (str_arg ''uart0_mutex'') s))"

definition uart_consume :: "fw \<Rightarrow> unit cres \<times> fw" where
  "uart_consume s =
     cbind (loop_c (\<lambda>_ s. let (cb, s) = ext ''mp_hal_stdin_rx_chr'' [1] s in (Ret (if cb \<ge> 0 then More () else Done ()), s))
              () (set_raw_input 1 s))
       (\<lambda>_ s. (Ret (), set_raw_input 0 s))"

definition Send_Byte :: "u8 \<Rightarrow> fw \<Rightarrow> fw" where
  "Send_Byte c s = snd (ext ''uart_tx_one_char'' [uint c] s)"

definition send_Bytes :: "u8 list \<Rightarrow> fw \<Rightarrow> fw" where
  "send_Bytes buf s = foldl (\<lambda>s c. Send_Byte c s) s buf"

definition send_CA :: "fw \<Rightarrow> fw" where "send_CA s = Send_Byte CA (Send_Byte CA s)"
definition send_ACK :: "fw \<Rightarrow> fw" where "send_ACK s = Send_Byte ACK s"
definition send_ACKCRC16 :: "fw \<Rightarrow> fw" where "send_ACKCRC16 s = Send_Byte CRC16 (Send_Byte ACK s)"
definition send_NAK :: "fw \<Rightarrow> fw" where "send_NAK s = Send_Byte NAK s"
definition send_CRC16 :: "fw \<Rightarrow> fw" where "send_CRC16 s = Send_Byte CRC16 s"

section \<open>A packet\<close>

text \<open>The bytes \<open>data[i]\<close> for \<open>i\<close> in the list; \<open>False\<close> after a timeout.\<close>

fun receive_bytes :: "nat list \<Rightarrow> u8 list \<Rightarrow> int \<Rightarrow> fw \<Rightarrow> (bool \<times> u8 list) cres \<times> fw" where
  "receive_bytes [] data timeout s = (Ret (True, data), s)"
| "receive_bytes (i # is) data timeout s =
     (case Receive_Byte timeout s of
        (None, s) \<Rightarrow> (Ret (False, data), s)
      | (Some ch, s) \<Rightarrow> if i < length data then receive_bytes is (data[i := ch]) timeout s else (Oob, s))"

text \<open>The body of a packet of \<open>packet_size\<close> bytes that starts with \<open>ch\<close>: return value, length and data.\<close>

definition receive_body :: "u8 list \<Rightarrow> u8 \<Rightarrow> nat \<Rightarrow> int \<Rightarrow> fw \<Rightarrow> (int \<times> int \<times> u8 list) cres \<times> fw" where
  "receive_body data ch packet_size timeout s =
     cbind (receive_bytes [1..<packet_size + PACKET_OVERHEAD] (data[0 := ch]) timeout s) (\<lambda>(complete, data) s.
       if \<not> complete then (Ret (- 1, 0, data), s)
       else if data ! 1 \<noteq> (data ! 2) XOR 0xff then (Ret (0, - 2, data), s)
       else if crc16 (take (packet_size + PACKET_TRAILER) (drop PACKET_HEADER data)) \<noteq> 0 then (Ret (0, - 2, data), s)
       else (Ret (0, int packet_size, data), s))"

definition Receive_Packet :: "u8 list \<Rightarrow> int \<Rightarrow> fw \<Rightarrow> (int \<times> int \<times> u8 list) cres \<times> fw" where
  "Receive_Packet data timeout s =
     (case Receive_Byte timeout s of
        (None, s) \<Rightarrow> (Ret (- 1, 0, data), s)
      | (Some ch, s) \<Rightarrow>
          if ch = SOH then receive_body data ch PACKET_SIZE timeout s
          else if ch = STX then receive_body data ch PACKET_1K_SIZE timeout s
          else if ch = EOT then (Ret (0, 0, data), s)
          else if ch = CA then
            (case Receive_Byte timeout s of
               (None, s) \<Rightarrow> (Ret (- 2, 0, data), s)
             | (Some ch, s) \<Rightarrow> if ch = CA then (Ret (0, - 1, data), s) else (Ret (- 1, 0, data), s))
          else if ch = ABORT1 \<or> ch = ABORT2 then (Ret (- 2, 0, data), s)
          else
            let s = snd (ext ''vTaskDelay'' [100 div macro s ''portTICK_PERIOD_MS''] s)
            in cbind (uart_consume s) (\<lambda>_ s. (Ret (- 1, 0, data), s)))"

section \<open>Receiving a file\<close>

text \<open>
  The variables of \<open>Ymodem_Receive\<close>.  \<open>getname\<close> is the buffer of the caller, if there is one, and
  \<open>getname_pos\<close> the offset of the pointer that is moved along it.
\<close>

record ym_rx =
  packet_data :: "u8 list"
  file_len :: u32
  rx_size :: u32
  packets_received :: u32
  rx_errors :: u32
  eof_cnt :: int
  getname :: "u8 list option"
  getname_pos :: nat
  errmsg :: string

text \<open>Leaving for \<open>exit\<close>.\<close>

definition stop_rx :: "u32 \<Rightarrow> string \<Rightarrow> ym_rx \<Rightarrow> fw \<Rightarrow> (ym_rx, ym_rx) step cres \<times> fw" where
  "stop_rx v msg x s = (Ret (Done (x\<lparr>rx_size := v, errmsg := msg\<rparr>)), s)"

text \<open>\<open>errors++\<close>; more than five errors end the session with \<open>CA\<close>, otherwise the packet is refused.\<close>

definition count_error :: "u32 \<Rightarrow> string \<Rightarrow> (fw \<Rightarrow> fw) \<Rightarrow> ym_rx \<Rightarrow> fw \<Rightarrow> (ym_rx, ym_rx) step cres \<times> fw" where
  "count_error v msg answer x s =
     (let x = x\<lparr>rx_errors := rx_errors x + 1\<rparr>
      in if rx_errors x > 5 then stop_rx v msg x (send_CA s) else (Ret (More x), answer s))"

text \<open>
  \<open>for (i = 0, \<dots>; (*file_ptr != 0) && (i < 64);)\<close>: \<open>i\<close> is never counted, so only a zero byte ends the
  loop.  The first argument is the rest of \<open>packet_data\<close>; \<open>None\<close> is an access outside one of the buffers.
\<close>

fun copy_name :: "u8 list \<Rightarrow> u8 list \<Rightarrow> nat \<Rightarrow> (u8 list \<times> nat) option" where
  "copy_name [] buf k = None"
| "copy_name (b # bs) buf k =
     (if k \<ge> length buf then None
      else if b \<noteq> 0 then copy_name bs (buf[k := b]) (k + 1)
      else Some (buf[k := 0], k))"

text \<open>The bytes up to a space, at most 16; the space is looked for before the count.\<close>

fun size_field :: "nat \<Rightarrow> u8 list \<Rightarrow> u8 list option" where
  "size_field i [] = None"
| "size_field i (b # bs) =
     (if b \<noteq> 32 \<and> i < FILE_SIZE_LENGTH then map_option (Cons b) (size_field (i + 1) bs) else Some [])"

text \<open>The size a filename packet announces.\<close>

definition announced_size :: "u8 list \<Rightarrow> u32 option" where
  "announced_size data =
     (let file_ptr = dropWhile (\<lambda>b. b \<noteq> 0) (drop PACKET_HEADER data)
      in if file_ptr = [] then None
         else map_option (\<lambda>fs. if c_string fs \<noteq> [] then word_of_int (atoi (c_string fs)) else 0) (size_field 0 (tl file_ptr)))"

definition take_name :: "ym_rx \<Rightarrow> ym_rx option" where
  "take_name x =
     (case getname x of
        None \<Rightarrow> Some x
      | Some buf \<Rightarrow> map_option (\<lambda>(buf, k). x\<lparr>getname := Some buf, getname_pos := k\<rparr>)
                      (copy_name (drop PACKET_HEADER (packet_data x)) buf (getname_pos x)))"

definition next_packet :: "ym_rx \<Rightarrow> ym_rx" where
  "next_packet x = x\<lparr>packets_received := packets_received x + 1\<rparr>"

definition filename_packet :: "u32 \<Rightarrow> ym_rx \<Rightarrow> fw \<Rightarrow> (ym_rx, ym_rx) step cres \<times> fw" where
  "filename_packet maxsize x s =
     (if packet_data x ! PACKET_HEADER \<noteq> 0 then
        case take_name (x\<lparr>rx_errors := 0\<rparr>) of
          None \<Rightarrow> (Oob, s)
        | Some x \<Rightarrow>
            (case announced_size (packet_data x) of
               None \<Rightarrow> (Oob, s)
             | Some sz \<Rightarrow>
                 if sz < 1 \<or> sz > maxsize
                 then stop_rx (if sz > maxsize then - 9 else - 4) ''Wrong file size'' x (send_CA s)
                 else (Ret (More (next_packet (x\<lparr>rx_size := sz, file_len := 0\<rparr>))), send_ACKCRC16 s))
      else
        cbind (count_error (- 5) ''Filename packet is empty, end session'' send_NAK x s)
          (\<lambda>st s. (Ret (case st of More x \<Rightarrow> More (next_packet x) | Done x \<Rightarrow> Done x), s)))"

text \<open>How much of a packet is written, and the new \<open>file_len\<close>.\<close>

definition write_length :: "u32 \<Rightarrow> u32 \<Rightarrow> u32 \<Rightarrow> u32 \<times> u32" where
  "write_length len sz packet_length =
     (let len = len + packet_length
      in if len > sz then (packet_length - (len - sz), sz) else (packet_length, len))"

text \<open>\<open>%d\<close>\<close>

definition dec_int :: "int \<Rightarrow> string" where
  "dec_int i = (if i < 0 then ''-'' @ dec_digits (nat (- i)) else dec_digits (nat i))"

definition data_packet :: "int \<Rightarrow> u32 \<Rightarrow> ym_rx \<Rightarrow> fw \<Rightarrow> (ym_rx, ym_rx) step cres \<times> fw" where
  "data_packet ffd packet_length x s =
     (let accept = (\<lambda>x s. (Ret (More (next_packet (x\<lparr>rx_errors := 0\<rparr>))), send_ACK s)) in
      if file_len x < rx_size x then
        let (write_len, len) = write_length (file_len x) (rx_size x) packet_length;
            x = x\<lparr>file_len := len\<rparr>;
            (written, s) = ext ''fwrite'' (ffd # map uint (take (unat write_len) (drop PACKET_HEADER (packet_data x)))) s
        in if word_of_int written \<noteq> write_len then stop_rx (- 6) (''fwrite() error ['' @ dec_int written @ '' <> '' @ dec_int (sint write_len) @ '']'') x (send_CA s) else accept x s
      else accept x s)"

definition normal_packet :: "int \<Rightarrow> u32 \<Rightarrow> u32 \<Rightarrow> ym_rx \<Rightarrow> fw \<Rightarrow> (ym_rx, ym_rx) step cres \<times> fw" where
  "normal_packet ffd maxsize packet_length x s =
     (if eof_cnt x > 1 then (Ret (More x), send_ACK s)
      else if packet_data x ! 1 \<noteq> ucast (packets_received x)
      then count_error (- 3) ''Wrong packet type received'' send_NAK x s
      else if packets_received x = 0 then filename_packet maxsize x s
      else data_packet ffd packet_length x s)"

definition end_of_transmission :: "ym_rx \<Rightarrow> fw \<Rightarrow> (ym_rx, ym_rx) step cres \<times> fw" where
  "end_of_transmission x s =
     (let x = x\<lparr>eof_cnt := eof_cnt x + 1\<rparr> in (Ret (More x), if eof_cnt x = 1 then send_NAK s else send_ACKCRC16 s))"

definition packet_timeout :: "ym_rx \<Rightarrow> fw \<Rightarrow> (ym_rx, ym_rx) step cres \<times> fw" where
  "packet_timeout x s =
     (if eof_cnt x > 1 then (Ret (Done x), s)
      else let x = x\<lparr>rx_errors := rx_errors x + 1\<rparr>
        in if rx_errors x > MAX_ERRORS then stop_rx (- 8) ''Max errors'' x (send_CA s) else (Ret (More x), send_CRC16 s))"

text \<open>One round of the inner loop.  It is left for \<open>exit\<close> or with \<open>file_done\<close> set, which ends the outer loop too.\<close>

definition receive_round :: "int \<Rightarrow> u32 \<Rightarrow> ym_rx \<Rightarrow> fw \<Rightarrow> (ym_rx, ym_rx) step cres \<times> fw" where
  "receive_round ffd maxsize x s =
     cbind (Receive_Packet (packet_data x) NAK_TIMEOUT s) (\<lambda>(res, packet_length, data) s.
       let x = x\<lparr>packet_data := data\<rparr> in
       if res = 0 then
         (if packet_length = - 1 then stop_rx (- 1) ''Abort by sender'' x (send_ACK s)
          else if packet_length = - 2 then count_error (- 2) ''Error limit exceeded'' send_NAK x s
          else if packet_length = 0 then end_of_transmission x s
          else normal_packet ffd maxsize (word_of_int packet_length) x s)
       else if res = - 2 then stop_rx (- 7) ''User abort'' x (send_CA s)
       else packet_timeout x s)"

text \<open>\<open>stack\<close> is what the array \<open>packet_data\<close> holds at first.\<close>

definition rx_start :: "u8 list \<Rightarrow> u8 list option \<Rightarrow> ym_rx" where
  "rx_start stack buf =
     \<lparr>packet_data = stack, file_len = 0, rx_size = 0, packets_received = 0, rx_errors = 0, eof_cnt = 0, getname = buf,
      getname_pos = 0, errmsg = []\<rparr>"

definition Ymodem_Receive :: "u8 list \<Rightarrow> int \<Rightarrow> u32 \<Rightarrow> u8 list option \<Rightarrow> fw \<Rightarrow> ym_rx cres \<times> fw" where
  "Ymodem_Receive stack ffd maxsize buf s = loop_c (receive_round ffd maxsize) (rx_start stack buf) s"

section \<open>Sending a file\<close>

text \<open>\<open>strcpy\<close> into an array at an offset, with the zero at the end.\<close>

definition put_bytes :: "nat \<Rightarrow> u8 list \<Rightarrow> u8 list \<Rightarrow> u8 list option" where
  "put_bytes pos bs data =
     (if pos + length bs \<le> length data then Some (take pos data @ bs @ drop (pos + length bs) data) else None)"

definition put_crc :: "nat \<Rightarrow> u8 list \<Rightarrow> u8 list option" where
  "put_crc n data =
     (let tempCRC = crc16 (take n (drop PACKET_HEADER data))
      in put_bytes (n + PACKET_HEADER) [ucast (drop_bit 8 tempCRC), ucast (tempCRC AND 0xFF)] data)"

text \<open>\<open>fileName\<close> without its zero; the length is printed with \<open>%d\<close>.\<close>

definition Ymodem_PrepareIntialPacket :: "u8 list \<Rightarrow> u8 list \<Rightarrow> u32 \<Rightarrow> u8 list option" where
  "Ymodem_PrepareIntialPacket data fileName len = do {
     let digits = str_bytes (dec_int (sint len));
     data \<leftarrow> put_bytes 0 (replicate (PACKET_SIZE + PACKET_HEADER) 0) data;
     data \<leftarrow> put_bytes 0 [SOH, 0x00, 0xff] data;
     data \<leftarrow> put_bytes PACKET_HEADER (fileName @ [0]) data;
     data \<leftarrow> put_bytes (PACKET_HEADER + length fileName + 1) (digits @ [0]) data;
     data \<leftarrow> put_bytes (PACKET_HEADER + length fileName + 1 + length digits) [32] data;
     put_crc PACKET_SIZE data
   }"

definition Ymodem_PrepareLastPacket :: "u8 list \<Rightarrow> u8 list option" where
  "Ymodem_PrepareLastPacket data = do {
     data \<leftarrow> put_bytes 0 (replicate (PACKET_SIZE + PACKET_HEADER) 0) data;
     data \<leftarrow> put_bytes 0 [SOH, 0x00, 0xff] data;
     put_crc PACKET_SIZE data
   }"

text \<open>\<open>fread\<close> answers at most the count it was given.\<close>

definition Ymodem_PreparePacket :: "u8 list \<Rightarrow> u8 \<Rightarrow> nat \<Rightarrow> int \<Rightarrow> fw \<Rightarrow> u8 list cres \<times> fw" where
  "Ymodem_PreparePacket data pktNo sizeBlk ffd s =
     (let n = min sizeBlk PACKET_1K_SIZE;
          ((got, bs), s) = (if n > 0 then ext_bytes ''fread'' [ffd, int n] s else ((0, []), s));
          block = fill_buffer (min n (nat got)) bs
      in case Option.bind (put_bytes 0 ([STX, pktNo, NOT pktNo] @ block @ replicate (PACKET_1K_SIZE - length block) 0) data)
                (put_crc PACKET_1K_SIZE) of
           None \<Rightarrow> (Oob, s)
         | Some data \<Rightarrow> (Ret data, s))"

text \<open>The answer to a packet: 1 for \<open>ackchr\<close>, 2 for \<open>CA\<close>, 3 for \<open>NAK\<close>, 4 for another byte, 0 after \<open>n\<close> timeouts.\<close>

fun wait_response :: "u8 \<Rightarrow> nat \<Rightarrow> fw \<Rightarrow> nat \<times> fw" where
  "wait_response ackchr 0 s = (0, s)"
| "wait_response ackchr (Suc n) s =
     (case Receive_Byte NAK_TIMEOUT s of
        (None, s) \<Rightarrow> wait_response ackchr n s
      | (Some c, s) \<Rightarrow>
          if c = ackchr then (1, s) else if c = CA then (2, send_CA s) else if c = NAK then (3, s) else (4, s))"

definition Ymodem_WaitResponse :: "u8 \<Rightarrow> u8 \<Rightarrow> fw \<Rightarrow> nat \<times> fw" where
  "Ymodem_WaitResponse ackchr tmo s = wait_response ackchr (max 1 (unat tmo)) s"

text \<open>A step of \<open>Ymodem_Transmit\<close> answers \<open>None\<close> to go on and \<open>Some (code, message)\<close> to return.\<close>

type_synonym tx_step = "(int \<times> string) option cres \<times> fw"

definition tx_then :: "tx_step \<Rightarrow> (fw \<Rightarrow> tx_step) \<Rightarrow> tx_step" where
  "tx_then m f = cbind m (\<lambda>r s. case r of None \<Rightarrow> f s | Some e \<Rightarrow> (Ret (Some e), s))"

text \<open>
  \<open>do { send; err = Ymodem_WaitResponse(ACK, 10); \<dots> } while (err != 1)\<close>: a \<open>NAK\<close> leads to another round, however
  many there are; the first arguments are the returns after a timeout or a wrong byte, and after \<open>CA\<close>.
\<close>

definition until_ack :: "int \<times> string \<Rightarrow> int \<times> string \<Rightarrow> (fw \<Rightarrow> fw) \<Rightarrow> fw \<Rightarrow> tx_step" where
  "until_ack failed aborted send s =
     loop_c (\<lambda>_ s.
         let (err, s) = Ymodem_WaitResponse ACK 10 (send s) in
         if err = 1 then (Ret (Done None), s)
         else if err = 0 \<or> err = 4 then (Ret (Done (Some failed)), send_CA s)
         else if err = 2 then (Ret (Done (Some aborted)), s)
         else (Ret (More ()), s)) () s"

definition send_packet :: "int \<times> string \<Rightarrow> int \<times> string \<Rightarrow> u8 list \<Rightarrow> fw \<Rightarrow> tx_step" where
  "send_packet failed aborted packet = until_ack failed aborted (send_Bytes packet)"

text \<open>Waiting for the receiver: \<open>err\<close>, and the byte that came.\<close>

function wait_host :: "nat \<Rightarrow> fw \<Rightarrow> (nat \<times> u8 option) \<times> fw" where
  "wait_host err s =
     (case Receive_Byte NAK_TIMEOUT (Send_Byte CRC16 s) of
        (Some c, s) \<Rightarrow> ((err, Some c), s)
      | (None, s) \<Rightarrow> if err < 45 then wait_host (err + 1) s else ((err + 1, None), s))"
  by pat_completeness auto
termination
  by (relation "measure (\<lambda>(err, s). 45 - err)") auto

declare wait_host.simps [simp del]

text \<open>\<open>while (size)\<close>: the rest of the file in blocks; the array is passed on for the last packet.\<close>

function send_blocks :: "u8 list \<Rightarrow> u16 \<Rightarrow> nat \<Rightarrow> int \<Rightarrow> fw \<Rightarrow> ((int \<times> string) option \<times> u8 list) cres \<times> fw" where
  "send_blocks data blkNumber sz ffd s =
     (if sz = 0 then (Ret (None, data), s)
      else cbind (Ymodem_PreparePacket data (ucast blkNumber) sz ffd s) (\<lambda>data s.
           cbind (send_packet (- 4, ''Timeout or wrong response'') (- 5, ''Host abort'') (take (PACKET_1K_SIZE + PACKET_OVERHEAD) data) s)
             (\<lambda>r s. case r of
                 Some e \<Rightarrow> (Ret (Some e, data), s)
               | None \<Rightarrow> send_blocks data (blkNumber + 1) (if sz > PACKET_1K_SIZE then sz - PACKET_1K_SIZE else 0) ffd s)))"
  by pat_completeness auto
termination
  by (relation "measure (\<lambda>(data, blkNumber, sz, ffd, s). sz)") auto

declare send_blocks.simps [simp del]

text \<open>\<open>EOT\<close> is sent before the loop and again after each \<open>NAK\<close>.\<close>

definition send_eot :: "fw \<Rightarrow> tx_step" where
  "send_eot s =
     until_ack (- 6, ''Timeout or wrong response on EOF'') (- 7, ''Host abort on EOT'') (Send_Byte EOT) s"

definition expect_crc16 :: "int \<times> string \<Rightarrow> fw \<Rightarrow> tx_step" where
  "expect_crc16 e s =
     (let (err, s) = Ymodem_WaitResponse CRC16 10 s in if err \<noteq> 1 then (Ret (Some e), send_CA s) else (Ret None, s))"

definition send_prepared :: "int \<times> string \<Rightarrow> int \<times> string \<Rightarrow> u8 list option \<Rightarrow> fw \<Rightarrow> tx_step" where
  "send_prepared failed aborted packet s =
     (case packet of None \<Rightarrow> (Oob, s) | Some data \<Rightarrow> send_packet failed aborted (take (PACKET_SIZE + PACKET_OVERHEAD) data) s)"

definition Ymodem_Transmit :: "u8 list \<Rightarrow> u8 list \<Rightarrow> u32 \<Rightarrow> int \<Rightarrow> fw \<Rightarrow> (int \<times> string) cres \<times> fw" where
  "Ymodem_Transmit stack sendFileName sizeFile ffd s =
     (let ((err, c), s) = wait_host 0 s in
      if err \<ge> 45 \<or> c \<noteq> Some CRC16 then (Ret (- 1, ''No response from host''), send_CA s)
      else
        let packet_data = Ymodem_PrepareIntialPacket stack sendFileName sizeFile in
        cbind (tx_then (send_prepared (- 2, ''No ACK from host'') (98, ''Host abort'') packet_data s) (\<lambda>s.
               tx_then (expect_crc16 (- 3, ''No CRC after ACK'') s) (\<lambda>s.
               cbind (send_blocks (the packet_data) 1 (unat sizeFile) ffd s) (\<lambda>(r, data) s.
               tx_then (Ret r, s) (\<lambda>s.
               tx_then (send_eot s) (\<lambda>s.
               tx_then (expect_crc16 (- 8, ''No CRC after EOF'') s) (\<lambda>s.
               send_prepared (- 9, ''Timeout or wrong response on last packet'') (- 10, ''Host abort on last packet'')
                 (Ymodem_PrepareLastPacket data) s)))))))
          (\<lambda>r s. (Ret (case r of None \<Rightarrow> (0, []) | Some e \<Rightarrow> e), s)))"

section \<open>The functions of the module\<close>

text \<open>The line ends of the printed messages are left out.\<close>

text \<open>\<open>telnet_loggedin()\<close>, when Telnet is built in.\<close>

definition telnet_session :: "fw \<Rightarrow> bool \<times> fw" where
  "telnet_session s =
     (if defined_in s ''CONFIG_MICROPY_USE_TELNET'' then let (r, s) = ext ''telnet_loggedin'' [] s in (r \<noteq> 0, s)
      else (False, s))"

definition mp_print :: "u8 list \<Rightarrow> fw \<Rightarrow> fw" where
  "mp_print msg s = snd (ext ''mp_printf'' (map uint msg) s)"

text \<open>\<open>physicalPathN(fname, fullname, sizeof(fullname))\<close>: the answer and the 128 bytes of \<open>fullname\<close>.\<close>

definition physicalPathN :: "u8 list \<Rightarrow> fw \<Rightarrow> (int \<times> u8 list) \<times> fw" where
  "physicalPathN fname s = (let ((r, bs), s) = ext_bytes ''physicalPathN'' (map uint fname @ [0]) s in ((r, c_string (fill_buffer 127 bs)), s))"

definition fopen :: "u8 list \<Rightarrow> string \<Rightarrow> fw \<Rightarrow> int \<times> fw" where
  "fopen path mode s = ext ''fopen'' (map uint path @ [0] @ str_arg mode) s"

definition fclose :: "int \<Rightarrow> fw \<Rightarrow> fw" where
  "fclose fd s = snd (ext ''fclose'' [fd] s)"

text \<open>The last message: \<open>err\<close> decides whether it is announced as an error.  \<open>None\<close> returned is \<open>mp_const_none\<close>.\<close>

definition ym_report :: "int \<Rightarrow> u8 list \<Rightarrow> fw \<Rightarrow> unit cres \<times> fw" where
  "ym_report err msg s = (Ret (), mp_print (str_bytes (if err = 0 then '''' else ''Error: '') @ msg) s)"

text \<open>\<open>sprintf(err_msg, "Opening file \"%s\" for \<dots>.", fname)\<close> into \<open>err_msg[128]\<close>.\<close>

definition open_failed :: "int \<Rightarrow> u8 list \<Rightarrow> string \<Rightarrow> fw \<Rightarrow> unit cres \<times> fw" where
  "open_failed err fname what s =
     (let msg = str_bytes ''Opening file '' @ [34] @ fname @ [34] @ str_bytes what
      in if length msg < 128 then ym_report err msg s else (Oob, s))"

definition ymodem_recv :: "u8 list \<Rightarrow> u8 list \<Rightarrow> fw \<Rightarrow> unit cres \<times> fw" where
  "ymodem_recv stack fname s =
     (let (telnet, s) = telnet_session s in
      if telnet then (Ret (), mp_print (str_bytes ''Cannot execute from Telnet session'') s)
      else let ((r, fullname), s) = physicalPathN fname s in
      if r \<noteq> 0 then ym_report 1 (str_bytes ''File name cannot be resolved'') s
      else let (ffd, s) = fopen fullname ''wb'' s in
      if ffd = 0 then open_failed 1 fname '' for writing.'' s
      else
        let s = mp_print (str_bytes ''Receiving file, please start YModem transfer on host ...'') s;
            s = set_raw_input 1 (mp_print (str_bytes ''(Press '' @ [34, 97, 34] @ str_bytes '' to abort)'') s)
        in cbind (Ymodem_Receive stack ffd 1000000 (Some (replicate 128 0)) s) (\<lambda>x s.
             let s = mp_print [13] (fclose ffd (set_raw_input 0 s))
             in if sint (rx_size x) > 0
                then ym_report 0 (str_bytes (errmsg x))
                       (mp_print (str_bytes (''File received, size='' @ dec_int (sint (rx_size x)) @ '', original name: '') @ [34] @
                          c_string (the (getname x)) @ [34]) s)
                else ym_report 1 (str_bytes (errmsg x)) (snd (ext ''remove'' (map uint fullname @ [0]) s))))"

definition ymodem_send :: "u8 list \<Rightarrow> u8 list \<Rightarrow> fw \<Rightarrow> unit cres \<times> fw" where
  "ymodem_send stack fname s =
     (let (telnet, s) = telnet_session s in
      if telnet then (Ret (), mp_print (str_bytes ''Cannot execute from Telnet session'') s)
      else let ((r, fullname), s) = physicalPathN fname s in
      if r \<noteq> 0 then ym_report 0 (str_bytes ''File name cannot be resolved'') s
      else let ((res, buf), s) = ext_bytes ''stat'' (map uint fullname @ [0]) s in
      if res < 0 then ym_report 0 (str_bytes ''Get file size.'') s
      else
        let fsize = word_of_nat (le_bytes (take 4 buf)) :: u32;
            (ffd, s) = fopen fullname ''rb'' s
        in if ffd = 0 then open_failed 0 fname '' for reading.'' s
        else
          let s = mp_print (str_bytes ''Sending file, please start YModem receive on host ...'') s;
              s = set_raw_input 1 (mp_print (str_bytes ''(Press '' @ [34, 97, 34] @ str_bytes '' to abort)'') s)
          in cbind (Ymodem_Transmit stack fname fsize ffd s) (\<lambda>(res, msg) s.
               let s = mp_print [13] (fclose ffd (set_raw_input 0 s))
               in ym_report 0 (str_bytes (if res = 0 then ''Transfer complete, '' @ dec_int (sint fsize) @ '' bytes sent'' else msg)) s))"

end
