(* ===== verification/Ymodem_Proofs.thy ===== *)
theory Ymodem_Proofs
  imports Ymodem
begin

text \<open>
  The checksum of the packets, and file transfers over the serial line: what the sender puts on the line
  and what the receiver makes of it.
\<close>

section \<open>The checksum\<close>

lemma bit_8000: "bit (0x8000 :: u16) n \<longleftrightarrow> n = 15"
proof -
  have "(0x8000 :: u16) = push_bit 15 1" by (simp add: push_bit_eq_mult)
  then show ?thesis by (simp only: bit_push_1) simp
qed

lemma and_8000: "x AND 0x8000 = (if bit x 15 then 0x8000 else (0 :: u16))"
  by (rule bit_word_eqI) (simp only: bit_and_iff bit_8000 if_split [of "\<lambda>w. bit w _"] bit_0_eq, auto)

lemma crc16_bit_alt: "crc16_bit x = (if bit x 15 then push_bit 1 x XOR 0x1021 else push_bit 1 x)"
  by (simp only: crc16_bit_def and_8000 split: if_split) simp

lemma xor_common:
  fixes a b k :: "'a::len word"
  shows "(a XOR k) XOR (b XOR k) = a XOR b" and "a XOR (b XOR k) = (a XOR b) XOR k" and "(a XOR k) XOR b = (a XOR b) XOR k"
    and "(a XOR k) XOR k = a"
  by (rule bit_word_eqI, auto simp only: bit_xor_iff)+

lemma crc16_bit_xor: "crc16_bit (x XOR y) = crc16_bit x XOR crc16_bit y"
  by (cases "bit x 15"; cases "bit y 15")
    (simp_all only: crc16_bit_alt push_bit_xor bit_xor_iff simp_thms if_True if_False not_True_eq_False not_False_eq_True xor_common)

lemma crc16_bit_0 [simp]: "crc16_bit 0 = 0"
  by (simp add: crc16_bit_alt)

lemma crc16_bit_eq_0: "crc16_bit x = 0 \<Longrightarrow> x = 0"
proof (cases "bit x 15")
  case True
  assume "crc16_bit x = 0"
  then have "bit (push_bit 1 x XOR 0x1021) 0 = bit (0 :: u16) 0" using True by (simp only: crc16_bit_alt if_True)
  then show ?thesis by (simp only: bit_xor_iff bit_push_bit_iff) simp
next
  case False
  assume "crc16_bit x = 0"
  then have p: "push_bit 1 x = 0" using False by (simp only: crc16_bit_alt if_False)
  show ?thesis
  proof (rule bit_word_eqI)
    fix n assume n: "n < LENGTH(16)"
    have "\<not> bit (push_bit 1 x) (Suc n)" by (simp only: p bit_0_eq) simp
    then show "bit x n = bit 0 n" using False n by (cases "n = 15") (auto simp only: bit_push_bit_iff bit_0_eq bot_fun_def bot_bool_def possible_bit_word diff_Suc_1, simp)
  qed
qed

definition crc16_shift :: "u16 \<Rightarrow> u16" where
  "crc16_shift = crc16_bit ^^ 8"

lemma funpow_xor: "(crc16_bit ^^ n) (x XOR y) = (crc16_bit ^^ n) x XOR (crc16_bit ^^ n) y"
  by (induction n arbitrary: x y) (simp_all add: crc16_bit_xor)

lemma funpow_eq_0: "(crc16_bit ^^ n) x = 0 \<Longrightarrow> x = 0"
  by (induction n arbitrary: x) (auto dest: crc16_bit_eq_0)

lemmas crc16_shift_xor = funpow_xor [of 8, folded crc16_shift_def]
lemmas crc16_shift_eq_0 = funpow_eq_0 [of 8, folded crc16_shift_def]

lemma crc16_shift_0 [simp]: "crc16_shift 0 = 0"
  using crc16_shift_xor [of 0 0] by simp

lemma word_xor_eq_0: "x XOR y = 0 \<Longrightarrow> x = y" for x y :: "'a::len word"
  by (metis xor.assoc xor.left_neutral xor.right_neutral xor_self_eq)

lemma crc16_shift_inj: "crc16_shift x = crc16_shift y \<Longrightarrow> x = y"
  by (rule word_xor_eq_0, rule crc16_shift_eq_0) (simp add: crc16_shift_xor)

lemma crc16_byte_shift: "crc16_byte crc b = crc16_shift (crc XOR push_bit 8 (ucast b))"
  by (simp only: crc16_byte_def crc16_shift_def)

text \<open>A low byte is shifted up without feedback.\<close>

lemma bit_ucast_u8: "bit (ucast (b :: u8) :: u16) n \<longleftrightarrow> bit b n"
  using bit_imp_le_length [of b n] by (auto simp: bit_ucast_iff)

lemma funpow_low_byte: "n \<le> 8 \<Longrightarrow> (crc16_bit ^^ n) (ucast (b :: u8)) = push_bit n (ucast b)"
proof (induction n)
  case (Suc n)
  have "\<not> bit b (15 - n)" using bit_imp_le_length [of b "15 - n"] Suc.prems by auto
  then have "\<not> bit (push_bit n (ucast b :: u16)) 15"
    by (simp only: bit_push_bit_iff bit_ucast_u8) simp
  then show ?case using Suc by (simp only: crc16_bit_alt funpow.simps o_apply if_False push_bit_push_bit) simp
qed simp

lemma crc16_shift_low_byte: "crc16_shift (ucast (b :: u8)) = push_bit 8 (ucast b)"
  unfolding crc16_shift_def by (rule funpow_low_byte) simp

lemma low_byte_mask: "c AND 0xFF = take_bit 8 (c :: u16)"
  by (simp add: take_bit_eq_mask mask_eq_exp_minus_1)

lemma word16_split: "push_bit 8 (ucast (ucast (drop_bit 8 c) :: u8)) XOR ucast (ucast (c AND 0xFF) :: u8) = (c :: u16)"
proof (rule bit_word_eqI)
  fix n assume n: "n < LENGTH(16)"
  have high: "bit (ucast (drop_bit 8 c) :: u8) m \<longleftrightarrow> m < 8 \<and> bit c (8 + m)" for m
    by (simp only: bit_ucast_iff bit_drop_bit_eq o_apply) auto
  have low: "bit (ucast (c AND 0xFF) :: u8) m \<longleftrightarrow> m < 8 \<and> bit c m" for m
    by (simp only: low_byte_mask bit_ucast_iff bit_take_bit_iff) auto
  show "bit (push_bit 8 (ucast (ucast (drop_bit 8 c) :: u8) :: u16) XOR ucast (ucast (c AND 0xFF) :: u8)) n = bit c n"
    using n by (cases "n < 8") (simp_all only: bit_xor_iff bit_push_bit_iff bit_ucast_u8 high low, auto)
qed

text \<open>A message followed by its checksum has checksum 0.\<close>

lemma crc16_byte_high: "crc16_byte (push_bit 8 (ucast hi) XOR ucast lo) hi = push_bit 8 (ucast (lo :: u8))"
  by (simp only: crc16_byte_shift xor.commute [of "push_bit 8 (ucast hi)"] xor.assoc xor_self_eq xor.right_neutral crc16_shift_low_byte)

lemma crc16_append_crc: "crc16 (bs @ [ucast (drop_bit 8 (crc16 bs)), ucast (crc16 bs AND 0xFF)]) = 0"
proof -
  define hi lo :: u8 where "hi = ucast (drop_bit 8 (crc16 bs))" and "lo = ucast (crc16 bs AND 0xFF)"
  have "foldl crc16_byte 0 bs = push_bit 8 (ucast hi) XOR ucast lo"
    unfolding hi_def lo_def crc16_def by (rule word16_split [symmetric])
  then have "crc16 (bs @ [hi, lo]) = crc16_byte (push_bit 8 (ucast lo)) lo"
    by (simp only: crc16_def foldl_append foldl.simps crc16_byte_high)
  also have "\<dots> = 0" by (simp only: crc16_byte_shift xor_self_eq crc16_shift_0)
  finally show ?thesis by (simp only: hi_def lo_def)
qed

text \<open>Different checksums after a change of one byte or of two neighbouring bytes.\<close>

lemma bit_1021: "bit (0x1021 :: u16) n \<longleftrightarrow> n = 0 \<or> n = 5 \<or> n = 12"
proof -
  have "(0x1021 :: u16) = push_bit 0 1 OR push_bit 5 1 OR push_bit 12 1" by (simp add: push_bit_eq_mult)
  then show ?thesis by (simp only: bit_or_iff bit_push_1) simp
qed

lemma bit_crc16_bit:
  "bit (crc16_bit x) n \<longleftrightarrow> n < 16 \<and> ((n \<noteq> 0 \<and> bit x (n - 1)) \<noteq> (bit x 15 \<and> (n = 0 \<or> n = 5 \<or> n = 12)))"
proof -
  have p: "bit (push_bit 1 x) n \<longleftrightarrow> n < 16 \<and> n \<noteq> 0 \<and> bit x (n - 1)"
    by (simp only: bit_push_bit_iff possible_bit_word) auto
  show ?thesis unfolding crc16_bit_alt by (cases "bit x 15") (simp_all only: if_True if_False bit_xor_iff p bit_1021, auto)
qed

lemma crc16_shift_unroll:
  "crc16_shift x = crc16_bit (crc16_bit (crc16_bit (crc16_bit (crc16_bit (crc16_bit (crc16_bit (crc16_bit x)))))))"
  by (simp add: crc16_shift_def numeral_eq_Suc)

lemma crc16_burst_bit: "bit (push_bit 8 (ucast (d :: u8)) :: u16) n \<longleftrightarrow> 8 \<le> n \<and> bit d (n - 8)"
  by (simp only: bit_push_bit_iff bit_ucast_u8) (auto dest: bit_imp_le_length)

lemma low_bits_of_shift:
  fixes d :: u8
  defines "r \<equiv> crc16_shift (push_bit 8 (ucast d))"
  shows "bit r 4 \<longleftrightarrow> bit d 4" and "bit r 0 \<longleftrightarrow> bit d 0 \<noteq> bit d 4" and "bit r 5 \<longleftrightarrow> (bit d 0 \<noteq> bit d 4) \<noteq> bit d 5"
    and "bit r 1 \<longleftrightarrow> bit d 1 \<noteq> bit d 5" and "bit r 6 \<longleftrightarrow> (bit d 1 \<noteq> bit d 5) \<noteq> bit d 6" and "bit r 2 \<longleftrightarrow> bit d 2 \<noteq> bit d 6"
    and "bit r 7 \<longleftrightarrow> (bit d 2 \<noteq> bit d 6) \<noteq> bit d 7" and "bit r 3 \<longleftrightarrow> bit d 3 \<noteq> bit d 7"
  unfolding r_def crc16_shift_unroll by (simp_all add: bit_crc16_bit crc16_burst_bit del: push_bit_numeral, auto)

lemma crc16_burst:
  assumes "crc16_shift (push_bit 8 (ucast (d :: u8))) = push_bit 8 (ucast (e :: u8))"
  shows "d = 0"
proof (rule bit_word_eqI)
  have low: "\<not> bit (crc16_shift (push_bit 8 (ucast d))) n" if "n < 8" for n
    using that by (simp only: assms crc16_burst_bit) simp
  fix n assume "n < LENGTH(8)"
  then have "n \<in> {0, 1, 2, 3, 4, 5, 6, 7}" by auto
  moreover have "\<not> bit d 4" "\<not> bit d 0" "\<not> bit d 5" "\<not> bit d 1" "\<not> bit d 6" "\<not> bit d 2" "\<not> bit d 7" "\<not> bit d 3"
    using low [of 0] low [of 1] low [of 2] low [of 3] low [of 4] low [of 5] low [of 6] low [of 7] unfolding low_bits_of_shift by simp_all
  ultimately show "bit d n = bit 0 n" by auto
qed

lemma xor_move:
  fixes a b p q :: "'a::len word"
  assumes "a XOR p = b XOR q"
  shows "a XOR b = p XOR q"
proof (rule bit_word_eqI)
  fix n
  have "bit (a XOR p) n = bit (b XOR q) n" by (simp only: assms)
  then show "bit (a XOR b) n = bit (p XOR q) n" by (auto simp only: bit_xor_iff)
qed

lemma xor_cancel_right: "a XOR k = b XOR k \<Longrightarrow> a = b" for a b k :: "'a::len word"
proof -
  assume "a XOR k = b XOR k"
  then have "a XOR b = k XOR k" by (rule xor_move)
  also have "\<dots> = 0" by (rule xor_self_eq)
  finally show "a = b" by (rule word_xor_eq_0)
qed

lemma crc16_byte_inj: "crc16_byte c b = crc16_byte c' b \<Longrightarrow> c = c'"
  unfolding crc16_byte_shift by (rule xor_cancel_right, rule crc16_shift_inj)

lemma foldl_crc16_inj: "foldl crc16_byte c bs = foldl crc16_byte c' bs \<Longrightarrow> c = c'"
  by (induction bs arbitrary: c c') (auto dest: crc16_byte_inj)

lemma push_8_inj: "push_bit 8 (ucast a) = (push_bit 8 (ucast b) :: u16) \<Longrightarrow> a = b" for a b :: u8
proof (rule bit_word_eqI)
  fix n assume "push_bit 8 (ucast a) = (push_bit 8 (ucast b) :: u16)" "n < LENGTH(8)"
  then have "bit (push_bit 8 (ucast a) :: u16) (n + 8) = bit (push_bit 8 (ucast b) :: u16) (n + 8)" by simp
  then show "bit a n = bit b n" using \<open>n < LENGTH(8)\<close> by (simp only: bit_push_bit_iff bit_ucast_u8) simp
qed

lemma ucast_u8_xor: "(ucast (a XOR b) :: u16) = ucast a XOR ucast b" for a b :: u8
  by (rule bit_word_eqI) (simp only: bit_ucast_u8 bit_xor_iff)

lemma crc16_detects:
  assumes "crc16 (xs @ [a, b] @ zs) = crc16 (xs @ [a', b'] @ zs)"
  shows "a = a' \<and> b = b'"
proof -
  define c where "c = crc16 xs"
  let ?f = "\<lambda>a. crc16_shift (c XOR push_bit 8 (ucast a))"
  have "crc16_byte (?f a) b = crc16_byte (?f a') b'"
    using assms by (auto simp: crc16_def c_def crc16_byte_shift [of _ a] crc16_byte_shift [of _ a'] dest: foldl_crc16_inj)
  then have "?f a XOR push_bit 8 (ucast b) = ?f a' XOR push_bit 8 (ucast b')"
    unfolding crc16_byte_shift by (rule crc16_shift_inj)
  then have eq: "?f a XOR ?f a' = push_bit 8 (ucast b) XOR push_bit 8 (ucast b')" by (rule xor_move)
  have "crc16_shift (push_bit 8 (ucast (a XOR a'))) = crc16_shift ((c XOR push_bit 8 (ucast a)) XOR (c XOR push_bit 8 (ucast a')))"
    by (simp only: ucast_u8_xor push_bit_xor xor.commute [of c] xor_common(1))
  also have "\<dots> = push_bit 8 (ucast (b XOR b'))"
    by (simp only: crc16_shift_xor [of "c XOR push_bit 8 (ucast a)"] eq ucast_u8_xor push_bit_xor)
  finally have "a XOR a' = 0" by (rule crc16_burst)
  then have a: "a = a'" by (rule word_xor_eq_0)
  then have "push_bit 8 (ucast b) XOR push_bit 8 (ucast b') = (0 :: u16)" using eq by (simp only: xor_self_eq)
  then have "push_bit 8 (ucast b) = (push_bit 8 (ucast b') :: u16)" by (rule word_xor_eq_0)
  then show ?thesis using a push_8_inj by blast
qed

section \<open>The serial line\<close>

text \<open>
  \<open>line_in e line\<close>: the bytes that arrive are those of \<open>line\<close>, in order, whenever they are asked for; after
  them nothing comes, and every read times out.
\<close>

definition rx_count :: "ext_call list \<Rightarrow> nat" where
  "rx_count tr = length (filter (\<lambda>c. ext_name c = ''mp_hal_stdin_rx_chr'') tr)"

definition line_in :: "environment \<Rightarrow> u8 list \<Rightarrow> bool" where
  "line_in e line \<longleftrightarrow> (\<forall>tr t. fst (e (Ext ''mp_hal_stdin_rx_chr'' [t] # tr)) =
     (if rx_count tr < length line then uint (line ! rx_count tr) else - 1))"

text \<open>The bytes the badge has put on the line, and the bytes it has written to a file.\<close>

fun sent :: "ext_call list \<Rightarrow> int list" where
  "sent [] = []"
| "sent (c # tr) = sent tr @ (if ext_name c = ''uart_tx_one_char'' then ext_args c else [])"

fun written :: "int \<Rightarrow> ext_call list \<Rightarrow> int list" where
  "written ffd [] = []"
| "written ffd (c # tr) =
     written ffd tr @ (if ext_name c = ''fwrite'' \<and> ext_args c \<noteq> [] \<and> hd (ext_args c) = ffd then tl (ext_args c) else [])"

text \<open>
  The environment, what is still to arrive, and what has been sent and written since the start: \<open>line\<close> is the
  line with what had been sent and written before.
\<close>

definition on_line :: "environment \<Rightarrow> u8 list \<times> int list \<times> int list \<Rightarrow> int \<Rightarrow> fw \<Rightarrow> u8 list \<Rightarrow> u8 list \<Rightarrow> u8 list \<Rightarrow> bool" where
  "on_line e line ffd s rest out w \<longleftrightarrow>
     env s = e \<and> line_in e (fst line) \<and> drop (rx_count (trace s)) (fst line) = rest \<and>
     sent (trace s) = fst (snd line) @ map uint out \<and> written ffd (trace s) = snd (snd line) @ map uint w"

lemma on_line_start:
  "line_in (env s) line \<Longrightarrow> on_line (env s) (line, sent (trace s), written ffd (trace s)) ffd s (drop (rx_count (trace s)) line) [] []"
  by (simp add: on_line_def)

lemma on_line_other:
  assumes "on_line e line ffd s rest out w"
    and "f \<notin> {''mp_hal_stdin_rx_chr'', ''uart_tx_one_char'', ''fwrite''}"
  shows "on_line e line ffd (s\<lparr>trace := Ext f args # trace s\<rparr>) rest out w"
  using assms by (simp add: on_line_def rx_count_def)

lemma on_line_Send_Byte:
  assumes "on_line e line ffd s rest out w"
  shows "on_line e line ffd (Send_Byte c s) rest (out @ [c]) w"
  using assms by (simp add: on_line_def rx_count_def Send_Byte_def)

lemma on_line_send_Bytes:
  "on_line e line ffd s rest out w \<Longrightarrow> on_line e line ffd (send_Bytes bs s) rest (out @ bs) w"
  unfolding send_Bytes_def
proof (induction bs arbitrary: s out)
  case (Cons b bs)
  then show ?case using Cons.IH [OF on_line_Send_Byte [OF Cons.prems, of b]] by simp
qed simp

lemma Receive_Byte_comes:
  assumes "on_line e line ffd s (b # rest) out w"
  obtains s' where "Receive_Byte t s = (Some b, s')" and "on_line e line ffd s' rest out w"
proof -
  let ?k = "rx_count (trace s)"
  let ?s = "s\<lparr>trace := Ext ''mp_hal_stdin_rx_chr'' [t] # trace s\<rparr>"
  have k: "?k < length (fst line)" "fst line ! ?k = b" "drop (Suc ?k) (fst line) = rest"
    using assms unfolding on_line_def by (metis drop_eq_Nil linorder_not_le list.distinct(1)) (metis assms on_line_def nth_via_drop, metis assms on_line_def drop_Suc list.sel(3) tl_drop)
  have "Receive_Byte t s = (Some b, ?s)"
    using assms k unfolding on_line_def line_in_def Receive_Byte_def by (simp add: ext_def Let_def)
  moreover have "on_line e line ffd ?s rest out w"
    using assms k(3) by (simp add: on_line_def rx_count_def)
  ultimately show thesis by (rule that)
qed

lemma Receive_Byte_silent:
  assumes "on_line e line ffd s [] out w"
  obtains s' where "Receive_Byte t s = (None, s')" and "on_line e line ffd s' [] out w"
proof -
  let ?s = "s\<lparr>trace := Ext ''mp_hal_stdin_rx_chr'' [t] # trace s\<rparr>"
  have "length (fst line) \<le> rx_count (trace s)" using assms by (simp add: on_line_def)
  then have "Receive_Byte t s = (None, ?s)"
    using assms unfolding on_line_def line_in_def Receive_Byte_def by (simp add: ext_def Let_def)
  moreover have "on_line e line ffd ?s [] out w" using assms by (simp add: on_line_def rx_count_def)
  ultimately show thesis by (rule that)
qed

section \<open>Receiving a packet\<close>

lemma receive_bytes_comes:
  assumes "on_line e line ffd s (bs @ rest) out w" and "i + length bs \<le> length data"
  shows "\<exists>s'. receive_bytes [i..<i + length bs] data t s = (Ret (True, take i data @ bs @ drop (i + length bs) data), s') \<and>
    on_line e line ffd s' rest out w"
  using assms
proof (induction bs arbitrary: i data s)
  case Nil
  then show ?case by simp
next
  case (Cons b bs)
  obtain s1 where s1: "Receive_Byte t s = (Some b, s1)" "on_line e line ffd s1 (bs @ rest) out w"
    using Cons.prems(1) by (metis append_Cons Receive_Byte_comes)
  obtain s2 where s2: "receive_bytes [Suc i..<Suc i + length bs] (data[i := b]) t s1 =
      (Ret (True, take (Suc i) (data[i := b]) @ bs @ drop (Suc i + length bs) (data[i := b])), s2)" "on_line e line ffd s2 rest out w"
    using Cons.IH [OF s1(2), of "Suc i" "data[i := b]"] Cons.prems(2) by auto
  moreover have "[i..<i + length (b # bs)] = i # [Suc i..<Suc i + length bs]" by (simp add: upt_conv_Cons del: upt_Suc)
  moreover have "take (Suc i) (data[i := b]) = take i data @ [b]"
    using Cons.prems(2) by (simp add: take_Suc_conv_app_nth)
  ultimately show ?case using s1(1) Cons.prems(2) by (intro exI [of _ s2]) simp
qed

text \<open>A whole packet has arrived: \<open>n\<close> is 128 or 1024.\<close>

definition packet_ok :: "u8 list \<Rightarrow> bool" where
  "packet_ok p \<longleftrightarrow> p ! 1 = (p ! 2) XOR 0xff \<and> crc16 (drop PACKET_HEADER p) = 0"

definition packet_shape :: "u8 list \<Rightarrow> nat \<Rightarrow> bool" where
  "packet_shape p n \<longleftrightarrow> length p = n + PACKET_OVERHEAD \<and> (n = PACKET_SIZE \<and> p ! 0 = SOH \<or> n = PACKET_1K_SIZE \<and> p ! 0 = STX)"

lemma Receive_Packet_whole:
  assumes line: "on_line e line ffd s (p @ rest) out w" and p: "packet_shape p n" and data: "length p \<le> length data"
  shows "\<exists>s'. Receive_Packet data t s = (Ret (0, if packet_ok p then int n else - 2, p @ drop (length p) data), s') \<and>
    on_line e line ffd s' rest out w"
proof -
  obtain ch bs where bs: "p = ch # bs" using p by (cases p) (auto simp: packet_shape_def)
  have l: "length bs = n + 4" "1 + length bs = n + PACKET_OVERHEAD" using p bs by (auto simp: packet_shape_def)
  obtain s1 where s1: "Receive_Byte t s = (Some ch, s1)" "on_line e line ffd s1 (bs @ rest) out w"
    using line unfolding bs by (metis append_Cons Receive_Byte_comes)
  obtain s2 where s2: "receive_bytes [1..<1 + length bs] (data[0 := ch]) t s1 =
      (Ret (True, take 1 (data[0 := ch]) @ bs @ drop (1 + length bs) (data[0 := ch])), s2)" "on_line e line ffd s2 rest out w"
    using receive_bytes_comes [OF s1(2), of 1 "data[0 := ch]"] data bs by auto
  have d: "take 1 (data[0 := ch]) @ bs @ drop (1 + length bs) (data[0 := ch]) = p @ drop (length p) data"
    using data bs by (cases data) simp_all
  have i: "(p @ q) ! Suc 0 = p ! Suc 0" "(p @ q) ! 2 = p ! 2" for q using l bs by (auto simp: nth_append)
  have c: "take (Suc (Suc n)) (drop PACKET_HEADER (p @ q)) = drop PACKET_HEADER p" for q
    using l bs by simp
  have body: "receive_body data ch n t s1 = (Ret (0, if packet_ok p then int n else - 2, p @ drop (length p) data), s2)"
    using s2(1) unfolding receive_body_def l(2) [symmetric] d
    by (simp add: i c packet_ok_def del: take_append drop_append upt_Suc nth_append)
  have "Receive_Packet data t s = receive_body data ch n t s1"
    using p s1(1) by (auto simp: packet_shape_def Receive_Packet_def bs)
  then show ?thesis using body s2(2) by auto
qed

lemma list_update_split:
  assumes "Suc j < length xs"
  obtains ys zs where "xs = ys @ [xs ! j, xs ! Suc j] @ zs" and "\<forall>a b. xs[j := a, Suc j := b] = ys @ [a, b] @ zs"
proof
  show "xs = take j xs @ [xs ! j, xs ! Suc j] @ drop (Suc (Suc j)) xs"
    using assms by (simp add: Cons_nth_drop_Suc id_take_nth_drop [of j xs, symmetric])
  show "\<forall>a b. xs[j := a, Suc j := b] = take j xs @ [a, b] @ drop (Suc (Suc j)) xs"
    using assms by (simp add: upd_conv_take_nth_drop take_Suc_conv_app_nth nth_append)
qed

text \<open>C17: the check of a packet: a packet that was sent well-formed and has at most two neighbouring bytes of its
  body or checksum changed on the way is accepted when it is unchanged and reported as damaged otherwise; nothing
  beyond the packet is read from the line.\<close>

theorem damaged_packet_is_refused:
  assumes "line_in (env s) line" and "drop (rx_count (trace s)) line = q @ rest" and "length p \<le> length data"
    and "packet_shape p n" and "packet_ok p" and "PACKET_HEADER \<le> i" and "Suc i < length p" and "q = p[i := a, Suc i := b]"
  shows "\<exists>s'. Receive_Packet data timeout s = (Ret (0, if q = p then int n else - 2, q @ drop (length p) data), s') \<and>
    drop (rx_count (trace s')) line = rest"
proof -
  let ?L = "(line, sent (trace s), written 0 (trace s))" and ?j = "i - PACKET_HEADER"
  have line: "on_line (env s) ?L 0 s (q @ rest) [] []"
    using on_line_start [OF assms(1), of 0] unfolding assms(2) .
  have q: "packet_shape q n" "length q = length p" "length q \<le> length data"
    using assms(3,4,6,8) by (auto simp: packet_shape_def)
  have j: "Suc ?j < length (drop PACKET_HEADER p)" "i = ?j + PACKET_HEADER" using assms(6,7) by auto
  obtain ys zs where p: "drop PACKET_HEADER p = ys @ [drop PACKET_HEADER p ! ?j, drop PACKET_HEADER p ! Suc ?j] @ zs"
    and u: "\<forall>a b. (drop PACKET_HEADER p)[?j := a, Suc ?j := b] = ys @ [a, b] @ zs"
    using j(1) by (rule list_update_split)
  have d: "drop PACKET_HEADER q = ys @ [a, b] @ zs"
  proof -
    have "Suc i - PACKET_HEADER = Suc ?j" using assms(6) by simp
    then show ?thesis using assms(6) u by (simp only: assms(8) drop_update_swap le_SucI)
  qed
  have same: "q = p" if "packet_ok q"
  proof -
    have "crc16 (ys @ [a, b] @ zs) = crc16 (ys @ [drop PACKET_HEADER p ! ?j, drop PACKET_HEADER p ! Suc ?j] @ zs)"
      using that assms(5) unfolding packet_ok_def d p [symmetric] by simp
    then have "a = drop PACKET_HEADER p ! ?j" "b = drop PACKET_HEADER p ! Suc ?j" using crc16_detects by blast+
    then have "a = p ! i" "b = p ! Suc i" using assms(6,7) by simp_all
    then show ?thesis by (simp add: assms(8))
  qed
  have ok: "packet_ok q \<longleftrightarrow> q = p" using same assms(5) by auto
  show ?thesis
    using Receive_Packet_whole [OF line q(1,3), of timeout] unfolding ok q(2) by (auto simp: on_line_def)
qed

text \<open>A packet of 128 bytes, all zero but the header, with a byte damaged.\<close>

definition demo_line :: "u8 list \<Rightarrow> environment" where
  "demo_line line tr =
     (case tr of
        [] \<Rightarrow> (0, [])
      | c # tr \<Rightarrow> (if rx_count tr < length line then uint (line ! rx_count tr) else - 1, []))"

lemma damaged_packet_is_refused_witness:
  "\<exists>s'. Receive_Packet (replicate 1029 0) 1000 (power_on (demo_line ([SOH, 0, 0xff] @ (replicate 130 0)[5 := 7])) Map.empty) =
     (Ret (0, - 2, ([SOH, 0, 0xff] @ (replicate 130 0)[5 := 7]) @ drop 133 (replicate 1029 0)), s')"
proof -
  let ?p = "[SOH, 0, 0xff] @ replicate 130 0" and ?q = "[SOH, 0, 0xff] @ (replicate 130 0)[5 := 7]"
  let ?s = "power_on (demo_line ?q) Map.empty"
  have zero: "foldl crc16_byte 0 (replicate n 0) = 0" for n
    by (induction n) (simp_all add: crc16_byte_shift)
  have "\<exists>s'. Receive_Packet (replicate 1029 0) 1000 ?s =
      (Ret (0, if ?q = ?p then int 128 else - 2, ?q @ drop (length ?p) (replicate 1029 0)), s') \<and> drop (rx_count (trace s')) ?q = []"
  proof (rule damaged_packet_is_refused [where i = 8 and a = 7 and b = 0])
    show "line_in (env ?s) ?q" by (simp add: power_on_def line_in_def demo_line_def)
    show "packet_shape ?p 128" by (simp add: packet_shape_def)
    show "packet_ok ?p" using zero [of 130] by (simp add: packet_ok_def crc16_def)
    show "?q = ?p[8 := 7, Suc 8 := 0]" by (simp add: numeral_eq_Suc)
  qed (simp_all add: power_on_def rx_count_def)
  moreover have "?q \<noteq> ?p"
  proof -
    have "?q ! 8 \<noteq> ?p ! 8" by simp
    then show ?thesis by metis
  qed
  ultimately show ?thesis by auto
qed

section \<open>What the sender prepares\<close>

definition crc_bytes :: "u8 list \<Rightarrow> u8 list" where
  "crc_bytes body = [ucast (drop_bit 8 (crc16 body)), ucast (crc16 body AND 0xFF)]"

text \<open>A packet: start byte, number, body, padded to its size, and checksum.\<close>

definition frame :: "u8 \<Rightarrow> u8 \<Rightarrow> nat \<Rightarrow> u8 list \<Rightarrow> u8 list" where
  "frame start k n body = (let body = body @ replicate (n - length body) 0 in [start, k, NOT k] @ body @ crc_bytes body)"

definition header_frame :: "u8 list \<Rightarrow> nat \<Rightarrow> u8 list" where
  "header_frame name sz = frame SOH 0 PACKET_SIZE (name @ [0] @ str_bytes (dec_digits sz) @ [32])"

fun block_frames :: "u8 \<Rightarrow> u8 list \<Rightarrow> u8 list list" where
  "block_frames k content =
     (if content = [] then []
      else frame STX k PACKET_1K_SIZE (take PACKET_1K_SIZE content) # block_frames (k + 1) (drop PACKET_1K_SIZE content))"

declare block_frames.simps [simp del]

definition last_frame :: "u8 list" where
  "last_frame = frame SOH 0 PACKET_SIZE []"

lemma packet_ok_frame: "packet_ok (frame start k n body)"
proof -
  have "k = NOT k XOR 0xff"
    by (rule bit_word_eqI) (auto simp: bit_xor_iff bit_not_iff bit_numeral_rec bit_numeral_word_iff less_Suc_eq numeral_eq_Suc)
  then show ?thesis
    using crc16_append_crc [of "body @ replicate (n - length body) 0"] by (simp add: packet_ok_def frame_def Let_def crc_bytes_def)
qed

lemma length_frame: "length body \<le> n \<Longrightarrow> length (frame start k n body) = n + PACKET_OVERHEAD"
  by (simp add: frame_def Let_def crc_bytes_def)

lemma packet_shape_frame:
  "length body \<le> PACKET_SIZE \<Longrightarrow> packet_shape (frame SOH k PACKET_SIZE body) PACKET_SIZE"
  "length body \<le> PACKET_1K_SIZE \<Longrightarrow> packet_shape (frame STX k PACKET_1K_SIZE body) PACKET_1K_SIZE"
  by (simp_all add: packet_shape_def length_frame) (simp_all add: frame_def Let_def)

lemma put_bytes_Some: "pos + length bs \<le> length data \<Longrightarrow> put_bytes pos bs data = Some (take pos data @ bs @ drop (pos + length bs) data)"
  by (simp add: put_bytes_def)

lemma put_crc_frame:
  assumes "length body = n" and "length hdr = PACKET_HEADER" and "PACKET_TRAILER \<le> length rest"
  shows "put_crc n (hdr @ body @ rest) = Some (hdr @ body @ crc_bytes body @ drop PACKET_TRAILER rest)"
  using assms by (simp add: put_crc_def Let_def put_bytes_Some crc_bytes_def)

text \<open>Writing into an array that is zero from there on: bytes, and a string with its zero.\<close>

lemma put_over_zeros:
  assumes "length bs \<le> m" and "length hdr = pos"
  shows "put_bytes pos bs (hdr @ replicate m 0 @ rest) = Some (hdr @ bs @ replicate (m - length bs) 0 @ rest)"
  using assms by (simp add: put_bytes_Some)

lemma put_string_over_zeros:
  assumes "length bs < m" and "length hdr = pos"
  shows "put_bytes pos (bs @ [0]) (hdr @ replicate m 0 @ rest) = Some ((hdr @ bs) @ replicate (m - length bs) 0 @ rest)"
proof -
  have "replicate (m - length bs) 0 = (0 :: u8) # replicate (m - Suc (length bs)) 0"
    by (metis Suc_diff_Suc assms replicate_Suc)
  then show ?thesis using assms put_over_zeros [of "bs @ [0]" m hdr pos rest] by simp
qed

lemma dec_int_small: "unat len < 2 ^ 31 \<Longrightarrow> dec_int (sint (len :: u32)) = dec_digits (unat len)"
proof -
  assume "unat len < 2 ^ 31"
  then have "int (unat len) < int (2 ^ 31)" by (simp only: of_nat_less_iff)
  then have "uint len < 2 ^ 31" by simp
  then have "sint len = uint len"
    unfolding sint_uint by (intro signed_take_bit_int_eq_self) (auto intro: order_trans [OF _ uint_ge_0])
  then show ?thesis by (simp add: dec_int_def not_less)
qed

lemma PrepareIntialPacket_frame:
  assumes "length data = PACKET_1K_SIZE + PACKET_OVERHEAD" and "unat len < 2 ^ 31"
    and "length name + length (dec_digits (unat len)) + 2 \<le> PACKET_SIZE"
  shows "Ymodem_PrepareIntialPacket data name len =
    Some (header_frame name (unat len) @ drop (PACKET_SIZE + PACKET_OVERHEAD) data)"
proof -
  let ?d = "str_bytes (dec_digits (unat len))"
  let ?body = "name @ [0] @ ?d @ [32] @ replicate (PACKET_SIZE - (length name + length ?d + 2)) 0"
  have l: "length ?d = length (dec_digits (unat len))" by (simp add: str_bytes_def)
  let ?hdr = "[SOH, 0, 0xff] :: u8 list" and ?t = "drop (PACKET_SIZE + PACKET_HEADER) data" and ?z = "\<lambda>n. replicate n (0 :: u8)"
  have "put_bytes 0 (?z (PACKET_SIZE + PACKET_HEADER)) data = Some (?z (PACKET_SIZE + PACKET_HEADER) @ ?t)"
    using assms(1) by (simp add: put_bytes_Some)
  moreover have "put_bytes 0 ?hdr (?z (PACKET_SIZE + PACKET_HEADER) @ ?t) = Some (?hdr @ ?z PACKET_SIZE @ ?t)"
    using put_over_zeros [of ?hdr "PACKET_SIZE + PACKET_HEADER" "[]" 0 ?t] by simp
  moreover have "put_bytes PACKET_HEADER (name @ [0]) (?hdr @ ?z PACKET_SIZE @ ?t) =
      Some ((?hdr @ name) @ ?z (PACKET_SIZE - length name) @ ?t)"
    using put_string_over_zeros [of name PACKET_SIZE ?hdr PACKET_HEADER ?t] assms(3) by simp
  moreover have "(?hdr @ name) @ ?z (PACKET_SIZE - length name) @ ?t = (?hdr @ name @ [0]) @ ?z (PACKET_SIZE - length name - 1) @ ?t"
  proof -
    have "PACKET_SIZE - length name = Suc (PACKET_SIZE - length name - 1)" using assms(3) by simp
    then have "?z (PACKET_SIZE - length name) = 0 # ?z (PACKET_SIZE - length name - 1)" by (metis replicate_Suc)
    then show ?thesis by simp
  qed
  moreover have "put_bytes (PACKET_HEADER + length name + 1) (?d @ [0]) ((?hdr @ name @ [0]) @ ?z (PACKET_SIZE - length name - 1) @ ?t) =
      Some (((?hdr @ name @ [0]) @ ?d) @ ?z (PACKET_SIZE - length name - 1 - length ?d) @ ?t)"
    using put_string_over_zeros [of ?d "PACKET_SIZE - length name - 1" "?hdr @ name @ [0]" "PACKET_HEADER + length name + 1" ?t] assms(3) l by simp
  moreover have "put_bytes (PACKET_HEADER + length name + 1 + length ?d) [32]
        (((?hdr @ name @ [0]) @ ?d) @ ?z (PACKET_SIZE - length name - 1 - length ?d) @ ?t) = Some (?hdr @ ?body @ ?t)"
    using put_over_zeros [of "[32]" "PACKET_SIZE - length name - 1 - length ?d" "?hdr @ name @ [0] @ ?d" "PACKET_HEADER + length name + 1 + length ?d" ?t] assms(3) l by simp
  ultimately have "Ymodem_PrepareIntialPacket data name len = put_crc PACKET_SIZE (?hdr @ ?body @ ?t)"
    unfolding Ymodem_PrepareIntialPacket_def Let_def dec_int_small [OF assms(2)] by (simp only: Option.bind.bind_lunit)
  also have "\<dots> = Some ([SOH, 0, 0xff] @ ?body @ crc_bytes ?body @ drop PACKET_TRAILER (drop (PACKET_SIZE + PACKET_HEADER) data))"
    using assms l by (intro put_crc_frame) simp_all
  finally show ?thesis by (simp add: header_frame_def frame_def Let_def l)
qed

lemma PrepareLastPacket_frame:
  assumes "length data = PACKET_1K_SIZE + PACKET_OVERHEAD"
  shows "Ymodem_PrepareLastPacket data = Some (last_frame @ drop (PACKET_SIZE + PACKET_OVERHEAD) data)"
proof -
  let ?body = "replicate PACKET_SIZE 0 :: u8 list"
  let ?t = "drop (PACKET_SIZE + PACKET_HEADER) data"
  have "put_bytes 0 (replicate (PACKET_SIZE + PACKET_HEADER) 0) data = Some (replicate (PACKET_SIZE + PACKET_HEADER) 0 @ ?t)"
    using assms(1) by (simp add: put_bytes_Some)
  moreover have "put_bytes 0 [SOH, 0, 0xff] (replicate (PACKET_SIZE + PACKET_HEADER) 0 @ ?t) = Some ([SOH, 0, 0xff] @ ?body @ ?t)"
    using put_over_zeros [of "[SOH, 0, 0xff]" "PACKET_SIZE + PACKET_HEADER" "[]" 0 ?t] by simp
  ultimately have "Ymodem_PrepareLastPacket data = put_crc PACKET_SIZE ([SOH, 0, 0xff] @ ?body @ ?t)"
    unfolding Ymodem_PrepareLastPacket_def by (simp only: Option.bind.bind_lunit)
  also have "\<dots> = Some ([SOH, 0, 0xff] @ ?body @ crc_bytes ?body @ drop PACKET_TRAILER (drop (PACKET_SIZE + PACKET_HEADER) data))"
    using assms by (intro put_crc_frame) simp_all
  finally show ?thesis by (simp add: last_frame_def frame_def Let_def)
qed

end
