(* ===== verification/Ymodem_Transfer.thy ===== *)
theory Ymodem_Transfer
  imports Ymodem_Proofs
begin

text \<open>
  A whole file transfer: what \<open>Ymodem_Receive\<close> makes of the packets of a file, and what
  \<open>Ymodem_Transmit\<close> puts on the line for a receiver that answers as \<open>Ymodem_Receive\<close> does.
\<close>

section \<open>Decimal numbers\<close>

lemma str_bytes_append [simp]: "str_bytes (x @ y) = str_bytes x @ str_bytes y"
  by (simp add: str_bytes_def)

lemma str_bytes_digit: "d < 10 \<Longrightarrow> str_bytes [char_of (48 + d :: nat)] = [word_of_nat (48 + d)]"
proof -
  assume d: "d < 10"
  have "of_char (char_of (48 + d) :: char) = (word_of_nat (of_char (char_of (48 + d) :: char)) :: u8)"
    by (simp only: of_nat_of_char)
  also have "\<dots> = word_of_nat (48 + d)" using d by (simp only: of_char_of) simp
  finally show ?thesis by (simp only: str_bytes_def list.map)
qed

lemma dec_digits_bytes:
  "str_bytes (dec_digits n) = (if n < 10 then [] else str_bytes (dec_digits (n div 10))) @ [word_of_nat (48 + n mod 10)]"
  by (subst dec_digits.simps) (auto simp: str_bytes_digit simp del: of_nat_add)

lemma digit_byte:
  assumes "d < 10"
  shows "is_digit (word_of_nat (48 + d))" and "uint (word_of_nat (48 + d) :: u8) = 48 + int d"
proof -
  have u: "unat (word_of_nat (48 + d) :: u8) = 48 + d" using assms by (simp add: unsigned_of_nat take_bit_nat_eq_self del: of_nat_add)
  then show "uint (word_of_nat (48 + d) :: u8) = 48 + int d" by (metis of_nat_add of_nat_numeral of_nat_unat)
  show "is_digit (word_of_nat (48 + d))"
    using assms u by (simp add: is_digit_def word_le_nat_alt del: of_nat_add)
qed

lemma dec_digits_all_digits: "list_all is_digit (str_bytes (dec_digits n))"
proof (induction n rule: dec_digits.induct)
  case (1 n)
  then show ?case by (subst dec_digits_bytes) (simp add: digit_byte del: of_nat_add)
qed

lemma dec_value_snoc: "dec_value (ds @ [d]) = 10 * dec_value ds + (uint d - 48)"
  by (simp add: dec_value_def)

lemma dec_value_digits: "dec_value (str_bytes (dec_digits n)) = int n"
proof (induction n rule: dec_digits.induct)
  case (1 n)
  have "dec_value (if n < 10 then [] else str_bytes (dec_digits (n div 10))) = int (n div 10)"
    using 1 by (simp add: dec_value_def)
  then show ?case by (subst dec_digits_bytes) (simp add: dec_value_snoc digit_byte del: of_nat_add, presburger)
qed

lemma length_dec_digits_le: "n < 10 ^ k \<Longrightarrow> 0 < k \<Longrightarrow> length (dec_digits n) \<le> k"
proof (induction k arbitrary: n)
  case (Suc k)
  show ?case
  proof (cases "n < 10")
    case True
    then show ?thesis by (subst dec_digits.simps) simp
  next
    case False
    moreover have "n div 10 < 10 ^ k" using Suc.prems(1) by (simp add: less_mult_imp_div_less mult.commute)
    moreover have "0 < k" using False Suc.prems by (cases k) simp_all
    ultimately show ?thesis using Suc.IH by (subst dec_digits.simps) simp
  qed
qed simp

lemma dec_digits_not_Nil: "dec_digits n \<noteq> []"
  by (subst dec_digits.simps) simp

lemma digits_shape:
  fixes n :: nat
  defines "ds \<equiv> str_bytes (dec_digits n)"
  shows "ds \<noteq> []" and "\<And>b. b \<in> set ds \<Longrightarrow> is_digit b"
  using dec_digits_all_digits [of n] dec_digits_not_Nil [of n] by (auto simp: ds_def str_bytes_def list_all_iff)

lemma atoi_digits: "n < 2 ^ 31 \<Longrightarrow> atoi (str_bytes (dec_digits n)) = int n"
proof -
  let ?ds = "str_bytes (dec_digits n)"
  assume n: "n < 2 ^ 31"
  have h: "is_digit (hd ?ds)" using digits_shape(1) [of n] digits_shape(2) [of _ n] by (simp add: hd_in_set)
  then have "\<not> is_space (hd ?ds)" "hd ?ds \<noteq> 45" "hd ?ds \<noteq> 43"
    unfolding is_digit_def is_space_def by (auto simp: word_le_nat_alt)
  then have "dropWhile is_space ?ds = ?ds" using digits_shape(1) [of n] by (cases ?ds) auto
  moreover have t: "takeWhile is_digit ?ds = ?ds" using digits_shape(2) by (simp add: takeWhile_eq_all_conv)
  ultimately show ?thesis
    using n \<open>hd ?ds \<noteq> 45\<close> \<open>hd ?ds \<noteq> 43\<close> digits_shape(1) by (simp add: atoi_def Let_def t dec_value_digits)
qed

section \<open>The filename packet\<close>

lemma copy_name_string:
  assumes "0 \<notin> set name" and "k + length name < length buf"
  shows "copy_name (name @ 0 # rest) buf k = Some (take k buf @ name @ 0 # drop (k + length name + 1) buf, k + length name)"
  using assms
proof (induction name arbitrary: buf k)
  case Nil
  then show ?case by (simp add: upd_conv_take_nth_drop)
next
  case (Cons b name)
  have "copy_name ((b # name) @ 0 # rest) buf k = copy_name (name @ 0 # rest) (buf[k := b]) (k + 1)"
    using Cons.prems by simp
  also have "\<dots> = Some (take (k + 1) (buf[k := b]) @ name @ 0 # drop (k + 1 + length name + 1) (buf[k := b]), k + 1 + length name)"
    using Cons.prems by (intro Cons.IH) auto
  also have "take (k + 1) (buf[k := b]) = take k buf @ [b]"
    using Cons.prems by (simp add: take_Suc_conv_app_nth)
  finally show ?case by simp
qed

lemma copy_name_overflow:
  assumes "0 \<notin> set name" and "length buf \<le> k + length name"
  shows "copy_name (name @ rest) buf k = None"
  using assms
proof (induction name arbitrary: buf k)
  case Nil
  then show ?case by (cases rest) auto
qed auto

lemma size_field_digits:
  assumes "\<And>b. b \<in> set ds \<Longrightarrow> b \<noteq> 32" and "i + length ds \<le> FILE_SIZE_LENGTH"
  shows "size_field i (ds @ 32 # rest) = Some ds"
  using assms by (induction ds arbitrary: i) auto

lemma announced_size_header:
  assumes "0 \<notin> set name" and "0 < n" and "n < 2 ^ 31" and "length hdr = PACKET_HEADER"
  shows "announced_size (hdr @ name @ 0 # str_bytes (dec_digits n) @ 32 # rest) = Some (word_of_nat n)"
proof -
  let ?ds = "str_bytes (dec_digits n)"
  have "dropWhile (\<lambda>b. b \<noteq> 0) (name @ 0 # ?ds @ 32 # rest) = 0 # ?ds @ 32 # rest"
    using assms(1) by (induction name) auto
  moreover have "length ?ds \<le> FILE_SIZE_LENGTH"
    using assms(3) length_dec_digits_le [of n 16] by (simp add: str_bytes_def)
  moreover have d: "b \<noteq> 32" "b \<noteq> 0" if "b \<in> set ?ds" for b
    using digits_shape(2) [of b n] that by (auto simp: is_digit_def word_le_nat_alt)
  moreover from d have "c_string ?ds = ?ds"
    by (simp add: c_string_def takeWhile_eq_all_conv)
  ultimately show ?thesis
    using assms(3,4) digits_shape(1) [of n] by (simp add: announced_size_def size_field_digits atoi_digits)
qed

section \<open>Rounds of the receiver\<close>

lemma wpc_loop_More:
  assumes "body a s = (Ret (More a'), s')" and "wpc (loop_c body a' s') Q E"
  shows "wpc (loop_c body a s) Q E"
  using assms loop_c_unfold [of body a s] by (auto elim!: wpc_cases)

lemma wpc_loop_Done:
  assumes "body a s = (Ret (Done b), s')" and "Q b s'"
  shows "wpc (loop_c body a s) Q E"
  using assms loop_c_unfold [of body a s] by simp

lemma packet_data_self [simp]: "x\<lparr>packet_data := packet_data x\<rparr> = x"
  by (cases x) simp

lemma receive_round_packet:
  assumes "on_line e line ffd s (p @ rest) out w" and "packet_shape p n" and "packet_ok p" and "length p \<le> length (packet_data x)"
  obtains s' where "receive_round ffd maxsize x s =
      normal_packet ffd maxsize (word_of_nat n) (x\<lparr>packet_data := p @ drop (length p) (packet_data x)\<rparr>) s'"
    and "on_line e line ffd s' rest out w"
proof -
  have n: "0 < n" using assms(2) by (auto simp: packet_shape_def)
  obtain s' where "Receive_Packet (packet_data x) NAK_TIMEOUT s = (Ret (0, int n, p @ drop (length p) (packet_data x)), s')"
    and l: "on_line e line ffd s' rest out w"
    using Receive_Packet_whole [OF assms(1,2,4), of NAK_TIMEOUT] assms(3) by auto
  then have "receive_round ffd maxsize x s =
      normal_packet ffd maxsize (word_of_nat n) (x\<lparr>packet_data := p @ drop (length p) (packet_data x)\<rparr>) s'"
    using n by (simp add: receive_round_def)
  then show thesis using l by (rule that)
qed

lemma receive_round_eot:
  assumes "on_line e line ffd s (EOT # rest) out w"
  obtains s' where "receive_round ffd maxsize x s = end_of_transmission x s'" and "on_line e line ffd s' rest out w"
proof -
  obtain s' where "Receive_Byte NAK_TIMEOUT s = (Some EOT, s')" and l: "on_line e line ffd s' rest out w"
    using assms by (rule Receive_Byte_comes)
  then have "receive_round ffd maxsize x s = end_of_transmission x s'"
    by (simp add: receive_round_def Receive_Packet_def)
  then show thesis using l by (rule that)
qed

lemma receive_round_silent:
  assumes "on_line e line ffd s [] out w"
  obtains s' where "receive_round ffd maxsize x s = packet_timeout x s'" and "on_line e line ffd s' [] out w"
proof -
  obtain s' where "Receive_Byte NAK_TIMEOUT s = (None, s')" and l: "on_line e line ffd s' [] out w"
    using assms by (rule Receive_Byte_silent)
  then have "receive_round ffd maxsize x s = packet_timeout x s'"
    by (simp add: receive_round_def Receive_Packet_def)
  then show thesis using l by (rule that)
qed

text \<open>Every write to the file succeeds.\<close>

definition file_works :: "environment \<Rightarrow> int \<Rightarrow> bool" where
  "file_works e ffd \<longleftrightarrow> (\<forall>tr bs. fst (e (Ext ''fwrite'' (ffd # bs) # tr)) = int (length bs))"

lemma on_line_fwrite:
  assumes "on_line e line ffd s rest out w" and "file_works e ffd"
  obtains s' where "ext ''fwrite'' (ffd # map uint bs) s = (int (length bs), s')" and "on_line e line ffd s' rest out (w @ bs)"
proof -
  let ?s = "s\<lparr>trace := Ext ''fwrite'' (ffd # map uint bs) # trace s\<rparr>"
  have "ext ''fwrite'' (ffd # map uint bs) s = (int (length bs), ?s)"
    using assms by (simp add: ext_def Let_def on_line_def file_works_def)
  moreover have "on_line e line ffd ?s rest out (w @ bs)"
    using assms(1) by (simp add: on_line_def rx_count_def)
  ultimately show thesis by (rule that)
qed

text \<open>A header packet is the first packet of a session.\<close>

lemma frame_Cons: "frame start k n body = start # k # NOT k # body @ replicate (n - length body) 0 @ crc_bytes (body @ replicate (n - length body) 0)"
  by (simp add: frame_def Let_def)

lemma header_frame_bytes:
  "\<exists>hdr rest. header_frame name n @ t = hdr @ name @ 0 # str_bytes (dec_digits n) @ 32 # rest \<and> length hdr = PACKET_HEADER"
  by (rule exI [of _ "[SOH, 0, NOT 0]"]) (auto simp: header_frame_def frame_Cons)

definition header_fits :: "u8 list \<Rightarrow> nat \<Rightarrow> bool" where
  "header_fits name n \<longleftrightarrow> name \<noteq> [] \<and> 0 \<notin> set name \<and> length name + length (dec_digits n) + 2 \<le> PACKET_SIZE"

lemma header_frame_shape:
  assumes "header_fits name n"
  shows "packet_shape (header_frame name n) PACKET_SIZE" and "packet_ok (header_frame name n)"
    and "length (header_frame name n) = 133"
proof -
  have l: "length (name @ [0] @ str_bytes (dec_digits n) @ [32]) \<le> PACKET_SIZE"
    using assms by (simp add: header_fits_def str_bytes_def)
  show "packet_shape (header_frame name n) PACKET_SIZE" unfolding header_frame_def by (rule packet_shape_frame(1) [OF l])
  show "packet_ok (header_frame name n)" unfolding header_frame_def by (rule packet_ok_frame)
  show "length (header_frame name n) = 133" unfolding header_frame_def length_frame [OF l] by simp
qed

text \<open>The state of the receiver between the packets of a file of \<open>n\<close> bytes, with \<open>m\<close> bytes to come.\<close>

definition receiving :: "nat \<Rightarrow> nat \<Rightarrow> u8 list option \<Rightarrow> ym_rx \<Rightarrow> bool" where
  "receiving n m buf x \<longleftrightarrow> length (packet_data x) = 1029 \<and> n < 2 ^ 31 \<and> unat (rx_size x) = n \<and> unat (file_len x) + m = n \<and>
     rx_errors x = 0 \<and> eof_cnt x = 0 \<and> 0 < unat (packets_received x) \<and> unat (packets_received x) + m < 2 ^ 32 \<and> getname x = buf"

lemma receive_header:
  assumes line: "on_line e line ffd s (header_frame name n @ rest) out w" and fits: "header_fits name n"
    and n: "0 < n" "n \<le> unat maxsize" "n < 2 ^ 31" and stack: "length stack = 1029" and buf: "length name < length buf"
  obtains x s' where "receive_round ffd maxsize (rx_start stack (Some buf)) s = (Ret (More x), s')"
    and "on_line e line ffd s' rest (out @ [ACK, CRC16]) w" and "packets_received x = 1"
    and "receiving n n (Some (name @ 0 # drop (length name + 1) buf)) x"
proof -
  let ?x = "rx_start stack (Some buf)" and ?buf = "name @ 0 # drop (length name + 1) buf"
  let ?p = "header_frame name n @ drop (length (header_frame name n)) stack"
  note shape = header_frame_shape [OF fits]
  obtain s1 where s1: "receive_round ffd maxsize ?x s = normal_packet ffd maxsize 128 (?x\<lparr>packet_data := ?p\<rparr>) s1"
      "on_line e line ffd s1 rest out w"
    using receive_round_packet [OF line shape(1,2), of ?x maxsize] shape(3) stack by (auto simp: rx_start_def)
  obtain hdr t where p: "?p = hdr @ name @ 0 # str_bytes (dec_digits n) @ 32 # t" "length hdr = PACKET_HEADER"
    using header_frame_bytes by blast
  have name: "name \<noteq> []" "0 \<notin> set name" using fits by (auto simp: header_fits_def)
  have "copy_name (drop PACKET_HEADER ?p) buf 0 = Some (?buf, length name)"
    using copy_name_string [of name 0 buf] name(2) buf unfolding p by (simp add: p(2))
  moreover have "announced_size ?p = Some (word_of_nat n)"
    unfolding p(1) by (rule announced_size_header [OF name(2) n(1,3) p(2)])
  moreover have "?p ! PACKET_HEADER \<noteq> 0" unfolding p(1) using name p(2) by (cases name) (auto simp: nth_append)
  moreover have "?p ! 1 = 0" by (simp add: header_frame_def frame_Cons)
  moreover have u: "unat (word_of_nat n :: u32) = n" using n(3) by (simp add: unsigned_of_nat take_bit_nat_eq_self)
  then have "\<not> (word_of_nat n :: u32) < 1" "\<not> (word_of_nat n :: u32) > maxsize"
    using n by (simp_all add: word_less_nat_alt)
  ultimately obtain x where x: "normal_packet ffd maxsize 128 (?x\<lparr>packet_data := ?p\<rparr>) s1 = (Ret (More x), send_ACKCRC16 s1)"
    "x = ?x\<lparr>packet_data := ?p, rx_size := word_of_nat n, packets_received := 1, getname := Some ?buf, getname_pos := length name\<rparr>"
    by (simp add: normal_packet_def filename_packet_def rx_start_def take_name_def next_packet_def)
  have "on_line e line ffd (send_ACKCRC16 s1) rest (out @ [ACK, CRC16]) w"
    using on_line_Send_Byte [OF on_line_Send_Byte [OF s1(2)]] unfolding send_ACKCRC16_def by simp
  moreover have "receiving n n (Some ?buf) x"
    using n(3) u stack shape(3) by (simp add: x(2) receiving_def rx_start_def)
  ultimately show thesis using s1(1) x by (intro that [of x]) simp_all
qed

lemma block_frame_shape:
  assumes "length body \<le> PACKET_1K_SIZE"
  shows "packet_shape (frame STX k PACKET_1K_SIZE body) PACKET_1K_SIZE" and "packet_ok (frame STX k PACKET_1K_SIZE body)"
    and "length (frame STX k PACKET_1K_SIZE body) = 1029"
  using packet_shape_frame(2) [OF assms] packet_ok_frame length_frame [OF assms] by simp_all

lemma write_length_fits:
  assumes "unat len + m = unat sz" and "0 < m" and "unat sz < 2 ^ 31"
  shows "write_length len sz 1024 = (word_of_nat (min m 1024), word_of_nat (unat len + min m 1024))"
proof -
  have sum: "unat (len + 1024) = unat len + 1024" using assms by (simp add: unat_word_ariths)
  show ?thesis
  proof (cases "m < 1024")
    case True
    then have "len + 1024 > sz" using assms(1) sum by (simp add: word_less_nat_alt)
    moreover have "1024 - (len + 1024 - sz) = word_of_nat m"
    proof -
      have "sz = word_of_nat (unat len + m)" unfolding assms(1) by simp
      then have "sz = len + word_of_nat m" by simp
      then show ?thesis by simp
    qed
    ultimately show ?thesis using True assms(1) by (simp add: write_length_def Let_def)
  next
    case False
    then have "\<not> len + 1024 > sz" using assms(1) sum by (simp add: word_less_nat_alt)
    then show ?thesis using False by (simp add: write_length_def Let_def)
  qed
qed

lemma receive_block:
  assumes line: "on_line e line ffd s (frame STX (ucast (packets_received x)) PACKET_1K_SIZE (take 1024 content) @ rest) out w"
    and x: "receiving n (length content) buf x" and content: "content \<noteq> []" and works: "file_works e ffd"
  obtains x' s' where "receive_round ffd maxsize x s = (Ret (More x'), s')"
    and "on_line e line ffd s' rest (out @ [ACK]) (w @ take 1024 content)"
    and "receiving n (length (drop 1024 content)) buf x'" and "packets_received x' = packets_received x + 1"
proof -
  let ?body = "take 1024 content" and ?m = "length content"
  let ?p = "frame STX (ucast (packets_received x)) PACKET_1K_SIZE ?body"
  have l: "length ?body \<le> PACKET_1K_SIZE" by simp
  note shape = block_frame_shape [OF l, of "ucast (packets_received x)"]
  have m: "0 < ?m" using content by simp
  obtain s1 where s1: "receive_round ffd maxsize x s = normal_packet ffd maxsize 1024 (x\<lparr>packet_data := ?p\<rparr>) s1"
      "on_line e line ffd s1 rest out w"
    using receive_round_packet [OF line shape(1,2), of x maxsize] shape(3) x by (auto simp: receiving_def)
  have xs: "unat (file_len x) + ?m = unat (rx_size x)" "unat (rx_size x) < 2 ^ 31" using x by (auto simp: receiving_def)
  have less: "file_len x < rx_size x" unfolding word_less_nat_alt using xs(1) m by linarith
  obtain s2 where s2: "ext ''fwrite'' (ffd # map uint ?body) s1 = (int (length ?body), s2)" "on_line e line ffd s2 rest out (w @ ?body)"
    using s1(2) works by (rule on_line_fwrite)
  have d: "take (min ?m 1024) (drop PACKET_HEADER ?p) = ?body" by (simp add: frame_Cons min_def)
  have u: "unat (word_of_nat (min ?m 1024) :: u32) = min ?m 1024"
    by (simp add: unsigned_of_nat take_bit_nat_eq_self)
  define x' where "x' = next_packet (x\<lparr>packet_data := ?p, file_len := word_of_nat (unat (file_len x) + min ?m 1024), rx_errors := 0\<rparr>)"
  have "data_packet ffd 1024 (x\<lparr>packet_data := ?p\<rparr>) s1 = (Ret (More x'), send_ACK s2)"
    using s2(1) less u by (simp add: data_packet_def write_length_fits [OF xs(1) m xs(2)] d min.commute x'_def Let_def)
  moreover have "packets_received x \<noteq> 0" "eof_cnt x = 0" using x by (auto simp: receiving_def)
  moreover have "?p ! 1 = ucast (packets_received x)" by (simp add: frame_Cons)
  ultimately have "normal_packet ffd maxsize 1024 (x\<lparr>packet_data := ?p\<rparr>) s1 = (Ret (More x'), send_ACK s2)"
    by (simp add: normal_packet_def)
  moreover have "receiving n (length (drop 1024 content)) buf x'"
  proof -
    have "unat (packets_received x + 1) = unat (packets_received x) + 1"
    proof -
      have "unat (packets_received x) + 1 < 2 ^ 32" using x m unfolding receiving_def by linarith
      then show ?thesis by (simp add: unat_word_ariths)
    qed
    moreover have "unat (word_of_nat (unat (file_len x) + min ?m 1024) :: u32) = unat (file_len x) + min ?m 1024"
      using xs by (simp add: unsigned_of_nat take_bit_nat_eq_self del: of_nat_add)
    moreover have "unat (packets_received x) + 1 + (?m - 1024) < 2 ^ 32" using x m unfolding receiving_def by linarith
    ultimately show ?thesis using x m xs(1) shape(3) by (auto simp: receiving_def x'_def next_packet_def simp del: of_nat_add)
  qed
  moreover have "on_line e line ffd (send_ACK s2) rest (out @ [ACK]) (w @ ?body)"
    unfolding send_ACK_def by (rule on_line_Send_Byte [OF s2(2)])
  moreover have "packets_received x' = packets_received x + 1" by (simp add: x'_def next_packet_def)
  ultimately show thesis using s1(1) by (intro that [of x']) simp_all
qed

lemma ucast_add_1: "(ucast (x + 1) :: u8) = ucast x + 1" for x :: u32
proof -
  have "unat (ucast (x + 1) :: u8) = (unat x + 1) mod 2 ^ 32 mod 256"
    by (simp add: unsigned_ucast_eq take_bit_eq_mod unat_word_ariths)
  also have "\<dots> = (unat x mod 256 + 1) mod 256" by (simp add: mod_mod_cancel mod_simps)
  also have "\<dots> = unat (ucast x + 1 :: u8)"
    by (simp add: unsigned_ucast_eq take_bit_eq_mod unat_word_ariths)
  finally show ?thesis by (simp only: word_unat_eq_iff)
qed

lemma ucast16_add_1: "(ucast (x + 1) :: u8) = ucast x + 1" for x :: u16
proof -
  have "unat (ucast (x + 1) :: u8) = (unat x + 1) mod 2 ^ 16 mod 256"
    by (simp add: unsigned_ucast_eq take_bit_eq_mod unat_word_ariths)
  also have "\<dots> = (unat x mod 256 + 1) mod 256" by (simp add: mod_mod_cancel mod_simps)
  also have "\<dots> = unat (ucast x + 1 :: u8)"
    by (simp add: unsigned_ucast_eq take_bit_eq_mod unat_word_ariths)
  finally show ?thesis by (simp only: word_unat_eq_iff)
qed

lemma receive_blocks:
  fixes x z :: ym_rx
  assumes "on_line e line ffd s (concat (block_frames (ucast (packets_received x)) content) @ rest) out w"
    and "receiving n (length content) buf x" and "file_works e ffd"
    and "\<And>x s. receiving n 0 buf x \<Longrightarrow>
      on_line e line ffd s rest (out @ replicate (length (block_frames (ucast (packets_received z)) content)) ACK) (w @ content) \<Longrightarrow>
      wpc (loop_c (receive_round ffd maxsize) x s) Q E"
    and "(ucast (packets_received z) :: u8) = ucast (packets_received x)"
  shows "wpc (loop_c (receive_round ffd maxsize) x s) Q E"
  using assms
proof (induction "length content" arbitrary: content s x z out w rule: less_induct)
  case less
  show ?case
  proof (cases "content = []")
    case True
    then show ?thesis using less.prems(1,2,4) by (simp add: block_frames.simps)
  next
    case False
    let ?k = "ucast (packets_received x) :: u8"
    have b: "block_frames ?k content = frame STX ?k PACKET_1K_SIZE (take 1024 content) # block_frames (?k + 1) (drop 1024 content)"
      using False by (simp add: block_frames.simps [of ?k content])
    obtain x' s' where s': "receive_round ffd maxsize x s = (Ret (More x'), s')"
        "on_line e line ffd s' (concat (block_frames (?k + 1) (drop 1024 content)) @ rest) (out @ [ACK]) (w @ take 1024 content)"
        "receiving n (length (drop 1024 content)) buf x'" "packets_received x' = packets_received x + 1"
    proof (rule receive_block [OF _ less.prems(2) False less.prems(3)])
      show "on_line e line ffd s (frame STX ?k PACKET_1K_SIZE (take 1024 content) @ concat (block_frames (?k + 1) (drop 1024 content)) @ rest) out w"
        using less.prems(1) unfolding b by simp
    qed
    have k: "?k + 1 = ucast (packets_received x')"
      unfolding s'(4) by (rule ucast_add_1 [symmetric])
    have l: "length (drop 1024 content) < length content" using False by simp
    have line': "on_line e line ffd s' (concat (block_frames (ucast (packets_received x')) (drop 1024 content)) @ rest) (out @ [ACK]) (w @ take 1024 content)"
      using s'(2) unfolding k .
    have "wpc (loop_c (receive_round ffd maxsize) y t) Q E"
      if "receiving n 0 buf y" and "on_line e line ffd t rest
          ((out @ [ACK]) @ replicate (length (block_frames (ucast (packets_received x')) (drop 1024 content))) ACK)
          ((w @ take 1024 content) @ drop 1024 content)" for y t
      using that less.prems(5) by (intro less.prems(4)) (simp_all add: b flip: k)
    then show ?thesis
      by (intro wpc_loop_More [where body = "receive_round ffd maxsize", OF s'(1)]
          less.hyps [where z = x', OF l line' s'(3) less.prems(3) _ refl])
  qed
qed

section \<open>A file is received\<close>

text \<open>The bytes that have been asked for from a file, and a file of \<open>content\<close> that is read from its start.\<close>

fun requested :: "int \<Rightarrow> ext_call list \<Rightarrow> nat" where
  "requested ffd [] = 0"
| "requested ffd (c # tr) =
     requested ffd tr + (if ext_name c = ''fread'' \<and> hd (ext_args c) = ffd then nat (last (ext_args c)) else 0)"

definition file_reads :: "environment \<Rightarrow> int \<Rightarrow> u8 list \<Rightarrow> bool" where
  "file_reads e ffd content \<longleftrightarrow> (\<forall>tr n. e (Ext ''fread'' [ffd, int n] # tr) =
     (let bs = take n (drop (requested ffd tr) content) in (int (length bs), bs)))"

text \<open>What the sender puts on the line for a file, and what the receiver answers.\<close>

definition session_bytes :: "u8 list \<Rightarrow> u8 list \<Rightarrow> u8 list" where
  "session_bytes name content =
     header_frame name (length content) @ concat (block_frames 1 content) @ [EOT, EOT] @ last_frame"

definition answer_bytes :: "u8 list \<Rightarrow> u8 list" where
  "answer_bytes content = [ACK, CRC16] @ replicate (length (block_frames 1 content)) ACK @ [NAK, ACK, CRC16, ACK]"

lemma last_frame_shape: "packet_shape last_frame PACKET_SIZE" "packet_ok last_frame" "length last_frame = 133"
  unfolding last_frame_def using packet_shape_frame(1) packet_ok_frame length_frame [of "[]" PACKET_SIZE] by simp_all

lemma receive_end:
  assumes line: "on_line e line ffd s ([EOT, EOT] @ last_frame) out w" and x: "receiving n m buf x"
  shows "wpc (loop_c (receive_round ffd maxsize) x s)
    (\<lambda>x s'. unat (rx_size x) = n \<and> getname x = buf \<and> on_line e line ffd s' [] (out @ [NAK, ACK, CRC16, ACK]) w) F"
proof -
  let ?x1 = "x\<lparr>eof_cnt := 1\<rparr>" and ?x2 = "x\<lparr>eof_cnt := 2\<rparr>"
  let ?p = "last_frame @ drop (length last_frame) (packet_data x)"
  have e: "eof_cnt x = 0" "length (packet_data x) = 1029" using x by (auto simp: receiving_def)
  obtain s1 where s1: "receive_round ffd maxsize x s = (Ret (More ?x1), send_NAK s1)" "on_line e line ffd s1 (EOT # last_frame) out w"
    using receive_round_eot [of e line ffd s "EOT # last_frame" out w maxsize x] line e by (auto simp: end_of_transmission_def)
  have l1: "on_line e line ffd (send_NAK s1) (EOT # last_frame) (out @ [NAK]) w"
    unfolding send_NAK_def by (rule on_line_Send_Byte [OF s1(2)])
  obtain s2 where s2: "receive_round ffd maxsize ?x1 (send_NAK s1) = (Ret (More ?x2), send_ACKCRC16 s2)"
      "on_line e line ffd s2 last_frame (out @ [NAK]) w"
    using receive_round_eot [OF l1, of maxsize ?x1] by (auto simp: end_of_transmission_def)
  have l2: "on_line e line ffd (send_ACKCRC16 s2) (last_frame @ []) (out @ [NAK, ACK, CRC16]) w"
    using on_line_Send_Byte [OF on_line_Send_Byte [OF s2(2)]] unfolding send_ACKCRC16_def by simp
  obtain s3 where s3: "receive_round ffd maxsize ?x2 (send_ACKCRC16 s2) = (Ret (More (?x2\<lparr>packet_data := ?p\<rparr>)), send_ACK s3)"
      "on_line e line ffd s3 [] (out @ [NAK, ACK, CRC16]) w"
    using receive_round_packet [OF l2 last_frame_shape(1,2), of ?x2 maxsize] last_frame_shape(3) e by (auto simp: normal_packet_def)
  have l3: "on_line e line ffd (send_ACK s3) [] (out @ [NAK, ACK, CRC16, ACK]) w"
    using on_line_Send_Byte [OF s3(2)] unfolding send_ACK_def by simp
  obtain s4 where s4: "receive_round ffd maxsize (?x2\<lparr>packet_data := ?p\<rparr>) (send_ACK s3) = (Ret (Done (?x2\<lparr>packet_data := ?p\<rparr>)), s4)"
      "on_line e line ffd s4 [] (out @ [NAK, ACK, CRC16, ACK]) w"
    using receive_round_silent [OF l3, of maxsize "?x2\<lparr>packet_data := ?p\<rparr>"] by (auto simp: packet_timeout_def)
  have "unat (rx_size (?x2\<lparr>packet_data := ?p\<rparr>)) = n \<and> getname (?x2\<lparr>packet_data := ?p\<rparr>) = buf \<and>
      on_line e line ffd s4 [] (out @ [NAK, ACK, CRC16, ACK]) w"
    using x s4(2) by (simp add: receiving_def)
  then show ?thesis
    by (intro wpc_loop_More [where body = "receive_round ffd maxsize", OF s1(1)] wpc_loop_More [where body = "receive_round ffd maxsize", OF s2(1)]
      wpc_loop_More [where body = "receive_round ffd maxsize", OF s3(1)] wpc_loop_Done [where body = "receive_round ffd maxsize", OF s4(1)])
qed

lemma c_string_zero: "0 \<notin> set name \<Longrightarrow> c_string (name @ 0 # rest) = name"
  by (induction name) (auto simp: c_string_def)

lemma sint_small: "unat (x :: u32) < 2 ^ 31 \<Longrightarrow> sint x = int (unat x)"
proof -
  assume "unat x < 2 ^ 31"
  then have "int (unat x) < int (2 ^ 31)" by (simp only: of_nat_less_iff)
  then have "uint x < 2 ^ 31" by simp
  then have "sint x = uint x"
    unfolding sint_uint by (intro signed_take_bit_int_eq_self) (auto intro: order_trans [OF _ uint_ge_0])
  then show ?thesis by simp
qed

text \<open>C7: a file that is sent as the sender of this module sends it is received: when the packets of a file arrive
  one after the other, \<open>Ymodem_Receive\<close> returns the size of the file, its name is that of the header packet, and the
  bytes written are the contents, without the padding of the last block; and the receiver answers every packet.\<close>

theorem ymodem_receives_file:
  assumes "line_in (env s) line" and "drop (rx_count (trace s)) line = session_bytes name content"
    and "file_works (env s) ffd" and "header_fits name (length content)"
    and "content \<noteq> []" and "length content \<le> unat maxsize" and "length content < 2 ^ 31"
    and "length stack = 1029" and "length name < length buf"
  shows "\<exists>x s'. Ymodem_Receive stack ffd maxsize (Some buf) s = (Ret x, s') \<and> sint (rx_size x) = int (length content) \<and>
    c_string (the (getname x)) = name \<and> written ffd (trace s') = written ffd (trace s) @ map uint content \<and>
    sent (trace s') = sent (trace s) @ map uint (answer_bytes content)"
proof -
  let ?L = "(line, sent (trace s), written ffd (trace s))" and ?e = "env s"
  let ?buf = "Some (name @ 0 # drop (length name + 1) buf)" and ?k = "length (block_frames 1 content)"
  have "on_line ?e ?L ffd s (header_frame name (length content) @ concat (block_frames 1 content) @ [EOT, EOT] @ last_frame) [] []"
    using on_line_start [OF assms(1), of ffd] unfolding assms(2) session_bytes_def .
  then obtain x s1 where s1: "receive_round ffd maxsize (rx_start stack (Some buf)) s = (Ret (More x), s1)"
      "on_line ?e ?L ffd s1 (concat (block_frames 1 content) @ [EOT, EOT] @ last_frame) ([] @ [ACK, CRC16]) []"
      "packets_received x = 1" "receiving (length content) (length content) ?buf x"
    by (rule receive_header [OF _ assms(4) _ assms(6-9)]) (use assms(5) in auto)
  have "wpc (loop_c (receive_round ffd maxsize) x s1)
      (\<lambda>x s'. unat (rx_size x) = length content \<and> getname x = ?buf \<and> on_line ?e ?L ffd s' [] (answer_bytes content) content) (\<lambda>_ _. False)"
  proof (rule receive_blocks [where z = x, OF _ s1(4) assms(3) _ refl])
    show "on_line ?e ?L ffd s1 (concat (block_frames (ucast (packets_received x)) content) @ [EOT, EOT] @ last_frame) [ACK, CRC16] []"
      using s1(2,3) by simp
    fix y t
    assume "receiving (length content) 0 ?buf y"
      and "on_line ?e ?L ffd t ([EOT, EOT] @ last_frame) ([ACK, CRC16] @ replicate (length (block_frames (ucast (packets_received x)) content)) ACK) ([] @ content)"
    then show "wpc (loop_c (receive_round ffd maxsize) y t)
        (\<lambda>x s'. unat (rx_size x) = length content \<and> getname x = ?buf \<and> on_line ?e ?L ffd s' [] (answer_bytes content) content) (\<lambda>_ _. False)"
      using receive_end [of ?e ?L ffd t "[ACK, CRC16] @ replicate ?k ACK" content "length content" 0 ?buf y maxsize "\<lambda>_ _. False"] s1(3)
      by (simp add: answer_bytes_def)
  qed
  then have "wpc (Ymodem_Receive stack ffd maxsize (Some buf) s)
      (\<lambda>x s'. unat (rx_size x) = length content \<and> getname x = ?buf \<and> on_line ?e ?L ffd s' [] (answer_bytes content) content) (\<lambda>_ _. False)"
    unfolding Ymodem_Receive_def by (rule wpc_loop_More [where body = "receive_round ffd maxsize", OF s1(1)])
  then obtain y t where "Ymodem_Receive stack ffd maxsize (Some buf) s = (Ret y, t)" "unat (rx_size y) = length content"
      "getname y = ?buf" "on_line ?e ?L ffd t [] (answer_bytes content) content"
    by (auto elim!: wpc_cases)
  then show ?thesis
    using assms(4,7) sint_small [of "rx_size y"] c_string_zero [of name] by (auto simp: on_line_def header_fits_def)
qed

text \<open>A serial line and a file that takes every byte.\<close>

definition demo_serial :: "u8 list \<Rightarrow> u8 list \<Rightarrow> environment" where
  "demo_serial line content tr =
     (case tr of
        [] \<Rightarrow> (0, [])
      | Ext f args # tr \<Rightarrow>
          if f = ''mp_hal_stdin_rx_chr'' then (if rx_count tr < length line then uint (line ! rx_count tr) else - 1, [])
          else if f = ''fwrite'' then (int (length (tl args)), [])
          else if f = ''fread'' then
            (let bs = take (nat (last args)) (drop (requested (hd args) tr) content) in (int (length bs), bs))
          else (0, []))"

lemma demo_serial_works:
  "line_in (demo_serial line content) line" "file_works (demo_serial line content) ffd" "file_reads (demo_serial line content) ffd content"
  by (simp_all add: line_in_def file_works_def file_reads_def demo_serial_def Let_def)

lemma power_on_parts: "trace (power_on e c) = []" "env (power_on e c) = e" "config (power_on e c) = c"
  by (simp_all add: power_on_def)

lemma ymodem_receives_file_witness:
  "\<exists>x s'. Ymodem_Receive (replicate 1029 0) 5 1000000 (Some (replicate 128 0)) (power_on (demo_serial (session_bytes [97] [1, 2]) []) Map.empty) =
     (Ret x, s') \<and> sint (rx_size x) = 2 \<and> c_string (the (getname x)) = [97] \<and> written 5 (trace s') = [1, 2]"
proof -
  let ?s = "power_on (demo_serial (session_bytes [97] [1, 2]) []) Map.empty"
  have "length (dec_digits 2) \<le> 1" by (rule length_dec_digits_le) simp_all
  then have "header_fits [97] 2" by (simp add: header_fits_def)
  moreover have "length [1 :: u8, 2] = 2" by simp
  ultimately have "header_fits [97] (length [1 :: u8, 2])" by (simp only:)
  then have "\<exists>x s'. Ymodem_Receive (replicate 1029 0) 5 1000000 (Some (replicate 128 0)) ?s = (Ret x, s') \<and>
      sint (rx_size x) = int (length [1 :: u8, 2]) \<and> c_string (the (getname x)) = [97] \<and>
      written 5 (trace s') = written 5 (trace ?s) @ map uint [1 :: u8, 2] \<and>
      sent (trace s') = sent (trace ?s) @ map uint (answer_bytes [1, 2])"
    by (intro ymodem_receives_file [where line = "session_bytes [97] [1, 2]"]) (simp_all add: power_on_parts demo_serial_works rx_count_def)
  then show ?thesis by (auto simp: power_on_parts)
qed

text \<open>C38: the end of a transmission is not checked against the announced size: when the sender announces a file
  and stops at once, \<open>Ymodem_Receive\<close> returns the announced size, so that the file is reported as received, and
  nothing has been written.\<close>

theorem truncated_transfer_reported_complete:
  assumes "line_in (env s) line" and "drop (rx_count (trace s)) line = header_frame name n @ [EOT, EOT] @ last_frame"
    and "header_fits name n" and "0 < n" and "n \<le> unat maxsize" and "n < 2 ^ 31"
    and "length stack = 1029" and "length name < length buf"
  shows "\<exists>x s'. Ymodem_Receive stack ffd maxsize (Some buf) s = (Ret x, s') \<and> sint (rx_size x) = int n \<and>
    written ffd (trace s') = written ffd (trace s)"
proof -
  let ?L = "(line, sent (trace s), written ffd (trace s))" and ?e = "env s"
  let ?buf = "Some (name @ 0 # drop (length name + 1) buf)"
  have "on_line ?e ?L ffd s (header_frame name n @ [EOT, EOT] @ last_frame) [] []"
    using on_line_start [OF assms(1), of ffd] unfolding assms(2) .
  then obtain x s1 where s1: "receive_round ffd maxsize (rx_start stack (Some buf)) s = (Ret (More x), s1)"
      "on_line ?e ?L ffd s1 ([EOT, EOT] @ last_frame) ([] @ [ACK, CRC16]) []" "receiving n n ?buf x"
    by (rule receive_header [OF _ assms(3-8)]) auto
  have "wpc (Ymodem_Receive stack ffd maxsize (Some buf) s)
      (\<lambda>x s'. unat (rx_size x) = n \<and> getname x = ?buf \<and> on_line ?e ?L ffd s' [] (([] @ [ACK, CRC16]) @ [NAK, ACK, CRC16, ACK]) []) (\<lambda>_ _. False)"
    unfolding Ymodem_Receive_def
    by (rule wpc_loop_More [where body = "receive_round ffd maxsize", OF s1(1)]) (rule receive_end [OF s1(2,3)])
  then obtain y t where "Ymodem_Receive stack ffd maxsize (Some buf) s = (Ret y, t)" "unat (rx_size y) = n"
      "on_line ?e ?L ffd t [] (([] @ [ACK, CRC16]) @ [NAK, ACK, CRC16, ACK]) []"
    by (auto elim!: wpc_cases)
  then show ?thesis using assms(6) sint_small [of "rx_size y"] by (auto simp: on_line_def)
qed

lemma truncated_transfer_reported_complete_witness:
  "\<exists>x s'. Ymodem_Receive (replicate 1029 0) 5 1000000 (Some (replicate 128 0))
      (power_on (demo_serial (header_frame [97] 1000 @ [EOT, EOT] @ last_frame) []) Map.empty) = (Ret x, s') \<and>
    sint (rx_size x) = 1000 \<and> written 5 (trace s') = []"
proof -
  let ?s = "power_on (demo_serial (header_frame [97] 1000 @ [EOT, EOT] @ last_frame) []) Map.empty"
  have "length (dec_digits 1000) \<le> 4" by (rule length_dec_digits_le) simp_all
  then have "header_fits [97] 1000" by (simp add: header_fits_def)
  then have "\<exists>x s'. Ymodem_Receive (replicate 1029 0) 5 1000000 (Some (replicate 128 0)) ?s = (Ret x, s') \<and>
      sint (rx_size x) = int 1000 \<and> written 5 (trace s') = written 5 (trace ?s)"
    by (intro truncated_transfer_reported_complete [where line = "header_frame [97] 1000 @ [EOT, EOT] @ last_frame" and name = "[97]"])
      (simp_all add: power_on_parts demo_serial_works rx_count_def)
  then show ?thesis by (auto simp: power_on_parts)
qed

text \<open>C37: the copy of the file name has no bound, because its loop counter is never increased: a valid 1024-byte
  header packet whose first bytes are not zero, as many as the buffer of the caller has, makes \<open>Ymodem_Receive\<close>
  write past the end of the buffer.\<close>

theorem long_file_name_overflows:
  assumes "line_in (env s) line" and "drop (rx_count (trace s)) line = frame STX 0 PACKET_1K_SIZE body @ rest"
    and "length body \<le> PACKET_1K_SIZE" and "length buf \<le> length body" and "0 < length buf" and "0 \<notin> set (take (length buf) body)"
    and "length stack = 1029"
  shows "fst (Ymodem_Receive stack ffd maxsize (Some buf) s) = Oob"
proof -
  let ?L = "(line, sent (trace s), written ffd (trace s))" and ?e = "env s" and ?x = "rx_start stack (Some buf)"
  let ?p = "frame STX 0 PACKET_1K_SIZE body"
  note shape = block_frame_shape [OF assms(3), of 0]
  have "on_line ?e ?L ffd s (?p @ rest) [] []"
    using on_line_start [OF assms(1), of ffd] unfolding assms(2) .
  then obtain s1 where s1: "receive_round ffd maxsize ?x s =
      normal_packet ffd maxsize 1024 (?x\<lparr>packet_data := ?p @ drop (length ?p) stack\<rparr>) s1"
    using receive_round_packet [OF _ shape(1,2), of ?e ?L ffd s rest "[]" "[]" ?x maxsize] shape(3) assms(7) by (auto simp: rx_start_def)
  have p: "?p @ t = [STX, 0, NOT 0] @ take (length buf) body @ drop (length buf) body @
      replicate (PACKET_1K_SIZE - length body) 0 @ crc_bytes (body @ replicate (PACKET_1K_SIZE - length body) 0) @ t" for t
    by (simp add: frame_Cons)
  have "copy_name (drop PACKET_HEADER (?p @ drop (length ?p) stack)) buf 0 = None"
    unfolding p using assms(4,6) by (simp add: copy_name_overflow)
  moreover have "(?p @ t) ! PACKET_HEADER \<noteq> 0" for t
    unfolding p using assms(4,5,6) by (cases body; cases buf) (auto simp: take_Cons')
  ultimately have "receive_round ffd maxsize ?x s = (Oob, s1)"
    unfolding s1 by (simp add: normal_packet_def rx_start_def filename_packet_def take_name_def frame_Cons)
  then show ?thesis
    unfolding Ymodem_Receive_def using loop_c_unfold [of "receive_round ffd maxsize" ?x s] by simp
qed

lemma long_file_name_overflows_witness:
  "fst (Ymodem_Receive (replicate 1029 0) 5 1000000 (Some (replicate 128 0))
     (power_on (demo_serial (frame STX 0 PACKET_1K_SIZE (replicate 128 97)) []) Map.empty)) = Oob"
  by (rule long_file_name_overflows [where line = "frame STX 0 PACKET_1K_SIZE (replicate 128 97)" and body = "replicate 128 97" and rest = "[]"])
    (simp_all add: power_on_parts demo_serial_works rx_count_def)

section \<open>A file is sent\<close>

lemma wait_response_comes:
  assumes "on_line e line ffd s (b # rest) out w" and "b = ack \<or> b = NAK"
  obtains s' where "Ymodem_WaitResponse ack 10 s = (if b = ack then 1 else 3, s')" and "on_line e line ffd s' rest out w"
    and "requested fd (trace s') = requested fd (trace s)"
proof -
  obtain s' where s': "Receive_Byte NAK_TIMEOUT s = (Some b, s')" "on_line e line ffd s' rest out w"
    using assms(1) by (rule Receive_Byte_comes)
  have "max 1 (unat (10 :: u8)) = Suc 9" by simp
  then have "Ymodem_WaitResponse ack 10 s = wait_response ack (Suc 9) s" unfolding Ymodem_WaitResponse_def by (simp only:)
  also have "\<dots> = (if b = ack then 1 else 3, s')"
    unfolding wait_response.simps s'(1) prod.case option.case using assms(2) by auto
  finally have "Ymodem_WaitResponse ack 10 s = (if b = ack then 1 else 3, s')" .
  moreover have "requested fd (trace s') = requested fd (trace s)"
    using s'(1) by (auto simp: Receive_Byte_def ext_def Let_def split: if_splits)
  ultimately show thesis using s'(2) by (intro that [of s']) auto
qed

lemma requested_send_Bytes [simp]: "requested fd (trace (send_Bytes bs s)) = requested fd (trace s)"
  unfolding send_Bytes_def by (induction bs arbitrary: s) (simp_all add: Send_Byte_def)

text \<open>A packet that is acknowledged at once.\<close>

lemma until_ack_once:
  assumes "\<And>s out. on_line e line ffd s (ACK # rest) out w \<Longrightarrow> on_line e line ffd (snd' s) (ACK # rest) (out @ bs) w"
    and "\<And>s. requested fd (trace (snd' s)) = requested fd (trace s)"
    and "on_line e line ffd s (ACK # rest) out w"
  obtains s' where "until_ack failed aborted snd' s = (Ret None, s')" and "on_line e line ffd s' rest (out @ bs) w"
    and "requested fd (trace s') = requested fd (trace s)"
proof -
  obtain s' where s': "Ymodem_WaitResponse ACK 10 (snd' s) = (if ACK = ACK then 1 else 3, s')"
      "on_line e line ffd s' rest (out @ bs) w" "requested fd (trace s') = requested fd (trace (snd' s))"
    by (rule wait_response_comes [OF assms(1) [OF assms(3)], where ack = ACK and fd = fd]) auto
  have "until_ack failed aborted snd' s = (Ret None, s')"
    unfolding until_ack_def using s'(1) by (subst loop_c_unfold) simp_all
  then show thesis using s' assms(2) by (intro that [of s']) auto
qed

lemma send_packet_once:
  assumes "on_line e line ffd s (ACK # rest) out w"
  obtains s' where "send_packet failed aborted p s = (Ret None, s')" and "on_line e line ffd s' rest (out @ p) w"
    and "requested fd (trace s') = requested fd (trace s)"
  using until_ack_once [of e line ffd rest w "send_Bytes p" p fd s out failed aborted] on_line_send_Bytes assms
  unfolding send_packet_def by (metis requested_send_Bytes)

lemma expect_crc16_comes:
  assumes "on_line e line ffd s (CRC16 # rest) out w"
  obtains s' where "expect_crc16 err s = (Ret None, s')" and "on_line e line ffd s' rest out w"
    and "requested fd (trace s') = requested fd (trace s)"
proof -
  obtain s' where "Ymodem_WaitResponse CRC16 10 s = (if CRC16 = CRC16 then 1 else 3, s')" "on_line e line ffd s' rest out w"
      "requested fd (trace s') = requested fd (trace s)"
    by (rule wait_response_comes [OF assms, where ack = CRC16 and fd = fd]) auto
  then show thesis by (intro that [of s']) (simp_all add: expect_crc16_def)
qed

text \<open>The receiver refuses the first \<open>EOT\<close>.\<close>

lemma send_eot_twice:
  assumes "on_line e line ffd s (NAK # ACK # rest) out w"
  obtains s' where "send_eot s = (Ret None, s')" and "on_line e line ffd s' rest (out @ [EOT, EOT]) w"
proof -
  let ?body = "\<lambda>_ s. let (err, s) = Ymodem_WaitResponse ACK 10 (Send_Byte EOT s) in
         if err = 1 then (Ret (Done None), s)
         else if err = 0 \<or> err = 4 then (Ret (Done (Some (- 6, ''Timeout or wrong response on EOF''))), send_CA s)
         else if err = 2 then (Ret (Done (Some (- 7, ''Host abort on EOT''))), s)
         else (Ret (More ()), s)"
  obtain s1 where s1: "Ymodem_WaitResponse ACK 10 (Send_Byte EOT s) = (if NAK = ACK then 1 else 3, s1)"
      "on_line e line ffd s1 (ACK # rest) (out @ [EOT]) w" "requested ffd (trace s1) = requested ffd (trace (Send_Byte EOT s))"
    by (rule wait_response_comes [OF on_line_Send_Byte [OF assms], where ack = ACK and fd = ffd]) auto
  obtain s2 where s2: "Ymodem_WaitResponse ACK 10 (Send_Byte EOT s1) = (if ACK = ACK then 1 else 3, s2)"
      "on_line e line ffd s2 rest ((out @ [EOT]) @ [EOT]) w" "requested ffd (trace s2) = requested ffd (trace (Send_Byte EOT s1))"
    by (rule wait_response_comes [OF on_line_Send_Byte [OF s1(2)], where ack = ACK and fd = ffd]) auto
  have "loop_c ?body () s1 = (Ret None, s2)" using s2(1) by (subst loop_c_unfold) simp_all
  then have "send_eot s = (Ret None, s2)"
    unfolding send_eot_def until_ack_def using s1(1) by (subst loop_c_unfold) simp_all
  then show thesis using s2(2) by (intro that) simp_all
qed

lemma PreparePacket_reads:
  assumes "on_line e line fd' s rest out w" and "file_reads e ffd file" and "drop (requested ffd (trace s)) file = content"
    and "content \<noteq> []" and "length data = 1029"
  obtains s' where "Ymodem_PreparePacket data k (length content) ffd s = (Ret (frame STX k PACKET_1K_SIZE (take 1024 content)), s')"
    and "on_line e line fd' s' rest out w" and "drop (requested ffd (trace s')) file = drop 1024 content"
proof -
  let ?n = "min (length content) 1024" and ?body = "take 1024 content"
  let ?s = "s\<lparr>trace := Ext ''fread'' [ffd, int ?n] # trace s\<rparr>" and ?pad = "replicate (1024 - length (take 1024 content)) 0 :: u8 list"
  have e: "env s = e" using assms(1) by (simp add: on_line_def)
  have b: "take ?n content = ?body" by (simp add: min_def)
  have "e (Ext ''fread'' [ffd, int ?n] # trace s) = (int (length ?body), ?body)"
    using assms(2) [unfolded file_reads_def, rule_format, of ?n "trace s"] unfolding Let_def assms(3) b .
  then have "ext_bytes ''fread'' [ffd, int ?n] s = ((int (length ?body), ?body), ?s)"
    by (simp add: ext_bytes_def Let_def e del: of_nat_min)
  moreover have n: "?n > 0" "length ?body = ?n" using assms(4) by simp_all
  moreover have "fill_buffer (min ?n (nat (int (length ?body)))) ?body = ?body" using b by (simp add: fill_buffer_def)
  moreover have "Option.bind (put_bytes 0 ([STX, k, NOT k] @ ?body @ ?pad) data) (put_crc PACKET_1K_SIZE) = Some (frame STX k PACKET_1K_SIZE ?body)"
  proof -
    have "put_bytes 0 ([STX, k, NOT k] @ ?body @ ?pad) data = Some ([STX, k, NOT k] @ (?body @ ?pad) @ drop 1027 data)"
      using assms(5) by (simp add: put_bytes_Some)
    moreover have "put_crc PACKET_1K_SIZE ([STX, k, NOT k] @ (?body @ ?pad) @ drop 1027 data) =
        Some ([STX, k, NOT k] @ (?body @ ?pad) @ crc_bytes (?body @ ?pad) @ drop 2 (drop 1027 data))"
      using assms(5) by (intro put_crc_frame) simp_all
    ultimately show ?thesis using assms(5) by (simp add: frame_Cons)
  qed
  ultimately have "Ymodem_PreparePacket data k (length content) ffd s = (Ret (frame STX k PACKET_1K_SIZE ?body), ?s)"
    unfolding Ymodem_PreparePacket_def Let_def by simp
  moreover have "on_line e line fd' ?s rest out w" by (rule on_line_other [OF assms(1)]) simp
  moreover have "drop (requested ffd (trace ?s)) file = drop 1024 content"
    by (cases "length content \<le> 1024") (auto simp: min_def add.commute simp flip: assms(3))
  ultimately show thesis by (rule that)
qed

lemma send_blocks_sends:
  assumes "on_line e line fd' s (replicate (length (block_frames (ucast blk) content)) ACK @ rest) out w" and "file_reads e ffd file"
    and "drop (requested ffd (trace s)) file = content" and "length data = 1029"
  shows "\<exists>data' s'. send_blocks data blk (length content) ffd s = (Ret (None, data'), s') \<and> length data' = 1029 \<and>
    on_line e line fd' s' rest (out @ concat (block_frames (ucast blk) content)) w"
  using assms
proof (induction "length content" arbitrary: content data blk s out rule: less_induct)
  case less
  show ?case
  proof (cases "content = []")
    case True
    then show ?thesis using less.prems by (subst send_blocks.simps) (simp add: block_frames.simps)
  next
    case False
    let ?k = "ucast blk :: u8" and ?p = "frame STX (ucast blk) PACKET_1K_SIZE (take 1024 content)"
    have b: "block_frames ?k content = ?p # block_frames (?k + 1) (drop 1024 content)"
      using False by (simp add: block_frames.simps [of ?k content])
    have l: "length ?p = 1029" by (rule block_frame_shape(3)) simp
    obtain s1 where s1: "Ymodem_PreparePacket data ?k (length content) ffd s = (Ret ?p, s1)"
        "on_line e line fd' s1 (ACK # replicate (length (block_frames (?k + 1) (drop 1024 content))) ACK @ rest) out w"
        "drop (requested ffd (trace s1)) file = drop 1024 content"
      by (rule PreparePacket_reads [OF less.prems(1,2,3) False less.prems(4), of ?k]) (simp add: b)
    obtain s2 where s2: "send_packet (- 4, ''Timeout or wrong response'') (- 5, ''Host abort'') ?p s1 = (Ret None, s2)"
        "on_line e line fd' s2 (replicate (length (block_frames (?k + 1) (drop 1024 content))) ACK @ rest) (out @ ?p) w"
        "requested ffd (trace s2) = requested ffd (trace s1)"
      using s1(2) by (rule send_packet_once)
    have k: "?k + 1 = ucast (blk + 1)" by (rule ucast16_add_1 [symmetric])
    have n: "(if length content > 1024 then length content - 1024 else 0) = length (drop 1024 content)" by simp
    have t: "take 1029 ?p = ?p" using l by simp
    have step: "send_blocks data blk (length content) ffd s = send_blocks ?p (blk + 1) (length (drop 1024 content)) ffd s2"
      using False s1(1) s2(1) unfolding send_blocks.simps [of data blk "length content"] n by (simp add: t del: length_drop)
    have "\<exists>data' s'. send_blocks ?p (blk + 1) (length (drop 1024 content)) ffd s2 = (Ret (None, data'), s') \<and> length data' = 1029 \<and>
        on_line e line fd' s' rest ((out @ ?p) @ concat (block_frames (ucast (blk + 1)) (drop 1024 content))) w"
      using s2(2,3) s1(3) l False unfolding k by (intro less.hyps less.prems(2)) simp_all
    then show ?thesis unfolding step b k by simp
  qed
qed

text \<open>C8: a file that the receiver of this module would receive is sent: when the answers of the receiver arrive,
  \<open>Ymodem_Transmit\<close> returns 0, and what it has put on the line is the session that \<open>ymodem_receives_file\<close> is
  about, after the byte that announces the sender.\<close>

theorem ymodem_sends_file:
  assumes "line_in (env s) line" and "drop (rx_count (trace s)) line = CRC16 # answer_bytes content"
    and "file_reads (env s) ffd content" and "requested ffd (trace s) = 0"
    and "header_fits name (length content)" and "length content = unat sizeFile" and "length content < 2 ^ 31" and "length stack = 1029"
  shows "\<exists>s'. Ymodem_Transmit stack name sizeFile ffd s = (Ret (0, []), s') \<and>
    sent (trace s') = sent (trace s) @ map uint (CRC16 # session_bytes name content)"
proof -
  let ?L = "(line, sent (trace s), written ffd (trace s))" and ?e = "env s" and ?k = "length (block_frames 1 content)"
  let ?hdr = "header_frame name (length content)" and ?t = "\<lambda>p :: u8 list. take 133 p"
  have l0: "on_line ?e ?L ffd (Send_Byte CRC16 s) (CRC16 # answer_bytes content) [CRC16] []"
    using on_line_Send_Byte [OF on_line_start [OF assms(1), of ffd], of CRC16] unfolding assms(2) by simp
  obtain s1 where s1: "Receive_Byte NAK_TIMEOUT (Send_Byte CRC16 s) = (Some CRC16, s1)"
      "on_line ?e ?L ffd s1 (ACK # CRC16 # replicate ?k ACK @ [NAK, ACK, CRC16, ACK]) [CRC16] []"
    using Receive_Byte_comes [OF l0] unfolding answer_bytes_def by auto
  have r1: "requested ffd (trace s1) = 0"
    using s1(1) assms(4) by (auto simp: Receive_Byte_def Send_Byte_def ext_def Let_def split: if_splits)
  have host: "wait_host 0 s = ((0, Some CRC16), s1)" using s1(1) by (subst wait_host.simps) simp
  have prep: "Ymodem_PrepareIntialPacket stack name sizeFile = Some (?hdr @ drop 133 stack)"
    using PrepareIntialPacket_frame [of stack sizeFile name] assms(5-8) by (simp add: header_fits_def)
  have hdr: "?t (?hdr @ q) = ?hdr" "length (?hdr @ drop 133 stack) = 1029" for q
    using header_frame_shape(3) [OF assms(5)] assms(8) by simp_all
  obtain s2 where s2: "send_packet (- 2, ''No ACK from host'') (98, ''Host abort'') ?hdr s1 = (Ret None, s2)"
      "on_line ?e ?L ffd s2 (CRC16 # replicate ?k ACK @ [NAK, ACK, CRC16, ACK]) ([CRC16] @ ?hdr) []"
      "requested ffd (trace s2) = requested ffd (trace s1)"
    using s1(2) by (rule send_packet_once)
  obtain s3 where s3: "expect_crc16 (- 3, ''No CRC after ACK'') s2 = (Ret None, s3)"
      "on_line ?e ?L ffd s3 (replicate ?k ACK @ [NAK, ACK, CRC16, ACK]) ([CRC16] @ ?hdr) []"
      "requested ffd (trace s3) = requested ffd (trace s2)"
    using s2(2) by (rule expect_crc16_comes)
  have one: "(ucast (1 :: u16) :: u8) = 1" by simp
  obtain data s4 where s4: "send_blocks (?hdr @ drop 133 stack) 1 (unat sizeFile) ffd s3 = (Ret (None, data), s4)"
      "length data = 1029" "on_line ?e ?L ffd s4 [NAK, ACK, CRC16, ACK] (([CRC16] @ ?hdr) @ concat (block_frames 1 content)) []"
    using send_blocks_sends [of ?e ?L ffd s3 1 content "[NAK, ACK, CRC16, ACK]" "[CRC16] @ ?hdr" "[]" ffd content "?hdr @ drop 133 stack"] s3(2,3) s2(3) r1
      assms(3) hdr(2) unfolding one assms(6) by auto
  obtain s5 where s5: "send_eot s4 = (Ret None, s5)"
      "on_line ?e ?L ffd s5 [CRC16, ACK] ((([CRC16] @ ?hdr) @ concat (block_frames 1 content)) @ [EOT, EOT]) []"
    using s4(3) by (rule send_eot_twice)
  obtain s6 where s6: "expect_crc16 (- 8, ''No CRC after EOF'') s5 = (Ret None, s6)"
      "on_line ?e ?L ffd s6 [ACK] ((([CRC16] @ ?hdr) @ concat (block_frames 1 content)) @ [EOT, EOT]) []"
      "requested ffd (trace s6) = requested ffd (trace s5)"
    using s5(2) by (rule expect_crc16_comes)
  have last: "Ymodem_PrepareLastPacket data = Some (last_frame @ drop 133 data)" "?t (last_frame @ q) = last_frame" for q
    using PrepareLastPacket_frame s4(2) last_frame_shape(3) by simp_all
  obtain s7 where s7: "send_packet (- 9, ''Timeout or wrong response on last packet'') (- 10, ''Host abort on last packet'') last_frame s6 = (Ret None, s7)"
      "on_line ?e ?L ffd s7 [] (((([CRC16] @ ?hdr) @ concat (block_frames 1 content)) @ [EOT, EOT]) @ last_frame) []"
      "requested ffd (trace s7) = requested ffd (trace s6)"
    using s6(2) by (rule send_packet_once)
  have "Ymodem_Transmit stack name sizeFile ffd s = (Ret (0, []), s7)"
    unfolding Ymodem_Transmit_def host Let_def prod.case prep option.sel
    by (simp add: send_prepared_def hdr s2(1) s3(1) s4(1) s5(1) s6(1) s7(1) last tx_then_def del: take_append)
  then show ?thesis using s7(2) by (simp add: on_line_def session_bytes_def)
qed

lemma ymodem_sends_file_witness:
  "\<exists>s'. Ymodem_Transmit (replicate 1029 0) [97] 2 5 (power_on (demo_serial (CRC16 # answer_bytes [1, 2]) [1, 2]) Map.empty) = (Ret (0, []), s') \<and>
     sent (trace s') = map uint (CRC16 # session_bytes [97] [1, 2])"
proof -
  let ?s = "power_on (demo_serial (CRC16 # answer_bytes [1, 2]) [1, 2]) Map.empty"
  have "length (dec_digits 2) \<le> 1" by (rule length_dec_digits_le) simp_all
  then have "header_fits [97] 2" by (simp add: header_fits_def)
  moreover have "length [1 :: u8, 2] = 2" by simp
  ultimately have "header_fits [97] (length [1 :: u8, 2])" by (simp only:)
  then have "\<exists>s'. Ymodem_Transmit (replicate 1029 0) [97] 2 5 ?s = (Ret (0, []), s') \<and>
      sent (trace s') = sent (trace ?s) @ map uint (CRC16 # session_bytes [97] [1, 2])"
    by (intro ymodem_sends_file [where line = "CRC16 # answer_bytes [1, 2]"]) (simp_all add: power_on_parts demo_serial_works rx_count_def)
  then show ?thesis by (auto simp: power_on_parts)
qed

end
