(* ===== verification/Rtcmem.thy ===== *)
theory Rtcmem
  imports Ota
begin

text \<open>
  The memory that survives deep sleep: esprtcmem.c of components/micropython/esp32, and the functions
  of the \<open>esp\<close> module of MicroPython on it (modesp.c).

  The memory is the list \<open>rtcmemcontents\<close> of 512 bytes.  A MicroPython function returns \<open>Inr\<close> or raises
  \<open>IndexError\<close> with the message \<open>Inl\<close>; \<open>mp_obj_get_int\<close> has checked that an argument fits an \<open>int\<close>.
\<close>

abbreviation USER_RTC_MEM_SIZE :: nat where "USER_RTC_MEM_SIZE \<equiv> 512"

type_synonym rtcmem = "u8 list"

section \<open>esprtcmem.c\<close>

definition esp_rtcmem_read :: "u32 \<Rightarrow> rtcmem \<Rightarrow> int" where
  "esp_rtcmem_read location mem = (if unat location \<ge> USER_RTC_MEM_SIZE then - 1 else uint (mem ! unat location))"

definition esp_rtcmem_write :: "u32 \<Rightarrow> u8 \<Rightarrow> rtcmem \<Rightarrow> int \<times> rtcmem" where
  "esp_rtcmem_write location value mem =
     (if unat location \<ge> USER_RTC_MEM_SIZE then (- 1, mem) else (0, mem[unat location := value]))"



text \<open>The string is given without its zero; the sum is one of 32-bit numbers.  \<open>None\<close>: the copy leaves the memory.\<close>

definition esp_rtcmem_write_string :: "u32 \<Rightarrow> u8 list \<Rightarrow> rtcmem \<Rightarrow> (int \<times> rtcmem) option" where
  "esp_rtcmem_write_string location buffer mem =
     (if unat location \<ge> USER_RTC_MEM_SIZE \<or> unat (location + word_of_nat (length buffer)) \<ge> USER_RTC_MEM_SIZE then Some (- 1, mem)
      else if unat location + length buffer + 1 > length mem then None
      else Some (0, take (unat location) mem @ buffer @ [0] @ drop (unat location + length buffer + 1) mem))"

section \<open>The functions of the module\<close>

definition index_error :: "string + 'a" where
  "index_error = Inl ''Offset out of range''"

definition esp_rtcmem_write_py :: "int \<Rightarrow> int \<Rightarrow> rtcmem \<Rightarrow> (string + unit) \<times> rtcmem" where
  "esp_rtcmem_write_py pos val mem =
     (if val < 0 \<or> val > 255 then (Inl ''Value out of range'', mem)
      else let (res, mem) = esp_rtcmem_write (word_of_int pos) (word_of_int val) mem
           in (if res < 0 then index_error else Inr (), mem))"

definition esp_rtcmem_read_py :: "int \<Rightarrow> rtcmem \<Rightarrow> string + int" where
  "esp_rtcmem_read_py pos mem = (let val = esp_rtcmem_read (word_of_int pos) mem in if val < 0 then index_error else Inr val)"


definition esp_rtcmem_write_string_py :: "u8 list \<Rightarrow> int option \<Rightarrow> rtcmem \<Rightarrow> ((string + unit) \<times> rtcmem) option" where
  "esp_rtcmem_write_string_py str pos mem =
     map_option (\<lambda>(res, mem). (if res < 0 then index_error else Inr (), mem))
       (esp_rtcmem_write_string (word_of_int (case pos of None \<Rightarrow> 2 | Some pos \<Rightarrow> pos)) str mem)"

section \<open>What the functions do\<close>

definition int32 :: "int \<Rightarrow> bool" where
  "int32 i \<longleftrightarrow> - (2 ^ 31) \<le> i \<and> i < 2 ^ 31"

lemma unat_of_int32:
  assumes "int32 i"
  shows "unat (word_of_int i :: u32) = (if 0 \<le> i then nat i else nat (i + 2 ^ 32))"
proof -
  have "uint (word_of_int i :: u32) = i mod 2 ^ 32" by (simp add: uint_word_of_int)
  also have "\<dots> = (if 0 \<le> i then i else i + 2 ^ 32)"
  proof (cases "0 \<le> i")
    case False
    have "i mod 2 ^ 32 = (i + 2 ^ 32) mod 2 ^ 32" by simp
    also have "\<dots> = i + 2 ^ 32" using assms False by (intro mod_pos_pos_trivial) (auto simp: int32_def)
    finally show ?thesis using False by simp
  qed (use assms in \<open>simp add: int32_def\<close>)
  finally show ?thesis by (simp flip: nat_uint_eq split: if_splits)
qed

lemma offset_in_range: "int32 i \<Longrightarrow> unat (word_of_int i :: u32) < USER_RTC_MEM_SIZE \<longleftrightarrow> 0 \<le> i \<and> i < 512"
  by (auto simp: unat_of_int32 int32_def)

lemma unat_sum: "unat (l :: u32) < 512 \<Longrightarrow> n < 2 ^ 31 \<Longrightarrow> unat (l + word_of_nat n) = unat l + n"
  by (simp add: unat_word_ariths unsigned_of_nat take_bit_nat_eq_self)

definition put_string :: "nat \<Rightarrow> u8 list \<Rightarrow> rtcmem \<Rightarrow> rtcmem" where
  "put_string l str mem = take l mem @ str @ [0] @ drop (l + length str + 1) mem"

lemma write_string_cases:
  assumes "length mem = USER_RTC_MEM_SIZE" and "length str < 2 ^ 31"
  shows "esp_rtcmem_write_string l str mem =
    Some (if unat l + length str < USER_RTC_MEM_SIZE then (0, put_string (unat l) str mem) else (- 1, mem))"
  using assms unat_sum [of l "length str"] by (cases "unat l < 512") (auto simp: esp_rtcmem_write_string_def put_string_def)

lemma length_put_string: "length mem = USER_RTC_MEM_SIZE \<Longrightarrow> l + length str < USER_RTC_MEM_SIZE \<Longrightarrow> length (put_string l str mem) = USER_RTC_MEM_SIZE"
  by (simp add: put_string_def)





lemma write_py_cases:
  assumes "int32 pos"
  shows "esp_rtcmem_write_py pos val mem =
    (if val < 0 \<or> val > 255 then (Inl ''Value out of range'', mem)
     else if 0 \<le> pos \<and> pos < 512 then (Inr (), mem[nat pos := word_of_int val]) else (Inl ''Offset out of range'', mem))"
  using offset_in_range [OF assms] unat_of_int32 [OF assms]
  by (cases "0 \<le> pos \<and> pos < 512") (simp_all add: esp_rtcmem_write_py_def esp_rtcmem_write_def index_error_def not_le not_less, auto)

lemma read_py_cases:
  assumes "int32 pos"
  shows "esp_rtcmem_read_py pos mem = (if 0 \<le> pos \<and> pos < 512 then Inr (uint (mem ! nat pos)) else Inl ''Offset out of range'')"
  using offset_in_range [OF assms] unat_of_int32 [OF assms]
  by (cases "0 \<le> pos \<and> pos < 512") (simp_all add: esp_rtcmem_read_py_def esp_rtcmem_read_def index_error_def not_le not_less)

text \<open>C40: the functions on the memory that survives deep sleep are safe for every argument: a byte is read or
  written exactly when the offset is from 0 to 511 (a negative offset is refused too) and the value is a byte, a read
  gives what was last written, and the memory keeps its 512 bytes whatever is called.\<close>

theorem rtcmem_bytes_are_checked:
  assumes "length mem = USER_RTC_MEM_SIZE" and "int32 pos" and "int32 val" and "length str < 2 ^ 31" and "int32 i"
  shows "(fst (esp_rtcmem_write_py pos val mem) = Inr () \<longleftrightarrow> 0 \<le> pos \<and> pos < 512 \<and> 0 \<le> val \<and> val \<le> 255) \<and>
    (esp_rtcmem_read_py i (snd (esp_rtcmem_write_py pos val mem)) =
      (if \<not> (0 \<le> i \<and> i < 512) then Inl ''Offset out of range''
       else if i = pos \<and> 0 \<le> val \<and> val \<le> 255 then Inr val else Inr (uint (mem ! nat i)))) \<and>
    length (snd (esp_rtcmem_write_py pos val mem)) = USER_RTC_MEM_SIZE \<and>
    (\<exists>r mem'. esp_rtcmem_write_string_py str (Some pos) mem = Some (r, mem') \<and> length mem' = USER_RTC_MEM_SIZE)"
proof -
  have v: "uint (word_of_int val :: u8) = val" if "0 \<le> val" "val \<le> 255"
    using that by (simp add: uint_word_of_int)
  have str: "\<exists>r mem'. esp_rtcmem_write_string_py str (Some pos) mem = Some (r, mem') \<and> length mem' = USER_RTC_MEM_SIZE"
    using write_string_cases [OF assms(1,4), of "word_of_int pos"] assms(1)
    by (auto simp: esp_rtcmem_write_string_py_def length_put_string)
  show ?thesis
    using str assms(1) v unfolding write_py_cases [OF assms(2)] read_py_cases [OF assms(5)]
    by (cases "i = pos") (auto simp: nth_list_update eq_nat_nat_iff)
qed

lemma rtcmem_bytes_are_checked_witness:
  "fst (esp_rtcmem_write_py 3 200 (replicate 512 0)) = Inr () \<and> esp_rtcmem_read_py 3 (snd (esp_rtcmem_write_py 3 200 (replicate 512 0))) = Inr 200"
  using rtcmem_bytes_are_checked [of "replicate 512 0" 3 200 "[]" 3] by (simp add: int32_def)

end
