(* ===== verification/Font.thy ===== *)
theory Font
  imports Badge_Display
begin

text \<open>
  The fonts of the self test: components/graph/font_8px.c, font_16px.c and \<open>draw_font\<close> of font.c, on the
  frame buffer of components/badge/badge_fb.c.

  \<open>has_erc\<close> says whether \<open>draw_pixel\<close> is the one for the monochrome display.  A text is given without its zero;
  \<open>None\<close> is an access outside a table or the frame buffer.
\<close>

section \<open>The tables\<close>

definition font_8px_data :: "u8 list" where
  "font_8px_data =
    [0x00, 0x00, 0x00, 0x00, 0x00, 0x00, 0x00, 0x00, 0x5f, 0x00, 0x00, 0x00, 0x00, 0x03, 0x00, 0x03, 0x00, 0x00, 0x14, 0x7f,
     0x14, 0x7f, 0x14, 0x00, 0x46, 0x49, 0x7f, 0x49, 0x31, 0x00, 0x63, 0x13, 0x08, 0x64, 0x63, 0x00, 0x36, 0x49, 0x49, 0x36,
     0x50, 0x00, 0x00, 0x00, 0x03, 0x00, 0x00, 0x00, 0x00, 0x1c, 0x22, 0x41, 0x00, 0x00, 0x00, 0x41, 0x22, 0x1c, 0x00, 0x00,
     0x44, 0x28, 0x7c, 0x28, 0x44, 0x00, 0x10, 0x10, 0x7c, 0x10, 0x10, 0x00, 0x00, 0x00, 0xc0, 0x00, 0x00, 0x00, 0x10, 0x10,
     0x10, 0x10, 0x10, 0x00, 0x00, 0x00, 0x40, 0x00, 0x00, 0x00, 0x60, 0x10, 0x08, 0x04, 0x03, 0x00, 0x3e, 0x41, 0x49, 0x41,
     0x3e, 0x00, 0x00, 0x42, 0x7f, 0x40, 0x00, 0x00, 0x72, 0x49, 0x49, 0x49, 0x46, 0x00, 0x22, 0x49, 0x49, 0x49, 0x36, 0x00,
     0x10, 0x18, 0x14, 0x12, 0x7f, 0x00, 0x2f, 0x49, 0x49, 0x49, 0x31, 0x00, 0x3e, 0x49, 0x49, 0x49, 0x32, 0x00, 0x61, 0x11,
     0x09, 0x05, 0x03, 0x00, 0x36, 0x49, 0x49, 0x49, 0x36, 0x00, 0x26, 0x49, 0x49, 0x49, 0x3e, 0x00, 0x00, 0x00, 0x24, 0x00,
     0x00, 0x00, 0x00, 0x40, 0x24, 0x00, 0x00, 0x00, 0x08, 0x14, 0x22, 0x41, 0x00, 0x00, 0x14, 0x14, 0x14, 0x14, 0x14, 0x00,
     0x41, 0x22, 0x14, 0x08, 0x00, 0x00, 0x02, 0x01, 0x59, 0x09, 0x06, 0x00, 0x3e, 0x41, 0x5d, 0x55, 0x5e, 0x00, 0x7e, 0x09,
     0x09, 0x09, 0x7e, 0x00, 0x7f, 0x49, 0x49, 0x49, 0x36, 0x00, 0x3e, 0x41, 0x41, 0x41, 0x22, 0x00, 0x7f, 0x41, 0x41, 0x41,
     0x3e, 0x00, 0x7f, 0x49, 0x49, 0x49, 0x41, 0x00, 0x7f, 0x09, 0x09, 0x09, 0x01, 0x00, 0x3e, 0x41, 0x49, 0x49, 0x3a, 0x00,
     0x7f, 0x08, 0x08, 0x08, 0x7f, 0x00, 0x00, 0x41, 0x7f, 0x41, 0x00, 0x00, 0x20, 0x40, 0x41, 0x3f, 0x01, 0x00, 0x7f, 0x08,
     0x14, 0x22, 0x41, 0x00, 0x7f, 0x40, 0x40, 0x40, 0x40, 0x00, 0x7f, 0x02, 0x04, 0x02, 0x7f, 0x00, 0x7f, 0x06, 0x08, 0x30,
     0x7f, 0x00, 0x3e, 0x41, 0x41, 0x41, 0x3e, 0x00, 0x7f, 0x09, 0x09, 0x09, 0x06, 0x00, 0x3e, 0x41, 0x51, 0x61, 0xbe, 0x00,
     0x7f, 0x09, 0x09, 0x09, 0x76, 0x00, 0x46, 0x49, 0x49, 0x49, 0x31, 0x00, 0x01, 0x01, 0x7f, 0x01, 0x01, 0x00, 0x3f, 0x40,
     0x40, 0x40, 0x3f, 0x00, 0x1f, 0x20, 0x40, 0x20, 0x1f, 0x00, 0x3f, 0x40, 0x3f, 0x40, 0x3f, 0x00, 0x63, 0x14, 0x08, 0x14,
     0x63, 0x00, 0x03, 0x04, 0x78, 0x04, 0x03, 0x00, 0x61, 0x51, 0x49, 0x45, 0x43, 0x00, 0x00, 0x7f, 0x41, 0x41, 0x00, 0x00,
     0x03, 0x04, 0x08, 0x10, 0x60, 0x00, 0x00, 0x41, 0x41, 0x7f, 0x00, 0x00, 0x04, 0x02, 0x01, 0x02, 0x04, 0x00, 0x40, 0x40,
     0x40, 0x40, 0x40, 0x00, 0x00, 0x01, 0x02, 0x04, 0x00, 0x00, 0x20, 0x54, 0x54, 0x54, 0x78, 0x00, 0x7f, 0x44, 0x44, 0x44,
     0x38, 0x00, 0x38, 0x44, 0x44, 0x44, 0x28, 0x00, 0x38, 0x44, 0x44, 0x44, 0x7f, 0x00, 0x38, 0x54, 0x54, 0x54, 0x18, 0x00,
     0x08, 0x7e, 0x09, 0x09, 0x02, 0x00, 0x18, 0xa4, 0xa4, 0xa4, 0x7c, 0x00, 0x7f, 0x04, 0x04, 0x04, 0x78, 0x00, 0x00, 0x44,
     0x7d, 0x40, 0x00, 0x00, 0x40, 0x80, 0x84, 0x7d, 0x00, 0x00, 0x7f, 0x10, 0x10, 0x28, 0x44, 0x00, 0x00, 0x41, 0x7f, 0x40,
     0x00, 0x00, 0x7c, 0x04, 0x7c, 0x04, 0x78, 0x00, 0x7c, 0x04, 0x04, 0x04, 0x78, 0x00, 0x38, 0x44, 0x44, 0x44, 0x38, 0x00,
     0xfc, 0x24, 0x24, 0x24, 0x18, 0x00, 0x18, 0x24, 0x24, 0x24, 0xfc, 0x00, 0x7c, 0x04, 0x04, 0x04, 0x08, 0x00, 0x48, 0x54,
     0x54, 0x54, 0x24, 0x00, 0x04, 0x3f, 0x44, 0x44, 0x20, 0x00, 0x3c, 0x40, 0x40, 0x40, 0x7c, 0x00, 0x1c, 0x20, 0x40, 0x20,
     0x1c, 0x00, 0x3c, 0x40, 0x3c, 0x40, 0x3c, 0x00, 0x44, 0x28, 0x10, 0x28, 0x44, 0x00, 0x1c, 0xa0, 0xa0, 0xa0, 0x7c, 0x00,
     0x44, 0x64, 0x54, 0x4c, 0x44, 0x00, 0x08, 0x36, 0x41, 0x41, 0x00, 0x00, 0x00, 0x00, 0x7f, 0x00, 0x00, 0x00, 0x41, 0x41,
     0x36, 0x08, 0x00, 0x00, 0x08, 0x04, 0x04, 0x08, 0x04, 0x00]"

definition font_8px_width :: "u8 list" where
  "font_8px_width =
    [0x14, 0x22, 0x14, 0x06, 0x06, 0x06, 0x06, 0x22, 0x14, 0x14, 0x06, 0x06, 0x22, 0x06, 0x22, 0x06, 0x06, 0x14, 0x06, 0x06,
     0x06, 0x06, 0x06, 0x06, 0x06, 0x06, 0x22, 0x13, 0x05, 0x06, 0x05, 0x06, 0x06, 0x06, 0x06, 0x06, 0x06, 0x06, 0x06, 0x06,
     0x06, 0x14, 0x06, 0x06, 0x06, 0x06, 0x06, 0x06, 0x06, 0x06, 0x06, 0x06, 0x06, 0x06, 0x06, 0x06, 0x06, 0x06, 0x06, 0x14,
     0x06, 0x14, 0x06, 0x06, 0x14, 0x06, 0x06, 0x06, 0x06, 0x06, 0x06, 0x06, 0x06, 0x14, 0x05, 0x06, 0x05, 0x06, 0x06, 0x06,
     0x06, 0x06, 0x06, 0x06, 0x06, 0x06, 0x06, 0x06, 0x06, 0x06, 0x06, 0x05, 0x22, 0x05, 0x06]"

definition font_16px_data :: "u8 list" where
  "font_16px_data =
    [0x00, 0x00, 0x00, 0x00, 0x00, 0x00, 0x00, 0x00, 0x00, 0x00, 0x00, 0x00, 0x00, 0x00, 0x00, 0x00, 0x00, 0x00, 0x00, 0x00,
     0x00, 0x00, 0x00, 0x00, 0x00, 0x00, 0x00, 0x00, 0x00, 0x00, 0x00, 0x00, 0x33, 0xff, 0x33, 0xff, 0x00, 0x00, 0x00, 0x00,
     0x00, 0x00, 0x00, 0x00, 0x00, 0x00, 0x00, 0x00, 0x00, 0x00, 0x00, 0x00, 0x00, 0x0f, 0x00, 0x0f, 0x00, 0x00, 0x00, 0x00,
     0x00, 0x0f, 0x00, 0x0f, 0x00, 0x00, 0x00, 0x00, 0x00, 0x00, 0x00, 0x00, 0x03, 0x30, 0x03, 0x30, 0x3f, 0xff, 0x3f, 0xff,
     0x03, 0x30, 0x03, 0x30, 0x3f, 0xff, 0x3f, 0xff, 0x03, 0x30, 0x03, 0x30, 0x00, 0x00, 0x00, 0x00, 0x30, 0x3c, 0x30, 0x7e,
     0x30, 0xe7, 0x30, 0xc3, 0x3f, 0xff, 0x3f, 0xff, 0x30, 0xc3, 0x39, 0xc3, 0x1f, 0x83, 0x0f, 0x03, 0x00, 0x00, 0x00, 0x00,
     0x38, 0x06, 0x3e, 0x0f, 0x0f, 0x0f, 0x03, 0x86, 0x01, 0xc0, 0x00, 0xe0, 0x18, 0x70, 0x3c, 0x3c, 0x3c, 0x1f, 0x18, 0x07,
     0x00, 0x00, 0x00, 0x00, 0x0f, 0x3c, 0x1f, 0xfe, 0x39, 0xe7, 0x30, 0xc3, 0x30, 0xc3, 0x39, 0xc7, 0x1f, 0xfe, 0x1f, 0x3c,
     0x3f, 0x00, 0x33, 0x00, 0x00, 0x00, 0x00, 0x00, 0x00, 0x00, 0x00, 0x00, 0x00, 0x00, 0x00, 0x00, 0x00, 0x0f, 0x00, 0x0f,
     0x00, 0x00, 0x00, 0x00, 0x00, 0x00, 0x00, 0x00, 0x00, 0x00, 0x00, 0x00, 0x00, 0x00, 0x00, 0x00, 0x01, 0xe0, 0x07, 0xf8,
     0x0f, 0x3c, 0x1c, 0x0e, 0x38, 0x07, 0x30, 0x03, 0x00, 0x00, 0x00, 0x00, 0x00, 0x00, 0x00, 0x00, 0x00, 0x00, 0x00, 0x00,
     0x30, 0x03, 0x38, 0x07, 0x1c, 0x0e, 0x0f, 0x3c, 0x07, 0xf8, 0x01, 0xe0, 0x00, 0x00, 0x00, 0x00, 0x00, 0x00, 0x00, 0x00,
     0x30, 0x30, 0x38, 0x70, 0x1c, 0xe0, 0x0f, 0xc0, 0x3f, 0xf0, 0x3f, 0xf0, 0x0f, 0xc0, 0x1c, 0xe0, 0x38, 0x70, 0x30, 0x30,
     0x00, 0x00, 0x00, 0x00, 0x03, 0x00, 0x03, 0x00, 0x03, 0x00, 0x03, 0x00, 0x3f, 0xf0, 0x3f, 0xf0, 0x03, 0x00, 0x03, 0x00,
     0x03, 0x00, 0x03, 0x00, 0x00, 0x00, 0x00, 0x00, 0x00, 0x00, 0x00, 0x00, 0x00, 0x00, 0x00, 0x00, 0xf0, 0x00, 0x70, 0x00,
     0x00, 0x00, 0x00, 0x00, 0x00, 0x00, 0x00, 0x00, 0x00, 0x00, 0x00, 0x00, 0x03, 0x00, 0x03, 0x00, 0x03, 0x00, 0x03, 0x00,
     0x03, 0x00, 0x03, 0x00, 0x03, 0x00, 0x03, 0x00, 0x03, 0x00, 0x03, 0x00, 0x00, 0x00, 0x00, 0x00, 0x00, 0x00, 0x00, 0x00,
     0x00, 0x00, 0x00, 0x00, 0x30, 0x00, 0x30, 0x00, 0x00, 0x00, 0x00, 0x00, 0x00, 0x00, 0x00, 0x00, 0x00, 0x00, 0x00, 0x00,
     0x38, 0x00, 0x3e, 0x00, 0x0f, 0x00, 0x03, 0x80, 0x01, 0xc0, 0x00, 0xe0, 0x00, 0x70, 0x00, 0x3c, 0x00, 0x1f, 0x00, 0x07,
     0x00, 0x00, 0x00, 0x00, 0x0f, 0xfc, 0x1f, 0xfe, 0x38, 0x07, 0x30, 0x03, 0x30, 0xc3, 0x30, 0xc3, 0x30, 0x03, 0x38, 0x07,
     0x1f, 0xfe, 0x0f, 0xfc, 0x00, 0x00, 0x00, 0x00, 0x00, 0x00, 0x00, 0x00, 0x30, 0x0c, 0x30, 0x0e, 0x3f, 0xff, 0x3f, 0xff,
     0x30, 0x00, 0x30, 0x00, 0x00, 0x00, 0x00, 0x00, 0x00, 0x00, 0x00, 0x00, 0x3f, 0x0c, 0x3f, 0x8e, 0x31, 0xc7, 0x30, 0xc3,
     0x30, 0xc3, 0x30, 0xc3, 0x30, 0xc3, 0x30, 0xe7, 0x30, 0x7e, 0x30, 0x3c, 0x00, 0x00, 0x00, 0x00, 0x0c, 0x0c, 0x1c, 0x0e,
     0x38, 0xc7, 0x30, 0xc3, 0x30, 0xc3, 0x30, 0xc3, 0x30, 0xc3, 0x39, 0xe7, 0x1f, 0xfe, 0x0f, 0x3c, 0x00, 0x00, 0x00, 0x00,
     0x03, 0x00, 0x03, 0x80, 0x03, 0xc0, 0x03, 0xe0, 0x03, 0x70, 0x03, 0x38, 0x03, 0x1c, 0x03, 0x0e, 0x3f, 0xff, 0x3f, 0xff,
     0x00, 0x00, 0x00, 0x00, 0x0c, 0xff, 0x1c, 0xff, 0x38, 0xc3, 0x30, 0xc3, 0x30, 0xc3, 0x30, 0xc3, 0x30, 0xc3, 0x39, 0xc3,
     0x1f, 0x83, 0x0f, 0x03, 0x00, 0x00, 0x00, 0x00, 0x0f, 0xfc, 0x1f, 0xfe, 0x38, 0xc7, 0x30, 0xc3, 0x30, 0xc3, 0x30, 0xc3,
     0x30, 0xc3, 0x39, 0xc7, 0x1f, 0x8e, 0x0f, 0x0c, 0x00, 0x00, 0x00, 0x00, 0x3c, 0x03, 0x3e, 0x03, 0x07, 0x03, 0x03, 0x83,
     0x01, 0xc3, 0x00, 0xe3, 0x00, 0x73, 0x00, 0x3b, 0x00, 0x1f, 0x00, 0x0f, 0x00, 0x00, 0x00, 0x00, 0x0f, 0x3c, 0x1f, 0xfe,
     0x39, 0xe7, 0x30, 0xc3, 0x30, 0xc3, 0x30, 0xc3, 0x30, 0xc3, 0x39, 0xe7, 0x1f, 0xfe, 0x0f, 0x3c, 0x00, 0x00, 0x00, 0x00,
     0x0c, 0x3c, 0x1c, 0x7e, 0x38, 0xe7, 0x30, 0xc3, 0x30, 0xc3, 0x30, 0xc3, 0x30, 0xc3, 0x38, 0xc7, 0x1f, 0xfe, 0x0f, 0xfc,
     0x00, 0x00, 0x00, 0x00, 0x00, 0x00, 0x00, 0x00, 0x00, 0x00, 0x00, 0x00, 0x0c, 0x30, 0x0c, 0x30, 0x00, 0x00, 0x00, 0x00,
     0x00, 0x00, 0x00, 0x00, 0x00, 0x00, 0x00, 0x00, 0x00, 0x00, 0x00, 0x00, 0x00, 0x00, 0x30, 0x00, 0x38, 0x00, 0x1c, 0x30,
     0x0c, 0x30, 0x00, 0x00, 0x00, 0x00, 0x00, 0x00, 0x00, 0x00, 0x00, 0x00, 0x00, 0x00, 0x00, 0xc0, 0x01, 0xe0, 0x03, 0xf0,
     0x07, 0x38, 0x0e, 0x1c, 0x1c, 0x0e, 0x38, 0x07, 0x30, 0x03, 0x00, 0x00, 0x00, 0x00, 0x00, 0x00, 0x03, 0x30, 0x03, 0x30,
     0x03, 0x30, 0x03, 0x30, 0x03, 0x30, 0x03, 0x30, 0x03, 0x30, 0x03, 0x30, 0x03, 0x30, 0x03, 0x30, 0x00, 0x00, 0x00, 0x00,
     0x00, 0x00, 0x30, 0x03, 0x38, 0x07, 0x1c, 0x0e, 0x0e, 0x1c, 0x07, 0x38, 0x03, 0xf0, 0x01, 0xe0, 0x00, 0xc0, 0x00, 0x00,
     0x00, 0x00, 0x00, 0x00, 0x00, 0x0c, 0x00, 0x0e, 0x00, 0x07, 0x00, 0x03, 0x33, 0x83, 0x33, 0xc3, 0x00, 0xc3, 0x00, 0xe7,
     0x00, 0x7e, 0x00, 0x3c, 0x00, 0x00, 0x00, 0x00, 0x0f, 0xfc, 0x1f, 0xfe, 0x38, 0x07, 0x30, 0x03, 0x31, 0xe3, 0x33, 0xf3,
     0x33, 0x33, 0x33, 0x37, 0x33, 0xfe, 0x33, 0xfc, 0x00, 0x00, 0x00, 0x00, 0x3f, 0xfc, 0x3f, 0xfe, 0x00, 0xc7, 0x00, 0xc3,
     0x00, 0xc3, 0x00, 0xc3, 0x00, 0xc3, 0x00, 0xc7, 0x3f, 0xfe, 0x3f, 0xfc, 0x00, 0x00, 0x00, 0x00, 0x3f, 0xff, 0x3f, 0xff,
     0x30, 0xc3, 0x30, 0xc3, 0x30, 0xc3, 0x30, 0xc3, 0x30, 0xc3, 0x39, 0xe7, 0x1f, 0xfe, 0x0f, 0x3c, 0x00, 0x00, 0x00, 0x00,
     0x0f, 0xfc, 0x1f, 0xfe, 0x38, 0x07, 0x30, 0x03, 0x30, 0x03, 0x30, 0x03, 0x30, 0x03, 0x38, 0x07, 0x1c, 0x0e, 0x0c, 0x0c,
     0x00, 0x00, 0x00, 0x00, 0x3f, 0xff, 0x3f, 0xff, 0x30, 0x03, 0x30, 0x03, 0x30, 0x03, 0x30, 0x03, 0x30, 0x03, 0x38, 0x07,
     0x1f, 0xfe, 0x0f, 0xfc, 0x00, 0x00, 0x00, 0x00, 0x3f, 0xff, 0x3f, 0xff, 0x30, 0xc3, 0x30, 0xc3, 0x30, 0xc3, 0x30, 0xc3,
     0x30, 0xc3, 0x30, 0xc3, 0x30, 0x03, 0x30, 0x03, 0x00, 0x00, 0x00, 0x00, 0x3f, 0xff, 0x3f, 0xff, 0x00, 0xc3, 0x00, 0xc3,
     0x00, 0xc3, 0x00, 0xc3, 0x00, 0xc3, 0x00, 0xc3, 0x00, 0x03, 0x00, 0x03, 0x00, 0x00, 0x00, 0x00, 0x0f, 0xfc, 0x1f, 0xfe,
     0x38, 0x07, 0x30, 0x03, 0x30, 0xc3, 0x30, 0xc3, 0x30, 0xc3, 0x38, 0xc7, 0x1f, 0xce, 0x0f, 0xcc, 0x00, 0x00, 0x00, 0x00,
     0x3f, 0xff, 0x3f, 0xff, 0x00, 0xc0, 0x00, 0xc0, 0x00, 0xc0, 0x00, 0xc0, 0x00, 0xc0, 0x00, 0xc0, 0x3f, 0xff, 0x3f, 0xff,
     0x00, 0x00, 0x00, 0x00, 0x00, 0x00, 0x00, 0x00, 0x30, 0x03, 0x30, 0x03, 0x3f, 0xff, 0x3f, 0xff, 0x30, 0x03, 0x30, 0x03,
     0x00, 0x00, 0x00, 0x00, 0x00, 0x00, 0x00, 0x00, 0x0c, 0x00, 0x1c, 0x00, 0x38, 0x00, 0x30, 0x00, 0x30, 0x03, 0x38, 0x03,
     0x1f, 0xff, 0x0f, 0xff, 0x00, 0x03, 0x00, 0x03, 0x00, 0x00, 0x00, 0x00, 0x3f, 0xff, 0x3f, 0xff, 0x00, 0xc0, 0x01, 0xe0,
     0x03, 0xf0, 0x07, 0x38, 0x0e, 0x1c, 0x1c, 0x0e, 0x38, 0x07, 0x30, 0x03, 0x00, 0x00, 0x00, 0x00, 0x3f, 0xff, 0x3f, 0xff,
     0x30, 0x00, 0x30, 0x00, 0x30, 0x00, 0x30, 0x00, 0x30, 0x00, 0x30, 0x00, 0x30, 0x00, 0x30, 0x00, 0x00, 0x00, 0x00, 0x00,
     0x3f, 0xff, 0x3f, 0xff, 0x00, 0x0e, 0x00, 0x1c, 0x00, 0x38, 0x00, 0x38, 0x00, 0x1c, 0x00, 0x0e, 0x3f, 0xff, 0x3f, 0xff,
     0x00, 0x00, 0x00, 0x00, 0x3f, 0xff, 0x3f, 0xff, 0x00, 0x3c, 0x00, 0x70, 0x00, 0xe0, 0x01, 0xc0, 0x03, 0x80, 0x0f, 0x00,
     0x3f, 0xff, 0x3f, 0xff, 0x00, 0x00, 0x00, 0x00, 0x0f, 0xfc, 0x1f, 0xfe, 0x38, 0x07, 0x30, 0x03, 0x30, 0x03, 0x30, 0x03,
     0x30, 0x03, 0x38, 0x07, 0x1f, 0xfe, 0x0f, 0xfc, 0x00, 0x00, 0x00, 0x00, 0x3f, 0xff, 0x3f, 0xff, 0x00, 0xc3, 0x00, 0xc3,
     0x00, 0xc3, 0x00, 0xc3, 0x00, 0xc3, 0x00, 0xe7, 0x00, 0x7e, 0x00, 0x3c, 0x00, 0x00, 0x00, 0x00, 0x0f, 0xfc, 0x1f, 0xfe,
     0x38, 0x07, 0x30, 0x03, 0x33, 0x03, 0x37, 0x03, 0x3e, 0x03, 0x7c, 0x07, 0xff, 0xfe, 0xcf, 0xfc, 0x00, 0x00, 0x00, 0x00,
     0x3f, 0xff, 0x3f, 0xff, 0x00, 0xc3, 0x00, 0xc3, 0x00, 0xc3, 0x00, 0xc3, 0x00, 0xc3, 0x01, 0xe7, 0x3f, 0xfe, 0x3f, 0x3c,
     0x00, 0x00, 0x00, 0x00, 0x30, 0x3c, 0x30, 0x7e, 0x30, 0xe7, 0x30, 0xc3, 0x30, 0xc3, 0x30, 0xc3, 0x30, 0xc3, 0x39, 0xc3,
     0x1f, 0x83, 0x0f, 0x03, 0x00, 0x00, 0x00, 0x00, 0x00, 0x03, 0x00, 0x03, 0x00, 0x03, 0x00, 0x03, 0x3f, 0xff, 0x3f, 0xff,
     0x00, 0x03, 0x00, 0x03, 0x00, 0x03, 0x00, 0x03, 0x00, 0x00, 0x00, 0x00, 0x0f, 0xff, 0x1f, 0xff, 0x38, 0x00, 0x30, 0x00,
     0x30, 0x00, 0x30, 0x00, 0x30, 0x00, 0x38, 0x00, 0x1f, 0xff, 0x0f, 0xff, 0x00, 0x00, 0x00, 0x00, 0x03, 0xff, 0x07, 0xff,
     0x0e, 0x00, 0x1c, 0x00, 0x38, 0x00, 0x38, 0x00, 0x1c, 0x00, 0x0e, 0x00, 0x07, 0xff, 0x03, 0xff, 0x00, 0x00, 0x00, 0x00,
     0x0f, 0xff, 0x1f, 0xff, 0x38, 0x00, 0x38, 0x00, 0x1f, 0xff, 0x1f, 0xff, 0x38, 0x00, 0x38, 0x00, 0x1f, 0xff, 0x0f, 0xff,
     0x00, 0x00, 0x00, 0x00, 0x3c, 0x0f, 0x3e, 0x1f, 0x07, 0x38, 0x03, 0xf0, 0x01, 0xe0, 0x01, 0xe0, 0x03, 0xf0, 0x07, 0x38,
     0x3e, 0x1f, 0x3c, 0x0f, 0x00, 0x00, 0x00, 0x00, 0x00, 0x0f, 0x00, 0x1f, 0x00, 0x38, 0x00, 0x70, 0x3f, 0xe0, 0x3f, 0xe0,
     0x00, 0x70, 0x00, 0x38, 0x00, 0x1f, 0x00, 0x0f, 0x00, 0x00, 0x00, 0x00, 0x3c, 0x03, 0x3e, 0x03, 0x37, 0x03, 0x33, 0x83,
     0x31, 0xc3, 0x30, 0xe3, 0x30, 0x73, 0x30, 0x3b, 0x30, 0x1f, 0x30, 0x0f, 0x00, 0x00, 0x00, 0x00, 0x00, 0x00, 0x00, 0x00,
     0x3f, 0xff, 0x3f, 0xff, 0x30, 0x03, 0x30, 0x03, 0x30, 0x03, 0x30, 0x03, 0x00, 0x00, 0x00, 0x00, 0x00, 0x00, 0x00, 0x00,
     0x00, 0x07, 0x00, 0x1f, 0x00, 0x3c, 0x00, 0x70, 0x00, 0xe0, 0x01, 0xc0, 0x03, 0x80, 0x0f, 0x00, 0x3e, 0x00, 0x38, 0x00,
     0x00, 0x00, 0x00, 0x00, 0x00, 0x00, 0x00, 0x00, 0x30, 0x03, 0x30, 0x03, 0x30, 0x03, 0x30, 0x03, 0x3f, 0xff, 0x3f, 0xff,
     0x00, 0x00, 0x00, 0x00, 0x00, 0x00, 0x00, 0x00, 0x00, 0x30, 0x00, 0x38, 0x00, 0x1c, 0x00, 0x0e, 0x00, 0x07, 0x00, 0x07,
     0x00, 0x0e, 0x00, 0x1c, 0x00, 0x38, 0x00, 0x30, 0x00, 0x00, 0x00, 0x00, 0x30, 0x00, 0x30, 0x00, 0x30, 0x00, 0x30, 0x00,
     0x30, 0x00, 0x30, 0x00, 0x30, 0x00, 0x30, 0x00, 0x30, 0x00, 0x30, 0x00, 0x00, 0x00, 0x00, 0x00, 0x00, 0x00, 0x00, 0x00,
     0x00, 0x03, 0x00, 0x07, 0x00, 0x0e, 0x00, 0x1c, 0x00, 0x38, 0x00, 0x30, 0x00, 0x00, 0x00, 0x00, 0x00, 0x00, 0x00, 0x00,
     0x0c, 0x00, 0x1e, 0x00, 0x3f, 0x30, 0x33, 0x30, 0x33, 0x30, 0x33, 0x30, 0x33, 0x30, 0x33, 0x70, 0x3f, 0xe0, 0x3f, 0xc0,
     0x00, 0x00, 0x00, 0x00, 0x3f, 0xff, 0x3f, 0xff, 0x30, 0x30, 0x30, 0x30, 0x30, 0x30, 0x30, 0x30, 0x30, 0x30, 0x38, 0x70,
     0x1f, 0xe0, 0x0f, 0xc0, 0x00, 0x00, 0x00, 0x00, 0x0f, 0xc0, 0x1f, 0xe0, 0x38, 0x70, 0x30, 0x30, 0x30, 0x30, 0x30, 0x30,
     0x30, 0x30, 0x38, 0x70, 0x1c, 0xe0, 0x0c, 0xc0, 0x00, 0x00, 0x00, 0x00, 0x0f, 0xc0, 0x1f, 0xe0, 0x38, 0x70, 0x30, 0x30,
     0x30, 0x30, 0x30, 0x30, 0x30, 0x30, 0x30, 0x30, 0x3f, 0xff, 0x3f, 0xff, 0x00, 0x00, 0x00, 0x00, 0x0f, 0xc0, 0x1f, 0xe0,
     0x3b, 0x70, 0x33, 0x30, 0x33, 0x30, 0x33, 0x30, 0x33, 0x30, 0x33, 0x70, 0x03, 0xe0, 0x03, 0xc0, 0x00, 0x00, 0x00, 0x00,
     0x00, 0xc0, 0x00, 0xc0, 0x3f, 0xfc, 0x3f, 0xfe, 0x00, 0xc7, 0x00, 0xc3, 0x00, 0xc3, 0x00, 0xc7, 0x00, 0x0e, 0x00, 0x0c,
     0x00, 0x00, 0x00, 0x00, 0x03, 0xc0, 0x07, 0xe0, 0xce, 0x70, 0xcc, 0x30, 0xcc, 0x30, 0xcc, 0x30, 0xcc, 0x30, 0xec, 0x30,
     0x7f, 0xf0, 0x3f, 0xf0, 0x00, 0x00, 0x00, 0x00, 0x3f, 0xff, 0x3f, 0xff, 0x00, 0x30, 0x00, 0x30, 0x00, 0x30, 0x00, 0x30,
     0x00, 0x30, 0x00, 0x70, 0x3f, 0xe0, 0x3f, 0xc0, 0x00, 0x00, 0x00, 0x00, 0x00, 0x00, 0x00, 0x00, 0x30, 0x30, 0x30, 0x30,
     0x3f, 0xf3, 0x3f, 0xf3, 0x30, 0x00, 0x30, 0x00, 0x00, 0x00, 0x00, 0x00, 0x00, 0x00, 0x00, 0x00, 0x00, 0x00, 0x30, 0x00,
     0x70, 0x00, 0xe0, 0x00, 0xc0, 0x00, 0xc0, 0x30, 0xe0, 0x30, 0x7f, 0xf3, 0x3f, 0xf3, 0x00, 0x00, 0x00, 0x00, 0x00, 0x00,
     0x3f, 0xff, 0x3f, 0xff, 0x03, 0x00, 0x03, 0x00, 0x03, 0x00, 0x07, 0x80, 0x0f, 0xc0, 0x1c, 0xe0, 0x38, 0x70, 0x30, 0x30,
     0x00, 0x00, 0x00, 0x00, 0x00, 0x00, 0x00, 0x00, 0x00, 0x00, 0x30, 0x03, 0x30, 0x03, 0x3f, 0xff, 0x3f, 0xff, 0x30, 0x00,
     0x30, 0x00, 0x00, 0x00, 0x00, 0x00, 0x00, 0x00, 0x3f, 0xf0, 0x3f, 0xf0, 0x00, 0x30, 0x00, 0x30, 0x3f, 0xf0, 0x3f, 0xf0,
     0x00, 0x30, 0x00, 0x70, 0x3f, 0xe0, 0x3f, 0xc0, 0x00, 0x00, 0x00, 0x00, 0x3f, 0xf0, 0x3f, 0xf0, 0x00, 0x30, 0x00, 0x30,
     0x00, 0x30, 0x00, 0x30, 0x00, 0x30, 0x00, 0x70, 0x3f, 0xe0, 0x3f, 0xc0, 0x00, 0x00, 0x00, 0x00, 0x0f, 0xc0, 0x1f, 0xe0,
     0x38, 0x70, 0x30, 0x30, 0x30, 0x30, 0x30, 0x30, 0x30, 0x30, 0x38, 0x70, 0x1f, 0xe0, 0x0f, 0xc0, 0x00, 0x00, 0x00, 0x00,
     0xff, 0xf0, 0xff, 0xf0, 0x0c, 0x30, 0x0c, 0x30, 0x0c, 0x30, 0x0c, 0x30, 0x0c, 0x30, 0x0e, 0x70, 0x07, 0xe0, 0x03, 0xc0,
     0x00, 0x00, 0x00, 0x00, 0x03, 0xc0, 0x07, 0xe0, 0x0e, 0x70, 0x0c, 0x30, 0x0c, 0x30, 0x0c, 0x30, 0x0c, 0x30, 0x0c, 0x30,
     0xff, 0xf0, 0xff, 0xf0, 0x00, 0x00, 0x00, 0x00, 0x3f, 0xf0, 0x3f, 0xf0, 0x00, 0x30, 0x00, 0x30, 0x00, 0x30, 0x00, 0x30,
     0x00, 0x30, 0x00, 0x70, 0x00, 0xe0, 0x00, 0xc0, 0x00, 0x00, 0x00, 0x00, 0x30, 0xc0, 0x31, 0xe0, 0x33, 0xf0, 0x33, 0x30,
     0x33, 0x30, 0x33, 0x30, 0x33, 0x30, 0x3f, 0x30, 0x1e, 0x30, 0x0c, 0x30, 0x00, 0x00, 0x00, 0x00, 0x00, 0x30, 0x00, 0x30,
     0x0f, 0xff, 0x1f, 0xff, 0x38, 0x30, 0x30, 0x30, 0x30, 0x30, 0x38, 0x30, 0x1c, 0x00, 0x0c, 0x00, 0x00, 0x00, 0x00, 0x00,
     0x0f, 0xf0, 0x1f, 0xf0, 0x38, 0x00, 0x30, 0x00, 0x30, 0x00, 0x30, 0x00, 0x30, 0x00, 0x30, 0x00, 0x3f, 0xf0, 0x3f, 0xf0,
     0x00, 0x00, 0x00, 0x00, 0x03, 0xf0, 0x07, 0xf0, 0x0e, 0x00, 0x1c, 0x00, 0x38, 0x00, 0x38, 0x00, 0x1c, 0x00, 0x0e, 0x00,
     0x07, 0xf0, 0x03, 0xf0, 0x00, 0x00, 0x00, 0x00, 0x0f, 0xf0, 0x1f, 0xf0, 0x38, 0x00, 0x38, 0x00, 0x1f, 0xf0, 0x1f, 0xf0,
     0x38, 0x00, 0x38, 0x00, 0x1f, 0xf0, 0x0f, 0xf0, 0x00, 0x00, 0x00, 0x00, 0x30, 0x30, 0x38, 0x70, 0x1c, 0xe0, 0x0f, 0xc0,
     0x07, 0x80, 0x07, 0x80, 0x0f, 0xc0, 0x1c, 0xe0, 0x38, 0x70, 0x30, 0x30, 0x00, 0x00, 0x00, 0x00, 0x03, 0xf0, 0x07, 0xf0,
     0xce, 0x00, 0xcc, 0x00, 0xcc, 0x00, 0xcc, 0x00, 0xcc, 0x00, 0xec, 0x00, 0x7f, 0xf0, 0x3f, 0xf0, 0x00, 0x00, 0x00, 0x00,
     0x30, 0x30, 0x38, 0x30, 0x3c, 0x30, 0x3e, 0x30, 0x37, 0x30, 0x33, 0xb0, 0x31, 0xf0, 0x30, 0xf0, 0x30, 0x70, 0x30, 0x30,
     0x00, 0x00, 0x00, 0x00, 0x00, 0x00, 0x00, 0xc0, 0x01, 0xe0, 0x0f, 0xfc, 0x1f, 0x3e, 0x38, 0x07, 0x30, 0x03, 0x30, 0x03,
     0x30, 0x03, 0x00, 0x00, 0x00, 0x00, 0x00, 0x00, 0x00, 0x00, 0x00, 0x00, 0x00, 0x00, 0x00, 0x00, 0x3f, 0xff, 0x3f, 0xff,
     0x00, 0x00, 0x00, 0x00, 0x00, 0x00, 0x00, 0x00, 0x00, 0x00, 0x00, 0x00, 0x00, 0x00, 0x30, 0x03, 0x30, 0x03, 0x30, 0x03,
     0x38, 0x07, 0x1f, 0x3e, 0x0f, 0xfc, 0x01, 0xe0, 0x00, 0xc0, 0x00, 0x00, 0x00, 0x00, 0x00, 0x00, 0x00, 0xc0, 0x00, 0xe0,
     0x00, 0x70, 0x00, 0x30, 0x00, 0x30, 0x00, 0x70, 0x00, 0xe0, 0x00, 0xe0, 0x00, 0x70, 0x00, 0x30, 0x00, 0x00, 0x00, 0x00]"

definition font_16px_width :: "u8 list" where
  "font_16px_width =
    [0x28, 0x44, 0x28, 0x0c, 0x0c, 0x0c, 0x0c, 0x44, 0x28, 0x28, 0x0c, 0x0c, 0x44, 0x0c, 0x44, 0x0c, 0x0c, 0x28, 0x0c, 0x0c,
     0x0c, 0x0c, 0x0c, 0x0c, 0x0c, 0x0c, 0x44, 0x36, 0x1a, 0x0c, 0x1a, 0x0c, 0x0c, 0x0c, 0x0c, 0x0c, 0x0c, 0x0c, 0x0c, 0x0c,
     0x0c, 0x28, 0x0c, 0x0c, 0x0c, 0x0c, 0x0c, 0x0c, 0x0c, 0x0c, 0x0c, 0x0c, 0x0c, 0x0c, 0x0c, 0x0c, 0x0c, 0x0c, 0x0c, 0x28,
     0x0c, 0x28, 0x0c, 0x0c, 0x28, 0x0c, 0x0c, 0x0c, 0x0c, 0x0c, 0x0c, 0x0c, 0x0c, 0x28, 0x1a, 0x0c, 0x1a, 0x0c, 0x0c, 0x0c,
     0x0c, 0x0c, 0x0c, 0x0c, 0x0c, 0x0c, 0x0c, 0x0c, 0x0c, 0x0c, 0x0c, 0x1a, 0x44, 0x1a, 0x0c]"

section \<open>draw_font\<close>

abbreviation FONT_16PX :: u8 where "FONT_16PX \<equiv> 0x01"
abbreviation FONT_INVERT :: u8 where "FONT_INVERT \<equiv> 0x02"
abbreviation FONT_FULL_WIDTH :: u8 where "FONT_FULL_WIDTH \<equiv> 0x04"
abbreviation FONT_MONOSPACE :: u8 where "FONT_MONOSPACE \<equiv> 0x08"
abbreviation FONT_UNDERLINE_1 :: u8 where "FONT_UNDERLINE_1 \<equiv> 0x10"
abbreviation FONT_UNDERLINE_2 :: u8 where "FONT_UNDERLINE_2 \<equiv> 0x20"
abbreviation FONT_FIRST :: u8 where "FONT_FIRST \<equiv> 32"
abbreviation FONT_LAST :: u8 where "FONT_LAST \<equiv> 126"

text \<open>A font: its data, its widths, and the width and height of a character.\<close>

record font =
  font_data :: "u8 list"
  font_width :: "u8 list"
  font_WIDTH :: nat
  font_HEIGHT :: nat

definition select_font :: "u8 \<Rightarrow> font" where
  "select_font flags =
     (if flags AND FONT_16PX \<noteq> 0
      then \<lparr>font_data = font_16px_data, font_width = font_16px_width, font_WIDTH = 12, font_HEIGHT = 2\<rparr>
      else \<lparr>font_data = font_8px_data, font_width = font_8px_width, font_WIDTH = 6, font_HEIGHT = 1\<rparr>)"

definition underline :: "u8 \<Rightarrow> u8" where
  "underline flags =
     (if flags AND FONT_UNDERLINE_1 \<noteq> 0 then 0x80 else 0) OR (if flags AND FONT_UNDERLINE_2 \<noteq> 0 then 0x40 else 0)"

text \<open>Eight pixels, the lowest bit at the lowest row.\<close>

fun draw_bits :: "bool \<Rightarrow> int \<Rightarrow> int \<Rightarrow> nat list \<Rightarrow> u8 \<Rightarrow> u8 list \<Rightarrow> u8 list option" where
  "draw_bits has_erc x y [] ch buf = Some buf"
| "draw_bits has_erc x y (ch_y2 # rows) ch buf =
     Option.bind (draw_pixel has_erc buf x (y + int ch_y2) (if ch AND 1 \<noteq> 0 then 255 else 0))
       (draw_bits has_erc x y rows (drop_bit 1 ch))"

text \<open>One column of a character: \<open>height\<close> bytes from \<open>f_index\<close> on; the first byte is the lowest.\<close>

fun draw_column :: "bool \<Rightarrow> int \<Rightarrow> int \<Rightarrow> nat \<Rightarrow> (nat \<Rightarrow> u8 option) \<Rightarrow> nat list \<Rightarrow> u8 list \<Rightarrow> u8 list option" where
  "draw_column has_erc x y height bytes [] buf = Some buf"
| "draw_column has_erc x y height bytes (ch_y # rest) buf = do {
     ch \<leftarrow> bytes ch_y;
     buf \<leftarrow> draw_bits has_erc x (y + int (height - ch_y - 1) * 8) [0..<8] ch buf;
     draw_column has_erc x y height bytes rest buf
   }"

definition font_byte :: "font \<Rightarrow> u8 \<Rightarrow> nat \<Rightarrow> nat \<Rightarrow> u8 option" where
  "font_byte f flags f_index ch_y =
     map_option (\<lambda>ch. (if flags AND FONT_INVERT \<noteq> 0 then NOT ch else ch) XOR (if ch_y = 0 then underline flags else 0))
       (nth_opt (font_data f) (f_index + ch_y))"

text \<open>\<open>while (ch_width > 0 && x < x_max)\<close>: the column that follows, and the buffer.\<close>

fun draw_char :: "bool \<Rightarrow> font \<Rightarrow> u8 \<Rightarrow> int \<Rightarrow> int \<Rightarrow> nat \<Rightarrow> nat \<Rightarrow> int \<Rightarrow> u8 list \<Rightarrow> (int \<times> u8 list) option" where
  "draw_char has_erc f flags y x_max 0 f_index x buf = Some (x, buf)"
| "draw_char has_erc f flags y x_max (Suc ch_width) f_index x buf =
     (if x < x_max then
        Option.bind (draw_column has_erc x y (font_HEIGHT f) (font_byte f flags f_index) [0..<font_HEIGHT f] buf)
          (draw_char has_erc f flags y x_max ch_width (f_index + font_HEIGHT f) (x + 1))
      else Some (x, buf))"

text \<open>The width of a character and where its data starts.\<close>

definition char_index :: "u8 \<Rightarrow> nat" where
  "char_index ch = (if ch < FONT_FIRST \<or> ch > FONT_LAST then 0 else unat (ch - FONT_FIRST))"

definition glyph :: "font \<Rightarrow> u8 \<Rightarrow> nat \<Rightarrow> (nat \<times> nat) option" where
  "glyph f flags ch =
     (let f_index = ch * (font_WIDTH f * font_HEIGHT f)
      in if flags AND FONT_MONOSPACE \<noteq> 0 then Some (font_WIDTH f, f_index)
         else map_option (\<lambda>w. (unat (w AND 0x0f), f_index + unat (drop_bit 4 w) * font_HEIGHT f)) (nth_opt (font_width f) ch))"

text \<open>The characters that fit: their number, the next column, and the buffer.\<close>

fun draw_text :: "bool \<Rightarrow> font \<Rightarrow> u8 \<Rightarrow> int \<Rightarrow> int \<Rightarrow> u8 list \<Rightarrow> int \<Rightarrow> u8 list \<Rightarrow> (nat \<times> int \<times> u8 list) option" where
  "draw_text has_erc f flags y x_max [] x buf = Some (0, x, buf)"
| "draw_text has_erc f flags y x_max (ch # text) x buf =
     (if \<not> x < x_max then Some (0, x, buf)
      else do {
        (ch_width, f_index) \<leftarrow> glyph f flags (char_index ch);
        if x + int ch_width \<ge> x_max then Some (0, x, buf)
        else do {
          (x, buf) \<leftarrow> draw_char has_erc f flags y x_max ch_width f_index x buf;
          (numChars, x, buf) \<leftarrow> draw_text has_erc f flags y x_max text x buf;
          Some (numChars + 1, x, buf)
        }
      })"

text \<open>\<open>FONT_FULL_WIDTH\<close>: the rest of the line.\<close>

definition blank_byte :: "u8 \<Rightarrow> nat \<Rightarrow> u8 option" where
  "blank_byte flags ch_y =
     Some ((if flags AND FONT_INVERT \<noteq> 0 then NOT 0 else 0) XOR (if ch_y = 0 then underline flags else 0))"

function draw_blank :: "bool \<Rightarrow> font \<Rightarrow> u8 \<Rightarrow> int \<Rightarrow> int \<Rightarrow> int \<Rightarrow> u8 list \<Rightarrow> u8 list option" where
  "draw_blank has_erc f flags y x_max x buf =
     (if x < x_max then
        Option.bind (draw_column has_erc x y (font_HEIGHT f) (blank_byte flags) [0..<font_HEIGHT f] buf)
          (draw_blank has_erc f flags y x_max (x + 1))
      else Some buf)"
  by pat_completeness auto
termination
  by (relation "measure (\<lambda>(has_erc, f, flags, y, x_max, x, buf). nat (x_max - x))") auto

declare draw_blank.simps [simp del]

definition draw_font :: "bool \<Rightarrow> u8 list \<Rightarrow> int \<Rightarrow> int \<Rightarrow> int \<Rightarrow> u8 list \<Rightarrow> u8 \<Rightarrow> (nat \<times> u8 list) option" where
  "draw_font has_erc buf x y x_len text flags = do {
     let f = select_font flags;
     let x_max = x_len + x;
     (numChars, x, buf) \<leftarrow> draw_text has_erc f flags y x_max text x buf;
     buf \<leftarrow> (if flags AND FONT_FULL_WIDTH \<noteq> 0 then draw_blank has_erc f flags y x_max x buf else Some buf);
     Some (numChars, buf)
   }"

end
