(* ===== verification/First_Run.thy ===== *)
theory First_Run
  imports Font Locfd Png_Decode
begin

text \<open>
  The self test of components/badge-first-run/badge_first_run.c: the lines of text on the display, the
  bars of the touch controller, and \<open>badge_first_run\<close> step by step.  \<open>badge_init_locfd\<close> is in Locfd.

  The frame buffer is the heap block of badge_fb.c.  As in Ota, \<open>Some (Some x, s)\<close> goes on,
  \<open>Some (None, s)\<close> is the \<open>return\<close> after an error, and \<open>None\<close> is an abort, an access outside an array, or a
  loop that does not end.
\<close>

section \<open>The display\<close>

definition has_erc :: "fw \<Rightarrow> bool" where
  "has_erc s = defined_in s ''I2C_ERC12864_ADDR''"

definition fb_width :: "bool \<Rightarrow> nat" where
  "fb_width lcd = (if lcd then 128 else BADGE_EINK_WIDTH)"

definition fb_height :: "bool \<Rightarrow> nat" where
  "fb_height lcd = (if lcd then 64 else BADGE_EINK_HEIGHT)"

definition NUM_DISP_LINES :: "bool \<Rightarrow> nat" where
  "NUM_DISP_LINES lcd = (if lcd then 8 else 12)"

definition COLOR_WHITE :: "bool \<Rightarrow> u8" where
  "COLOR_WHITE lcd = (if lcd then 0xFF else 0x00)"

abbreviation NO_NEWLINE :: u8 where "NO_NEWLINE \<equiv> 0x80"

text \<open>\<open>memset(&badge_fb[pos], v, n)\<close>.\<close>

definition fb_set :: "nat \<Rightarrow> nat \<Rightarrow> u8 \<Rightarrow> u8 list \<Rightarrow> u8 list option" where
  "fb_set pos n v buf = (if pos + n \<le> length buf then Some (take pos buf @ replicate n v @ drop (pos + n) buf) else None)"

definition disp_scroll :: "bool \<Rightarrow> u8 list \<Rightarrow> u8 list option" where
  "disp_scroll lcd buf =
     (let w = fb_width lcd; n = (NUM_DISP_LINES lcd - 1) * w
      in if w + n \<le> length buf then fb_set n w (COLOR_WHITE lcd) (take n (drop w buf) @ drop n buf) else None)"

text \<open>\<open>while (next_line >= NUM_DISP_LINES - height)\<close>: the line, and the buffer.\<close>

fun scroll_up :: "bool \<Rightarrow> nat \<Rightarrow> nat \<Rightarrow> u8 list \<Rightarrow> (nat \<times> u8 list) option" where
  "scroll_up lcd height 0 buf = Some (0, buf)"
| "scroll_up lcd height (Suc line) buf =
     (if Suc line \<ge> NUM_DISP_LINES lcd - height then Option.bind (disp_scroll lcd buf) (scroll_up lcd height line)
      else Some (Suc line, buf))"

text \<open>One round of the loop of \<open>disp_line\<close>: the number of characters drawn, the next line, and the buffer.\<close>

definition disp_round :: "bool \<Rightarrow> u8 list \<Rightarrow> u8 \<Rightarrow> nat \<Rightarrow> u8 list \<Rightarrow> (nat \<times> nat \<times> u8 list) option" where
  "disp_round lcd text flags line buf = do {
     let height = (if flags AND FONT_16PX \<noteq> 0 then 2 else 1 :: nat);
     (line, buf) \<leftarrow> scroll_up lcd height line buf;
     (len, buf) \<leftarrow> draw_font lcd buf 0 (8 * int line) (int (fb_width lcd)) text ((FONT_FULL_WIDTH OR FONT_INVERT) XOR flags);
     let line = (if height = 2 then line + 1 else line);
     if flags AND NO_NEWLINE = 0
     then do {
       (_, buf) \<leftarrow> draw_font lcd buf 0 (8 * int (line + 1)) (int (fb_width lcd)) (str_bytes ''_'') (FONT_FULL_WIDTH OR FONT_INVERT);
       Some (len, line + 1, buf)
     }
     else Some (len, line, buf)
   }"

abbreviation DISPLAY_FLAG_LUT :: "int \<Rightarrow> int" where "DISPLAY_FLAG_LUT x \<equiv> push_bit 8 (1 + x)"

text \<open>Bringing the frame buffer to the display the build has.\<close>

definition disp_show :: "fw \<Rightarrow> fw option" where
  "disp_show s = do {
     s \<leftarrow> (if has_erc s then do { buf \<leftarrow> badge_fb s; (_, s) \<leftarrow> badge_erc12864_write buf s; Some s } else Some s);
     if defined_in s ''PIN_NUM_EPD_CLK'' then badge_eink_display (badge_fb s) (DISPLAY_FLAG_LUT 2) s else Some s
   }"

definition vTaskDelay_ms :: "int \<Rightarrow> fw \<Rightarrow> fw" where
  "vTaskDelay_ms ms s = snd (ext ''vTaskDelay'' [ms div macro s ''portTICK_PERIOD_MS''] s)"

function disp_line :: "u8 list \<Rightarrow> u8 \<Rightarrow> fw \<Rightarrow> fw option" where
  "disp_line text flags s = do {
     buf \<leftarrow> badge_fb s;
     (len, line, buf) \<leftarrow> disp_round (has_erc s) text flags (next_line s) buf;
     let s = s\<lparr>badge_fb := Some buf, next_line := line\<rparr>;
     let delays = defined_in s ''CONFIG_DEBUG_ADD_DELAYS'';
     s \<leftarrow> (if delays then map_option (vTaskDelay_ms 1000) (disp_show s) else Some s);
     if len = 0 \<or> len \<ge> length text then (if delays then Some s else disp_show s)
     else disp_line (drop len text) flags s
   }"
  by pat_completeness auto
termination
  by (relation "measure (\<lambda>(text, flags, s). length text)") auto

declare disp_line.simps [simp del]

section \<open>The bars of the touch controller\<close>

text \<open>Clearing the pixel \<open>x\<close> of the row that starts at \<open>pos\<close>.\<close>

definition clear_dot :: "int \<Rightarrow> int \<Rightarrow> u8 list \<Rightarrow> u8 list option" where
  "clear_dot pos x buf =
     (let i = pos + drop_bit 3 x
      in if i < 0 then None else update_byte buf (nat i) (put_bit (nat (x AND 7)) False))"

definition bar_coordinate :: "u32 \<Rightarrow> int" where
  "bar_coordinate v = min (sint (v - 180)) 295"

definition draw_bar :: "nat \<Rightarrow> u32 \<Rightarrow> u32 \<Rightarrow> u32 \<Rightarrow> nat \<Rightarrow> u8 list \<Rightarrow> u8 list option" where
  "draw_bar width v up down y buf = do {
     let w = width div 8;
     let pos = (102 + y * 3) * w;
     let x = bar_coordinate v;
     let xu = bar_coordinate up;
     let xd = bar_coordinate down;
     buf \<leftarrow> fb_set (pos - w) (w * 3) 0xff buf;
     buf \<leftarrow> foldl (\<lambda>r x. Option.bind r (clear_dot (int pos) (int x))) (Some buf) (rev [0..<nat (x + 1)]);
     buf \<leftarrow> clear_dot (int pos - int w) xu buf;
     buf \<leftarrow> clear_dot (int pos) xu buf;
     buf \<leftarrow> clear_dot (int pos) xd buf;
     clear_dot (int pos + int w) xd buf
   }"

definition draw_bars :: "nat \<Rightarrow> u32 list \<Rightarrow> u32 list \<Rightarrow> u32 list \<Rightarrow> u8 list \<Rightarrow> u8 list option" where
  "draw_bars width data baseline_top baseline_bottom buf =
     foldl (\<lambda>r y. Option.bind r (draw_bar width (data ! y) (baseline_top ! y) (baseline_bottom ! y) y)) (Some buf) [0..<8]"

definition update_mpr121_bars :: "badge_mpr121_touch_info \<Rightarrow> u32 list \<Rightarrow> u32 list \<Rightarrow> fw \<Rightarrow> fw option" where
  "update_mpr121_bars ti baseline_top baseline_bottom s = do {
     buf \<leftarrow> badge_fb s;
     buf \<leftarrow> draw_bars (fb_width (has_erc s)) (touch_data ti) baseline_top baseline_bottom buf;
     s \<leftarrow> disp_show (s\<lparr>badge_fb := Some buf\<rparr>);
     Some (if defined_in s ''CONFIG_DEBUG_ADD_DELAYS'' then vTaskDelay_ms 100 s else s)
   }"

section \<open>Steps of the self test\<close>

definition say :: "string \<Rightarrow> u8 \<Rightarrow> fw \<Rightarrow> (unit option \<times> fw) option" where
  "say text flags s = map_option (\<lambda>s. (Some (), s)) (disp_line (str_bytes text) flags s)"

text \<open>An error message and \<open>return\<close>.\<close>

definition give_up :: "string \<Rightarrow> fw \<Rightarrow> ('a option \<times> fw) option" where
  "give_up text s = map_option (\<lambda>s. (None, s)) (disp_line (str_bytes text) FONT_MONOSPACE s)"

definition assert_ok :: "(fw \<Rightarrow> (esp_err \<times> fw) option) \<Rightarrow> fw \<Rightarrow> (unit option \<times> fw) option" where
  "assert_ok f s = do { (err, s) \<leftarrow> f s; if err = ESP_OK then Some (Some (), s) else None }"

fun in_turn :: "(fw \<Rightarrow> (unit option \<times> fw) option) list \<Rightarrow> fw \<Rightarrow> (unit option \<times> fw) option" where
  "in_turn [] s = Some (Some (), s)"
| "in_turn (f # fs) s = tbind (f s) (\<lambda>_ s. in_turn fs s)"

definition fb_fill :: "nat \<Rightarrow> nat \<Rightarrow> u8 \<Rightarrow> fw \<Rightarrow> fw option" where
  "fb_fill pos n v s = do { buf \<leftarrow> badge_fb s; buf \<leftarrow> fb_set pos n v buf; Some (s\<lparr>badge_fb := Some buf\<rparr>) }"

abbreviation BADGE_FB_LEN :: nat where "BADGE_FB_LEN \<equiv> BADGE_EINK_WIDTH * BADGE_EINK_HEIGHT"

definition test_init_display :: "fw \<Rightarrow> (unit option \<times> fw) option" where
  "test_init_display s =
     (if defined_in s ''CONFIG_DISOBEY''
      then tbind (in_turn [assert_ok (\<lambda>s. Some (badge_i2c_init s)), assert_ok (\<lambda>s. Some (badge_disobey_samd_init s))] s) (\<lambda>_ s. do {
        (_, s) \<leftarrow> badge_erc12864_init s;
        tbind (assert_ok (\<lambda>s. Some (badge_fb_init s)) s) (\<lambda>_ s. do {
          s \<leftarrow> fb_fill 0 BADGE_FB_LEN 0x00 s;
          (_, s) \<leftarrow> badge_disobey_samd_write_backlight 255 s;
          buf \<leftarrow> badge_fb s;
          (_, s) \<leftarrow> badge_erc12864_write buf s;
          Some (Some (), s)
        })
      })
      else tbind (in_turn [assert_ok (badge_eink_init (eink_type_of (BADGE_EINK_DEFAULT s))),
                           assert_ok (\<lambda>s. Some (badge_fb_init s))] s) (\<lambda>_ s. do {
        s \<leftarrow> fb_fill 0 BADGE_FB_LEN 0xff s;
        s \<leftarrow> badge_eink_display (badge_fb s) (DISPLAY_FLAG_LUT 0) s;
        Some (Some (), s)
      }))"

text \<open>The line between text and picture, and the first lines; \<open>built\<close> is date and time of the build.\<close>

definition test_start :: "string \<Rightarrow> fw \<Rightarrow> (unit option \<times> fw) option" where
  "test_start built s = do {
     let lcd = has_erc s;
     s \<leftarrow> (if NUM_DISP_LINES lcd < 16
           then fb_fill (NUM_DISP_LINES lcd * fb_width lcd) (fb_width lcd div 8) 0x00 s else Some s);
     in_turn [say ''Factory test'' FONT_16PX, say [] 0, say (''Built on: '' @ built) 0,
       say ''Initializing and testing badge'' 0] s
   }"

definition test_flash_button :: "fw \<Rightarrow> (unit option \<times> fw) option" where
  "test_flash_button s =
     (if defined_in s ''PIN_NUM_BUTTON_FLASH''
      then let (btn_flash, s) = ext ''gpio_get_level'' [macro s ''PIN_NUM_BUTTON_FLASH''] s
           in if btn_flash \<noteq> 1 then give_up ''Error: Flash button is pressed'' s else say ''flash button ok'' 0 s
      else Some (Some (), s))"

section \<open>The touch controller\<close>

definition baseline_def :: "fw \<Rightarrow> u32 list" where
  "baseline_def s =
     (if defined_in s ''CONFIG_HACKERHOTEL_BADGE_V0'' \<or> defined_in s ''CONFIG_HACKERHOTEL_BADGE_V1''
      then [350, 361, 343, 252, 267, 258, 232, 352]
      else [0x0138, 0x0144, 0x0170, 0x0174, 0x00f0, 0x0103, 0x00ff, 0x00ed])"

text \<open>Of two initialisers with the same designator the later one counts.\<close>

definition touch_name :: "fw \<Rightarrow> nat \<Rightarrow> string" where
  "touch_name s i =
     (case find (\<lambda>(x, n). macro s x = int i) (rev [(''MPR121_PIN_NUM_A'', ''A''), (''MPR121_PIN_NUM_B'', ''B''),
        (''MPR121_PIN_NUM_START'', ''START''), (''MPR121_PIN_NUM_SELECT'', ''SELECT''), (''MPR121_PIN_NUM_DOWN'', ''DOWN''),
        (''MPR121_PIN_NUM_RIGHT'', ''RIGHT''), (''MPR121_PIN_NUM_UP'', ''UP''), (''MPR121_PIN_NUM_LEFT'', ''LEFT'')]) of
        Some (x, n) \<Rightarrow> n | None \<Rightarrow> ''(null)'')"

definition read_touch :: "fw \<Rightarrow> (badge_mpr121_touch_info option \<times> fw) option" where
  "read_touch s = do {
     (res, s) \<leftarrow> badge_mpr121_get_touch_info s;
     case res of Inl _ \<Rightarrow> give_up ''Error: failed to read touch info!'' s | Inr ti \<Rightarrow> Some (Some ti, s)
   }"

text \<open>Sixteen readings, added up.\<close>

fun sum_touch_data :: "nat \<Rightarrow> u32 list \<Rightarrow> fw \<Rightarrow> (u32 list option \<times> fw) option" where
  "sum_touch_data 0 baseline s = Some (Some baseline, s)"
| "sum_touch_data (Suc n) baseline s = tbind (read_touch s) (\<lambda>ti s. do {
     let data = (if defined_in s ''CONFIG_BASVS_BROKEN_BADGE'' then (touch_data ti)[3 := baseline_def s ! 3] else touch_data ti);
     s \<leftarrow> update_mpr121_bars (ti\<lparr>touch_data := data\<rparr>) (baseline_def s) (baseline_def s) s;
     sum_touch_data n (map2 (+) baseline data) s
   })"

definition average_16 :: "u32 list \<Rightarrow> u32 list" where
  "average_16 = map (\<lambda>v. drop_bit 4 (v + 8))"

text \<open>Waiting until bit \<open>i\<close> of the touch state is \<open>touched\<close>.\<close>

partial_function (option) wait_touch :: "nat \<Rightarrow> bool \<Rightarrow> u32 list \<Rightarrow> fw \<Rightarrow> (unit option \<times> fw) option" where
  "wait_touch i touched baseline s = do {
     (ti, s) \<leftarrow> read_touch s;
     case ti of
       None \<Rightarrow> Some (None, s)
     | Some ti \<Rightarrow> do {
         s \<leftarrow> update_mpr121_bars ti (baseline_def s) baseline s;
         if bit (touch_state ti) i = touched then Some (Some (), s) else wait_touch i touched baseline s
       }
   }"

definition touch_and_release :: "u32 list \<Rightarrow> nat \<Rightarrow> fw \<Rightarrow> (unit option \<times> fw) option" where
  "touch_and_release baseline i s =
     (let name = touch_name s i
      in in_turn [say (''*ACTION* touch button '' @ name) (FONT_INVERT OR NO_NEWLINE), wait_touch i True baseline,
           say (''button '' @ name @ '' touch ok'') 0,
           say (''*ACTION* release button '' @ name) (FONT_INVERT OR NO_NEWLINE), wait_touch i False baseline,
           say (''button '' @ name @ '' release ok'') 0] s)"

definition check_button :: "u32 list \<Rightarrow> nat \<Rightarrow> fw \<Rightarrow> (unit option \<times> fw) option" where
  "check_button baseline i s =
     (let b = baseline ! i; d = baseline_def s ! i; name = touch_name s i
      in if b * 100 < d * 85
         then in_turn [say (''odd readings for button '' @ name @ '' (low)'') FONT_MONOSPACE, touch_and_release baseline i] s
         else if b * 95 > d * 100
         then in_turn [say (''odd readings for button '' @ name @ '' (high)'') FONT_MONOSPACE, touch_and_release baseline i] s
         else Some (Some (), s))"

text \<open>The measured baseline.\<close>

definition test_mpr121 :: "fw \<Rightarrow> (u32 list option \<times> fw) option" where
  "test_mpr121 s =
     (if defined_in s ''I2C_MPR121_ADDR''
      then tbind (in_turn [say ''initializing MPR121'' 0, assert_ok (\<lambda>s. Some (badge_mpr121_init s)),
                           assert_ok (badge_mpr121_configure None False), say ''reading touch data'' 0] s) (\<lambda>_ s.
           tbind (sum_touch_data 16 (replicate 8 0) s) (\<lambda>sums s.
           let baseline = average_16 sums in
           tbind (say ''re-initializing MPR121'' 0 s) (\<lambda>_ s. do {
             (_, s) \<leftarrow> badge_mpr121_configure (Some baseline) True s;
             tbind (in_turn (map (check_button baseline) [0..<8] @ [say ''MPR121 ok'' 0]) s) (\<lambda>_ s. Some (Some baseline, s))
           })))
      else Some (Some [], s))"

section \<open>LEDs, power and SD card\<close>

definition test_leds :: "fw \<Rightarrow> (unit option \<times> fw) option" where
  "test_leds s =
     (if defined_in s ''PIN_NUM_LEDS''
      then in_turn [say ''configuring leds'' 0, assert_ok badge_leds_init, assert_ok badge_leds_enable,
             assert_ok (badge_leds_send_data (replicate 24 1))] s
      else Some (Some (), s))"

partial_function (option) wait_touch_state :: "(u32 \<Rightarrow> bool) \<Rightarrow> fw \<Rightarrow> (unit option \<times> fw) option" where
  "wait_touch_state p s = do {
     (ti, s) \<leftarrow> read_touch s;
     case ti of None \<Rightarrow> Some (None, s) | Some ti \<Rightarrow> (if p (touch_state ti) then Some (Some (), s) else wait_touch_state p s)
   }"

text \<open>The loops of the C code as they are: the second one waits for the value 1 of the masked state.\<close>

definition wait_for_key_a :: "fw \<Rightarrow> (unit option \<times> fw) option" where
  "wait_for_key_a s =
     (let a = push_bit (nat (macro s ''MPR121_PIN_NUM_A'')) 1
      in in_turn [wait_touch_state (\<lambda>st. st AND a = 0), wait_touch_state (\<lambda>st. st AND a = 1)] s)"

text \<open>\<open>%u\<close> and \<open>%03u\<close> of an \<open>int\<close>; C's division and remainder round to zero.\<close>

definition fmt_u :: "int \<Rightarrow> string" where
  "fmt_u i = dec_digits (unat (word_of_int i :: u32))"

definition fmt_03u :: "int \<Rightarrow> string" where
  "fmt_03u i = (let d = fmt_u i in replicate (3 - length d) (CHR ''0'') @ d)"

definition c_quot :: "int \<Rightarrow> int \<Rightarrow> int" where
  "c_quot a b = (if a \<ge> 0 then a div b else - ((- a) div b))"

definition volt_line :: "string \<Rightarrow> int \<Rightarrow> string" where
  "volt_line name v = name @ '' = '' @ fmt_u (c_quot v 1000) @ ''.'' @ fmt_03u (v - 1000 * c_quot v 1000) @ '' V''"

definition test_battery :: "bool \<Rightarrow> int \<Rightarrow> fw \<Rightarrow> (unit option \<times> fw) option" where
  "test_battery bat_chrg pwr_vbat s =
     (if pwr_vbat > 100 then
        (if defined_in s ''CONFIG_ALLOW_BATTERY_FIRST_BOOT''
         then tbind (say ''WARNING: Did not expect any power on Vbat'' FONT_MONOSPACE s) (\<lambda>_ s. Some (Some (), vTaskDelay_ms 2000 s))
         else give_up ''Error: Did not expect any power on Vbat'' s)
      else if bat_chrg then
        tbind (say ''WARNING: Charging, but no battery connected?'' FONT_MONOSPACE s) (\<lambda>_ s.
          if defined_in s ''I2C_MPR121_ADDR''
          then in_turn [say ''*ACTION* touch button A to accept'' (FONT_INVERT OR NO_NEWLINE), wait_for_key_a] s
          else Some (Some (), s))
      else Some (Some (), s))"

definition test_power :: "fw \<Rightarrow> (unit option \<times> fw) option" where
  "test_power s =
     (if defined_in s ''CONFIG_DISOBEY'' \<or> defined_in s ''CONFIG_HACKERHOTEL_BADGE_V0'' \<or> defined_in s ''CONFIG_HACKERHOTEL_BADGE_V1''
      then Some (Some (), s)
      else tbind (in_turn [say ''measure power'' 0, assert_ok badge_power_init] s) (\<lambda>_ s. do {
        (bat_chrg, s) \<leftarrow> badge_battery_charge_status s;
        tbind (in_turn [say (if bat_chrg then ''battery is charging'' else ''battery is not charging'') 0,
                        say ''Vbat = ...'' NO_NEWLINE] s) (\<lambda>_ s. do {
          (pwr_vbat, s) \<leftarrow> badge_battery_volt_sense s;
          tbind (in_turn [say (volt_line ''Vbat'' pwr_vbat) 0, test_battery bat_chrg pwr_vbat, say ''Vusb = ...'' NO_NEWLINE] s) (\<lambda>_ s. do {
            (pwr_vusb, s) \<leftarrow> badge_usb_volt_sense s;
            in_turn [say (volt_line ''Vusb'' pwr_vusb) 0,
              (if pwr_vusb < 4200 \<or> pwr_vusb > 5700 then give_up ''Error: Vusb should be approx. 5 volt''
               else say ''power measurements ok'' 0)] s
          })
        })
      }))"

definition test_sdcard :: "fw \<Rightarrow> (unit option \<times> fw) option" where
  "test_sdcard s =
     (if defined_in s ''FXL6408_PIN_NUM_SD_CD'' \<or> defined_in s ''MPR121_PIN_NUM_SD_CD''
      then tbind (in_turn [say ''read sdcard-detect line'' 0, assert_ok badge_sdcard_init] s) (\<lambda>_ s. do {
        (sdcard, s) \<leftarrow> badge_sdcard_detected s;
        if sdcard then give_up ''sdcard detected (error)'' s else say ''no sdcard detected (as expected)'' 0 s
      })
      else Some (Some (), s))"

section \<open>Wi-Fi and file system\<close>

text \<open>Calls up to the first that does not answer \<open>ESP_OK\<close>.\<close>

fun while_ok :: "(string \<times> int list) list \<Rightarrow> fw \<Rightarrow> esp_err \<times> fw" where
  "while_ok [] s = (ESP_OK, s)"
| "while_ok ((f, args) # cs) s = (let (res, s) = ext f args s in if res = ESP_OK then while_ok cs s else (res, s))"

text \<open>The result of the scan, and whether memory for it has been allocated.\<close>

definition wifi_scan :: "string \<Rightarrow> string \<Rightarrow> fw \<Rightarrow> (esp_err \<times> int \<times> fw) option" where
  "wifi_scan ssid password s =
     (let cfg = map uint (fill_buffer 32 (str_bytes ssid) @ fill_buffer 64 (str_bytes password));
          (res, s) = while_ok [(''esp_wifi_init'', []), (''esp_wifi_set_mode'', [1]), (''esp_wifi_set_config'', cfg),
                               (''esp_wifi_start'', []), (''esp_wifi_scan_start'', [100, 200])] s
      in if res \<noteq> ESP_OK then Some (res, 0, s)
         else let ((res, n), s) = ext_bytes ''esp_wifi_scan_get_ap_num'' [] s
         in if res \<noteq> ESP_OK then Some (res, 0, s)
         else let (ap_records, s) = ext ''malloc'' [int (le_bytes (take 2 n))] s
         in if ap_records = 0 then None
         else do {
           let ((res, n), s) = ext_bytes ''esp_wifi_scan_get_ap_records'' [int (le_bytes (take 2 n)), ap_records] s;
           let num_ap = le_bytes (take 2 n);
           if res \<noteq> ESP_OK then Some (res, ap_records, s)
           else do {
             s \<leftarrow> disp_line (str_bytes (''available ssids: ('' @ dec_digits num_ap @ '')'') @ [10]) 0 s;
             if num_ap = 0 then do { s \<leftarrow> disp_line (str_bytes ''no ssids found!'') 0 s; Some (-1, ap_records, s) }
             else Some (res, ap_records, s)
           }
         })"

definition test_wifi :: "string \<Rightarrow> string \<Rightarrow> fw \<Rightarrow> (unit option \<times> fw) option" where
  "test_wifi ssid password s =
     tbind (say ''testing wifi...'' 0 s) (\<lambda>_ s. do {
       (res, ap_records, s) \<leftarrow> wifi_scan ssid password s;
       let s = snd (ext ''free'' [ap_records] s);
       if res \<noteq> ESP_OK then give_up ''wifi init failed'' s else say ''wifi ok'' FONT_16PX s
     })"

definition test_mount :: "fw \<Rightarrow> (unit option \<times> fw) option" where
  "test_mount s =
     (let (err, s) = ext ''esp_vfs_fat_spiflash_mount'' (str_arg ''locfd'' @ [8, 1]) s
      in if err \<noteq> ESP_OK then give_up ''failed to create/open locfd fat fs'' s
         else in_turn [say ''flash fat fs ok'' 0, say ''Testing done'' 0, say ''Extracting...'' 0] s)"

definition test_extract :: "(nat \<Rightarrow> nat \<Rightarrow> int \<times> u8 list) \<Rightarrow> fw \<Rightarrow> (unit option \<times> fw) option" where
  "test_extract part_read s =
     (case badge_init_locfd part_read s of
        (Ret res, s) \<Rightarrow> if res \<noteq> ESP_OK then give_up ''extracting failed'' s else say ''Extracting done'' 0 s
      | (Err res, s) \<Rightarrow> if res \<noteq> ESP_OK then give_up ''extracting failed'' s else say ''Extracting done'' 0 s
      | _ \<Rightarrow> None)"

section \<open>The configuration\<close>

text \<open>Calls on the handle, each followed by \<open>ESP_ERROR_CHECK\<close>.\<close>

fun checked_all :: "(string \<times> int list) list \<Rightarrow> fw \<Rightarrow> fw option" where
  "checked_all [] s = Some s"
| "checked_all ((f, args) # cs) s = Option.bind (checked f args s) (checked_all cs)"

definition store_nvs_init :: "fw \<Rightarrow> fw option" where
  "store_nvs_init s =
     (let (err, s) = ext ''nvs_flash_init'' [] s
      in if err = ESP_ERR_NVS_NO_FREE_PAGES
         then let (nvs_partition, s) = ext ''esp_partition_find_first'' [1, 2] s
              in if nvs_partition = 0 then None
                 else checked_all [(''esp_partition_erase_range'', [nvs_partition, 0]), (''nvs_flash_init'', [])] s
         else if err = ESP_OK then Some s else None)"

definition baseline_key :: "nat \<Rightarrow> string" where
  "baseline_key i = ''mpr121.base.'' @ dec_digits i"

definition store_nvs :: "string \<Rightarrow> string \<Rightarrow> u32 list \<Rightarrow> fw \<Rightarrow> fw option" where
  "store_nvs ssid password baseline s = do {
     s \<leftarrow> store_nvs_init s;
     let ((err, h), s) = ext_bytes ''nvs_open'' (NVS_READWRITE # str_arg ''badge'') s;
     let my_handle = int (le_bytes (take 4 h));
     s \<leftarrow> (if err = ESP_OK then Some s else None);
     s \<leftarrow> checked_all
       ([(''nvs_set_u8'', my_handle # str_arg ''eink.dev.type'' @ [uint (BADGE_EINK_DEFAULT s)])] @
        (if defined_in s ''I2C_MPR121_ADDR''
         then map (\<lambda>i. (''nvs_set_u16'', my_handle # str_arg (baseline_key i) @ [uint (ucast (baseline ! i) :: u16)])) [0..<8]
         else []) @
        [(''nvs_set_str'', my_handle # str_arg ''wifi.ssid'' @ str_arg ssid),
         (''nvs_set_str'', my_handle # str_arg ''wifi.password'' @ str_arg password),
         (''nvs_commit'', [my_handle])]) s;
     Some (snd (ext ''nvs_close'' [my_handle] s))
   }"

section \<open>Loading a picture\<close>

text \<open>\<open>read\<close> of the file with descriptor \<open>fd\<close>; the state of the file is that of the firmware.\<close>

definition os_read :: "int \<times> fw \<Rightarrow> nat \<Rightarrow> int \<times> u8 list \<times> (int \<times> fw)" where
  "os_read f n = (let ((r, bs), s) = ext_bytes ''read'' [fst f, int n] (snd f) in (r, take n bs, (fst f, s)))"

text \<open>
  The PNG reader keeps its source in one of two places; the one that was used last has the longer
  history.
\<close>

definition png_fw :: "(int \<times> fw) file_reader lib_png_reader \<Rightarrow> fw" where
  "png_fw pr =
     (let a = snd (fr_file (src (psrc pr))); b = snd (fr_file (src (read_p (pdr pr))))
      in if length (trace a) < length (trace b) then b else a)"

definition lib_file_destroy :: "int \<Rightarrow> int \<Rightarrow> fw \<Rightarrow> fw" where
  "lib_file_destroy fd fr s =
     (let s = (if fd \<noteq> 0 then snd (ext ''close'' [fd] s) else s) in snd (ext ''free'' [fr] s))"

text \<open>\<open>mem\<close> says whether the allocations inside \<open>lib_png_load_image\<close> succeed.\<close>

definition load_png :: "(nat \<Rightarrow> bool) \<Rightarrow> nat \<Rightarrow> nat \<Rightarrow> string \<Rightarrow> fw \<Rightarrow> (bool \<times> fw) option" where
  "load_png mem x y filename s =
     (let (fd, s) = ext ''open'' (0 # str_arg filename) s
      in if fd = -1 then Some (False, s)
      else let (fr, s) = ext ''malloc'' [1024] s
      in if fr = 0 then Some (False, s)
      else let (pr, s) = ext ''malloc'' [0] s
      in if pr = 0 then Some (False, lib_file_destroy fd fr s)
      else do {
        buf \<leftarrow> badge_fb s;
        let lcd = has_erc s;
        let w = fb_width lcd;
        let pos = x + y * w;
        let (res, png, dst) = lib_png_load_image (lib_file_read os_read) (lib_crc32) mem 0 0
              (of_nat (w - x)) (of_nat (fb_height lcd - y)) (of_nat w) (lib_png_new (lib_file_new (fd, s) 1024)) (drop pos buf);
        let s = lib_file_destroy fd fr ((png_fw png)\<lparr>badge_fb := Some (take pos buf @ dst)\<rparr>);
        case res of
          Ret _ \<Rightarrow> Some (True, s)
        | Err _ \<Rightarrow> Some (False, s)
        | _ \<Rightarrow> None
      })"

section \<open>badge_first_run\<close>

text \<open>The last screen.\<close>

definition show_result :: "(nat \<Rightarrow> bool) \<Rightarrow> fw \<Rightarrow> fw option" where
  "show_result mem s = do {
     s \<leftarrow> (if defined_in s ''CONFIG_DISOBEY'' then disp_line (str_bytes ''TEST OK'') 0 s
           else do {
             (_, s) \<leftarrow> load_png mem 0 0 ''/media/hacking.png'' s;
             (_, s) \<leftarrow> load_png mem 2 2 ''/media/badge_version.png'' s;
             (_, s) \<leftarrow> load_png mem 0 0 ''/media/badge_type.png'' s;
             Some s
           });
     s \<leftarrow> (if has_erc s then do { buf \<leftarrow> badge_fb s; (_, s) \<leftarrow> badge_erc12864_write buf s; Some s } else Some s);
     if defined_in s ''PIN_NUM_EPD_CLK''
     then do { buf \<leftarrow> badge_fb s; badge_eink_display_greyscale buf 1 16 s } else Some s
   }"

text \<open>The colours of the LEDs in state \<open>n\<close>: all in one colour first, then one LED after the other.\<close>

definition swap_rg :: "nat \<Rightarrow> nat" where
  "swap_rg i = (if i < 2 then 1 - i else i)"

definition leds_pattern :: "nat \<Rightarrow> u8 list" where
  "leds_pattern n =
     (if n < 4 then foldl (\<lambda>d j. d[swap_rg n + j * 4 := 2]) (replicate 24 0) [0..<6]
      else (replicate 24 0)[swap_rg ((n - 4) div 6) + (n - 4) mod 6 * 4 := 2])"

text \<open>One round of the endless loop at the end: the next state of the LEDs, or another attempt at a deep sleep.\<close>

definition final_round :: "nat \<Rightarrow> fw \<Rightarrow> (nat \<times> fw) option" where
  "final_round n s =
     (if defined_in s ''PIN_NUM_LEDS''
      then do {
        (err, s) \<leftarrow> badge_leds_send_data (leds_pattern n) s;
        if err \<noteq> ESP_OK then None
        else Some (if n + 1 \<ge> 28 then 0 else n + 1, vTaskDelay_ms (if n < 4 then 1000 else 250) s)
      }
      else Some (n, snd (ext ''esp_deep_sleep_start'' [] s)))"

text \<open>\<open>Some (Some (), s)\<close>: the test has passed and the endless loop starts.\<close>

definition badge_first_run ::
  "string \<Rightarrow> string \<Rightarrow> string \<Rightarrow> (nat \<Rightarrow> nat \<Rightarrow> int \<times> u8 list) \<Rightarrow> (nat \<Rightarrow> bool) \<Rightarrow> fw \<Rightarrow> (unit option \<times> fw) option" where
  "badge_first_run built ssid password part_read mem s =
     tbind (in_turn [test_init_display, test_start built, test_flash_button] s) (\<lambda>_ s.
     tbind (test_mpr121 s) (\<lambda>baseline s.
     tbind (in_turn [test_leds, test_power, test_sdcard, test_wifi ssid password, test_mount, test_extract part_read] s) (\<lambda>_ s. do {
       let s = (if defined_in s ''CONFIG_DEBUG_ADD_DELAYS'' then vTaskDelay_ms 10000 s else s);
       s \<leftarrow> store_nvs ssid password baseline s;
       s \<leftarrow> show_result mem s;
       Some (Some (), s)
     })))"

text \<open>Whether \<open>badge_check_first_run\<close> returns to its caller; otherwise it stays in an endless loop.\<close>

definition badge_check_first_run ::
  "string \<Rightarrow> string \<Rightarrow> string \<Rightarrow> (nat \<Rightarrow> nat \<Rightarrow> int \<times> u8 list) \<Rightarrow> (nat \<Rightarrow> bool) \<Rightarrow> fw \<Rightarrow> (bool \<times> fw) option" where
  "badge_check_first_run built ssid password part_read mem s =
     (let ((nvs_partition, address), s) = ext_bytes ''esp_partition_find_first'' [1, 2] s;
          addr = le_bytes (take 4 address)
      in if nvs_partition = 0 then Some (True, s)
      else let ((res, buf), s) = ext_bytes ''spi_flash_read'' [int addr, 64] s
      in if res \<noteq> ESP_OK then Some (True, s)
      else if take 16 (fill_buffer 64 buf) \<noteq> replicate 16 0xff then Some (True, s)
      else do {
        (passed, s) \<leftarrow> badge_first_run built ssid password part_read mem s;
        case passed of
          Some _ \<Rightarrow> Some (False, s)
        | None \<Rightarrow> do {
            s \<leftarrow> checked ''spi_flash_erase_sector'' [int (addr div SPI_FLASH_SEC_SIZE)] s;
            Some (False, s)
          }
      })"

end
