(* ===== verification/First_Run_Proofs.thy ===== *)
theory First_Run_Proofs
  imports First_Run
begin

text \<open>
  The screen of the self test: text stays in its lines whatever is written, no text is lost, and the
  bars of the touch controller stay below the text.
\<close>

section \<open>The font tables\<close>

lemma font_widths:
  "list_all (\<lambda>w. unat (w AND 0x0f) + unat (drop_bit 4 w) \<le> 6) font_8px_width"
  "list_all (\<lambda>w. unat (w AND 0x0f) + unat (drop_bit 4 w) \<le> 12) font_16px_width"
  by code_simp+

lemma font_lengths:
  "length font_8px_data = 95 * 6" "length font_8px_width = 95"
  "length font_16px_data = 95 * 24" "length font_16px_width = 95"
  by (simp_all add: font_8px_data_def font_8px_width_def font_16px_data_def font_16px_width_def)

section \<open>What drawing changes\<close>

text \<open>The bytes below \<open>lo\<close> and from \<open>hi\<close> on are kept; for text, everything but the lines \<open>a\<close> to \<open>b\<close>.\<close>

definition kept :: "nat \<Rightarrow> nat \<Rightarrow> u8 list \<Rightarrow> u8 list \<Rightarrow> bool" where
  "kept lo hi buf buf' \<longleftrightarrow> length buf' = length buf \<and> take lo buf' = take lo buf \<and> drop hi buf' = drop hi buf"

abbreviation keeps :: "nat \<Rightarrow> nat \<Rightarrow> u8 list \<Rightarrow> u8 list option \<Rightarrow> bool" where
  "keeps lo hi buf r \<equiv> \<exists>buf'. r = Some buf' \<and> kept lo hi buf buf'"

abbreviation drawn :: "bool \<Rightarrow> nat \<Rightarrow> nat \<Rightarrow> u8 list \<Rightarrow> u8 list \<Rightarrow> bool" where
  "drawn lcd a b \<equiv> kept (a * fb_width lcd) (b * fb_width lcd)"

abbreviation draws :: "bool \<Rightarrow> nat \<Rightarrow> nat \<Rightarrow> u8 list \<Rightarrow> u8 list option \<Rightarrow> bool" where
  "draws lcd a b \<equiv> keeps (a * fb_width lcd) (b * fb_width lcd)"

lemma kept_refl [simp]: "kept lo hi buf buf"
  by (simp add: kept_def)

lemma kept_trans: "kept lo hi x y \<Longrightarrow> kept lo hi y z \<Longrightarrow> kept lo hi x z"
  by (simp add: kept_def)

lemma kept_length: "kept lo hi buf buf' \<Longrightarrow> length buf' = length buf"
  by (simp add: kept_def)

lemma keeps_bind:
  assumes "keeps lo hi buf r" "\<And>buf'. kept lo hi buf buf' \<Longrightarrow> length buf' = length buf \<Longrightarrow> keeps lo hi buf' (f buf')"
  shows "keeps lo hi buf (Option.bind r f)"
  using assms(1) assms(2) kept_length kept_trans by fastforce

lemma kept_wider:
  assumes d: "kept lo hi x y" and a: "lo' \<le> lo" and b: "hi \<le> hi'"
  shows "kept lo' hi' x y"
proof -
  have "take lo' y = take lo' (take lo y)" "take lo' x = take lo' (take lo x)"
    using a by (simp_all add: min_def)
  moreover have "drop hi' y = drop (hi' - hi) (drop hi y)" "drop hi' x = drop (hi' - hi) (drop hi x)"
    using b by simp_all
  ultimately show ?thesis using d unfolding kept_def by metis
qed

lemma update_byte_keeps: "lo \<le> p \<Longrightarrow> p < hi \<Longrightarrow> hi \<le> length buf \<Longrightarrow> keeps lo hi buf (update_byte buf p f)"
  by (simp add: update_byte_def kept_def)

lemma drop_bit_3: "drop_bit 3 x = x div 8" for x :: int
  by (simp add: drop_bit_eq_div)

lemma unat_of_int16: "0 \<le> i \<Longrightarrow> i < 65536 \<Longrightarrow> unat (word_of_int i :: u16) = nat i"
  by (simp add: unat_eq_nat_uint uint_word_of_int)

lemma draw_pixel_draws:
  assumes x: "0 \<le> x" "x < int (fb_width lcd)" and y: "int (8 * a) \<le> y" "y < int (8 * b)"
    and b: "b \<le> fb_height lcd div 8" "b * fb_width lcd \<le> length buf"
  shows "draws lcd a b buf (draw_pixel lcd buf x y c)"
proof (cases lcd)
  case True
  let ?i = "y div 8 * 128 + x"
  have h: "int a \<le> y div 8" "y div 8 < int b" "b \<le> 8" "0 \<le> x" "x < 128"
    using x y b True by (auto simp: fb_width_def fb_height_def)
  then have i: "int a * 128 \<le> ?i" "?i < int b * 128" "?i < 65536" "0 \<le> ?i" by linarith+
  have u: "unat (word_of_int ?i :: u16) = nat ?i" using i by (intro unat_of_int16)
  have n: "a * 128 \<le> nat ?i" "nat ?i < b * 128" using i by linarith+
  have c: "c_div8 y = y div 8" "\<not> y - 8 * (y div 8) < 0" using y by (simp_all add: c_div8_def)
  have "draws lcd a b buf (update_byte buf (nat ?i) f)" for f
    using n b True by (intro update_byte_keeps) (simp_all add: fb_width_def)
  moreover have "draw_pixel lcd buf x y c = update_byte buf (nat ?i) (put_bit (nat (y - 8 * (y div 8))) (\<not> c > 128))"
    unfolding draw_pixel_def draw_pixel_erc_def Let_def using True by (simp only: c u if_True if_False)
  ultimately show ?thesis by simp
next
  case False
  let ?i = "x div 8 + y * 37"
  have h: "0 \<le> x div 8" "x div 8 < 37" "b \<le> 16" "0 \<le> y" "y < 128" "0 \<le> x" "x < 296"
    using x y b False by (auto simp: fb_width_def fb_height_def)
  then have i: "int a * 296 \<le> ?i" "?i < int b * 296" using y by linarith+
  have n: "a * 296 \<le> nat ?i" "nat ?i < b * 296" using i by linarith+
  have "draws lcd a b buf (update_byte buf (nat ?i) f)" for f
    using n b False by (intro update_byte_keeps) (simp_all add: fb_width_def)
  then show ?thesis
    using False h by (simp add: draw_pixel_def draw_pixel_eink_def Let_def drop_bit_3)
qed

section \<open>Characters and texts\<close>

lemma draw_bits_draws:
  assumes "0 \<le> x" "x < int (fb_width lcd)" "b \<le> fb_height lcd div 8" "b * fb_width lcd \<le> length buf"
    and "\<And>r. r \<in> set rows \<Longrightarrow> int (8 * a) \<le> y + int r \<and> y + int r < int (8 * b)"
  shows "draws lcd a b buf (draw_bits lcd x y rows ch buf)"
  using assms(4,5)
proof (induction rows arbitrary: ch buf)
  case (Cons r rows)
  show ?case
    unfolding draw_bits.simps
    by (rule keeps_bind) (use Cons assms(1-3) in \<open>auto intro!: draw_pixel_draws\<close>)
qed simp

lemma draw_column_draws:
  assumes "0 \<le> x" "x < int (fb_width lcd)" "a + h \<le> fb_height lcd div 8" "(a + h) * fb_width lcd \<le> length buf"
    and "\<And>r. r \<in> set rows \<Longrightarrow> r < h \<and> bytes r \<noteq> None"
  shows "draws lcd a (a + h) buf (draw_column lcd x (8 * int a) h bytes rows buf)"
  using assms(4,5)
proof (induction rows arbitrary: buf)
  case (Cons r rows)
  obtain ch where ch: "bytes r = Some ch" using Cons.prems(2) [of r] by auto
  have r: "r < h" using Cons.prems(2) [of r] by simp
  have "draws lcd a (a + h) buf (draw_bits lcd x (8 * int a + int (h - r - 1) * 8) [0..<8] ch buf)"
    using r by (intro draw_bits_draws assms Cons.prems) (auto simp: of_nat_diff)
  then show ?case
    unfolding draw_column.simps ch Option.bind.simps
    by (rule keeps_bind) (use Cons in auto)
qed simp

text \<open>A font whose tables have data for every character.\<close>

definition font_ok :: "font \<Rightarrow> bool" where
  "font_ok f \<longleftrightarrow> font_HEIGHT f \<in> {1, 2} \<and> font_WIDTH f \<le> 12 \<and> length (font_width f) = 95 \<and>
     length (font_data f) = 95 * (font_WIDTH f * font_HEIGHT f) \<and>
     list_all (\<lambda>w. unat (w AND 0x0f) + unat (drop_bit 4 w) \<le> font_WIDTH f) (font_width f)"

lemma select_font_ok: "font_ok (select_font flags)"
  using font_widths font_lengths by (simp add: select_font_def font_ok_def)

lemma select_font_height: "font_HEIGHT (select_font flags) = (if flags AND FONT_16PX \<noteq> 0 then 2 else 1)"
  by (simp add: select_font_def)

lemma char_index_less: "char_index ch < 95"
proof (cases "ch < FONT_FIRST \<or> ch > FONT_LAST")
  case False
  then have "unat ch \<le> 126" "32 \<le> unat ch" by (auto simp: word_less_nat_alt word_le_nat_alt not_less)
  then show ?thesis using False by (simp add: char_index_def unat_sub word_le_nat_alt)
qed (simp add: char_index_def)

lemma glyph_in_font:
  assumes "font_ok f" "ch < 95"
  obtains w i where "glyph f flags ch = Some (w, i)" "w \<le> 12" "i + w * font_HEIGHT f \<le> length (font_data f)"
proof (cases "flags AND FONT_MONOSPACE \<noteq> 0")
  case True
  have "ch * (font_WIDTH f * font_HEIGHT f) + font_WIDTH f * font_HEIGHT f \<le> 95 * (font_WIDTH f * font_HEIGHT f)"
    using assms(2) mult_le_mono1 [of "Suc ch" 95 "font_WIDTH f * font_HEIGHT f"] by simp
  then show ?thesis using True assms that [of "font_WIDTH f"] by (simp add: glyph_def font_ok_def)
next
  case False
  let ?w = "font_width f ! ch"
  have w: "unat (?w AND 0x0f) + unat (drop_bit 4 ?w) \<le> font_WIDTH f"
    using assms by (simp add: font_ok_def list_all_length)
  have "unat (drop_bit 4 ?w) * font_HEIGHT f + unat (?w AND 0x0f) * font_HEIGHT f \<le> font_WIDTH f * font_HEIGHT f"
    using mult_le_mono1 [OF w, of "font_HEIGHT f"] by (simp add: algebra_simps)
  moreover have "ch * (font_WIDTH f * font_HEIGHT f) + font_WIDTH f * font_HEIGHT f \<le> 95 * (font_WIDTH f * font_HEIGHT f)"
    using assms(2) mult_le_mono1 [of "Suc ch" 95 "font_WIDTH f * font_HEIGHT f"] by simp
  ultimately have "ch * (font_WIDTH f * font_HEIGHT f) + unat (drop_bit 4 ?w) * font_HEIGHT f + unat (?w AND 0x0f) * font_HEIGHT f
      \<le> length (font_data f)"
    using assms(1) unfolding font_ok_def by linarith
  moreover have "glyph f flags ch = Some (unat (?w AND 0x0f), ch * (font_WIDTH f * font_HEIGHT f) + unat (drop_bit 4 ?w) * font_HEIGHT f)"
    using False assms by (simp add: glyph_def font_ok_def)
  moreover have "unat (?w AND 0x0f) \<le> 12" using w assms(1) unfolding font_ok_def by linarith
  ultimately show ?thesis by (intro that)
qed

lemma draw_char_draws:
  assumes "font_ok f" "0 \<le> x" "a + font_HEIGHT f \<le> fb_height lcd div 8" "(a + font_HEIGHT f) * fb_width lcd \<le> length buf"
    and "i + w * font_HEIGHT f \<le> length (font_data f)"
  shows "\<exists>x' buf'. draw_char lcd f flags (8 * int a) (int (fb_width lcd)) w i x buf = Some (x', buf') \<and> 0 \<le> x' \<and>
    drawn lcd a (a + font_HEIGHT f) buf buf'"
  using assms(2,4,5)
proof (induction w arbitrary: i x buf)
  case (Suc w)
  show ?case
  proof (cases "x < int (fb_width lcd)")
    case True
    have "font_byte f flags i r \<noteq> None" if "r < font_HEIGHT f" for r
      using Suc.prems(3) that by (simp add: font_byte_def nth_opt_def)
    then have "draws lcd a (a + font_HEIGHT f) buf
        (draw_column lcd x (8 * int a) (font_HEIGHT f) (font_byte f flags i) [0..<font_HEIGHT f] buf)"
      using True Suc.prems assms(3) by (intro draw_column_draws) auto
    then obtain buf1 where 1: "draw_column lcd x (8 * int a) (font_HEIGHT f) (font_byte f flags i) [0..<font_HEIGHT f] buf = Some buf1"
      "drawn lcd a (a + font_HEIGHT f) buf buf1" by auto
    have "\<exists>x' buf'. draw_char lcd f flags (8 * int a) (int (fb_width lcd)) w (i + font_HEIGHT f) (x + 1) buf1 = Some (x', buf') \<and>
        0 \<le> x' \<and> drawn lcd a (a + font_HEIGHT f) buf1 buf'"
      using Suc.prems kept_length [OF 1(2)] by (intro Suc.IH) (simp_all add: algebra_simps)
    then show ?thesis using True 1 kept_trans [OF 1(2)] by auto
  next
    case False
    then show ?thesis using Suc.prems by simp
  qed
qed simp

text \<open>The str that fits is drawn; the first character always fits.\<close>

lemma draw_text_draws:
  assumes "font_ok f" "0 \<le> x" "a + font_HEIGHT f \<le> fb_height lcd div 8" "(a + font_HEIGHT f) * fb_width lcd \<le> length buf"
  shows "\<exists>n x' buf'. draw_text lcd f flags (8 * int a) (int (fb_width lcd)) str x buf = Some (n, x', buf') \<and> 0 \<le> x' \<and>
    n \<le> length str \<and> (x = 0 \<and> str \<noteq> [] \<longrightarrow> n > 0) \<and> drawn lcd a (a + font_HEIGHT f) buf buf'"
  using assms(2,4)
proof (induction str arbitrary: x buf)
  case (Cons c str)
  show ?case
  proof (cases "x < int (fb_width lcd)")
    case True
    obtain w i where g: "glyph f flags (char_index c) = Some (w, i)" "w \<le> 12" "i + w * font_HEIGHT f \<le> length (font_data f)"
      using glyph_in_font [OF assms(1) char_index_less] .
    show ?thesis
    proof (cases "x + int w \<ge> int (fb_width lcd)")
      case True
      then have "x \<noteq> 0" using g(2) by (auto simp: fb_width_def split: if_splits)
      then show ?thesis using True \<open>x < _\<close> g(1) Cons.prems by simp
    next
      case False
      obtain x1 buf1 where 1: "draw_char lcd f flags (8 * int a) (int (fb_width lcd)) w i x buf = Some (x1, buf1)" "0 \<le> x1"
          "drawn lcd a (a + font_HEIGHT f) buf buf1"
        using draw_char_draws [OF assms(1) Cons.prems(1) assms(3) Cons.prems(2) g(3)] by blast
      obtain n x2 buf2 where 2: "draw_text lcd f flags (8 * int a) (int (fb_width lcd)) str x1 buf1 = Some (n, x2, buf2)" "0 \<le> x2"
          "n \<le> length str" "drawn lcd a (a + font_HEIGHT f) buf1 buf2"
        using Cons.IH [OF 1(2), of buf1] Cons.prems(2) kept_length [OF 1(3)] by auto
      show ?thesis using True False g(1) 1(1) 2 kept_trans [OF 1(3) 2(4)] by simp
    qed
  next
    case False
    then have "x \<noteq> 0" by (auto simp: fb_width_def split: if_splits)
    then show ?thesis using False Cons.prems by simp
  qed
qed simp

lemma draw_blank_draws:
  assumes "font_ok f" "0 \<le> x" "a + font_HEIGHT f \<le> fb_height lcd div 8" "(a + font_HEIGHT f) * fb_width lcd \<le> length buf"
  shows "draws lcd a (a + font_HEIGHT f) buf (draw_blank lcd f flags (8 * int a) (int (fb_width lcd)) x buf)"
  using assms(2,4)
proof (induction "nat (int (fb_width lcd) - x)" arbitrary: x buf)
  case 0
  then show ?case by (simp add: draw_blank.simps)
next
  case (Suc k)
  then have x: "x < int (fb_width lcd)" by simp
  show ?case
    unfolding draw_blank.simps [of _ _ _ _ _ x] if_P [OF x]
  proof (rule keeps_bind)
    show "draws lcd a (a + font_HEIGHT f) buf
        (draw_column lcd x (8 * int a) (font_HEIGHT f) (blank_byte flags) [0..<font_HEIGHT f] buf)"
      using Suc.prems x assms(3) by (intro draw_column_draws) (auto simp: blank_byte_def)
  qed (use Suc in auto)
qed

lemma draw_font_draws:
  assumes "h = (if flags AND FONT_16PX \<noteq> 0 then 2 else 1)" "a + h \<le> fb_height lcd div 8" "(a + h) * fb_width lcd \<le> length buf"
  shows "\<exists>n buf'. draw_font lcd buf 0 (8 * int a) (int (fb_width lcd)) str flags = Some (n, buf') \<and>
    n \<le> length str \<and> (str \<noteq> [] \<longrightarrow> n > 0) \<and> drawn lcd a (a + h) buf buf'"
proof -
  let ?f = "select_font flags"
  have h: "font_HEIGHT ?f = h" using assms(1) by (simp add: select_font_height)
  obtain n x buf1 where 1: "draw_text lcd ?f flags (8 * int a) (int (fb_width lcd)) str 0 buf = Some (n, x, buf1)" "0 \<le> x"
      "n \<le> length str" "str \<noteq> [] \<longrightarrow> n > 0" "drawn lcd a (a + h) buf buf1"
    using draw_text_draws [OF select_font_ok order_refl, of a flags lcd buf flags str] assms h by auto
  have 2: "draws lcd a (a + h) buf1 (draw_blank lcd ?f flags (8 * int a) (int (fb_width lcd)) x buf1)"
    using draw_blank_draws [OF select_font_ok 1(2), of a flags lcd buf1 flags] assms h kept_length [OF 1(5)] by simp
  then show ?thesis using 1 kept_trans [OF 1(5)] by (auto simp: draw_font_def Let_def)
qed

section \<open>Lines of text\<close>

lemma drawn_wider: "drawn lcd a b x y \<Longrightarrow> a' \<le> a \<Longrightarrow> b \<le> b' \<Longrightarrow> drawn lcd a' b' x y"
  by (erule kept_wider) (rule mult_le_mono1, assumption)+

lemma disp_scroll_draws:
  assumes "NUM_DISP_LINES lcd * fb_width lcd \<le> length buf"
  shows "draws lcd 0 (NUM_DISP_LINES lcd) buf (disp_scroll lcd buf)"
proof -
  let ?w = "fb_width lcd" and ?n = "(NUM_DISP_LINES lcd - 1) * fb_width lcd"
  have "?w + ?n = NUM_DISP_LINES lcd * ?w" by (cases lcd) (simp_all add: NUM_DISP_LINES_def)
  then show ?thesis using assms by (simp add: disp_scroll_def fb_set_def Let_def kept_def add.commute)
qed

lemma scroll_up_draws:
  assumes "NUM_DISP_LINES lcd * fb_width lcd \<le> length buf" "h < NUM_DISP_LINES lcd"
  shows "\<exists>line' buf'. scroll_up lcd h line buf = Some (line', buf') \<and> line' + h < NUM_DISP_LINES lcd \<and>
    drawn lcd 0 (NUM_DISP_LINES lcd) buf buf'"
  using assms(1)
proof (induction line arbitrary: buf)
  case (Suc line)
  show ?case
  proof (cases "Suc line \<ge> NUM_DISP_LINES lcd - h")
    case True
    obtain buf1 where 1: "disp_scroll lcd buf = Some buf1" "drawn lcd 0 (NUM_DISP_LINES lcd) buf buf1"
      using disp_scroll_draws [OF Suc.prems] by auto
    then obtain line' buf' where "scroll_up lcd h line buf1 = Some (line', buf')" "line' + h < NUM_DISP_LINES lcd"
        "drawn lcd 0 (NUM_DISP_LINES lcd) buf1 buf'"
      using Suc.IH [of buf1] Suc.prems kept_length [OF 1(2)] by auto
    then show ?thesis using True 1 kept_trans [OF 1(2)] by simp
  qed (use Suc.prems assms(2) in simp)
qed (use assms(2) in simp)

text \<open>C23:
  A round of \<open>disp_line\<close>, whatever the text and the flags: it stays inside the frame buffer and below the
  last line of text leaves the picture as it is, the next line is on the display again, and the pointer moves
  inside the text and, unless the text is empty, forward.
\<close>

theorem text_stays_in_its_lines:
  assumes "NUM_DISP_LINES lcd * fb_width lcd \<le> length buf"
  shows "\<exists>len line' buf'. disp_round lcd str flags line buf = Some (len, line', buf') \<and>
    line' < NUM_DISP_LINES lcd \<and> len \<le> length str \<and> (len = 0 \<longleftrightarrow> str = []) \<and> length buf' = length buf \<and>
    drop (NUM_DISP_LINES lcd * fb_width lcd) buf' = drop (NUM_DISP_LINES lcd * fb_width lcd) buf"
proof -
  let ?N = "NUM_DISP_LINES lcd" and ?flags = "(FONT_FULL_WIDTH OR FONT_INVERT) XOR flags"
  define h :: nat where "h = (if flags AND FONT_16PX \<noteq> 0 then 2 else 1)"
  have N: "?N \<le> fb_height lcd div 8" "h < ?N" "(1::nat) + 1 < ?N"
    by (simp_all add: NUM_DISP_LINES_def fb_height_def h_def)
  have "bit ?flags 0 = bit flags 0" by (simp add: bit_xor_iff bit_or_iff)
  moreover have "v AND FONT_16PX \<noteq> 0 \<longleftrightarrow> bit v 0" for v :: u8
    by (simp add: and_one_eq bit_0 even_iff_mod_2_eq_zero)
  ultimately have h': "h = (if ?flags AND FONT_16PX \<noteq> 0 then 2 else 1)" unfolding h_def by simp
  obtain line1 buf1 where 1: "scroll_up lcd h line buf = Some (line1, buf1)" "line1 + h < ?N" "drawn lcd 0 ?N buf buf1"
    using scroll_up_draws [OF assms N(2)] by blast
  have fits: "k * fb_width lcd \<le> length b" if "k \<le> ?N" "length b = length buf" for k and b :: "u8 list"
    using mult_le_mono1 [OF that(1), of "fb_width lcd"] assms that(2) by linarith
  obtain len buf2 where 2: "draw_font lcd buf1 0 (8 * int line1) (int (fb_width lcd)) str ?flags = Some (len, buf2)"
      "len \<le> length str" "str \<noteq> [] \<longrightarrow> len > 0" "drawn lcd line1 (line1 + h) buf1 buf2"
    using draw_font_draws [OF h', of line1 lcd buf1 str] fits [of "line1 + h" buf1] 1(2) N(1) kept_length [OF 1(3)] by auto
  have d2: "drawn lcd 0 ?N buf buf2" using kept_trans [OF 1(3) drawn_wider [OF 2(4)]] 1(2) by simp
  obtain n buf3 where 3: "draw_font lcd buf2 0 (8 * int (line1 + h)) (int (fb_width lcd)) (str_bytes ''_'') (FONT_FULL_WIDTH OR FONT_INVERT)
      = Some (n, buf3)" "drawn lcd (line1 + h) (line1 + h + 1) buf2 buf3"
    using draw_font_draws [of 1 "FONT_FULL_WIDTH OR FONT_INVERT" "line1 + h" lcd buf2 "str_bytes ''_''"]
      fits [of "line1 + h + 1" buf2] 1(2) N(1) kept_length [OF d2] by auto
  have d3: "drawn lcd 0 ?N buf buf3" using kept_trans [OF d2 drawn_wider [OF 3(2)]] 1(2) by simp
  have line: "(if h = 2 then line1 + 1 else line1) + 1 = line1 + h" by (simp add: h_def)
  have len: "len = 0 \<longleftrightarrow> str = []" using 2(2,3) by auto
  have "disp_round lcd str flags line buf =
      (if flags AND NO_NEWLINE = 0 then Some (len, line1 + h, buf3) else Some (len, (if h = 2 then line1 + 1 else line1), buf2))"
    unfolding disp_round_def Let_def h_def [symmetric] 1(1) Option.bind.simps prod.case 2(1) line 3(1) by simp
  then show ?thesis using 1(2) 2(2) d2 d3 len line by (auto simp: kept_def)
qed

lemma text_stays_in_its_lines_witness:
  "\<exists>len line' buf'. disp_round False (str_bytes ''Factory test'') FONT_16PX 11 (replicate 37888 0) = Some (len, line', buf') \<and>
    line' < 12 \<and> len \<le> length (str_bytes ''Factory test'') \<and> (len = 0 \<longleftrightarrow> str_bytes ''Factory test'' = []) \<and>
    length buf' = 37888 \<and> drop 3552 buf' = replicate 34336 0"
proof -
  have "NUM_DISP_LINES False * fb_width False \<le> length (replicate 37888 (0 :: u8))"
    by (simp add: NUM_DISP_LINES_def fb_width_def)
  from text_stays_in_its_lines [OF this, of "str_bytes ''Factory test''" FONT_16PX 11] show ?thesis
    by (simp only: NUM_DISP_LINES_def fb_width_def if_False length_replicate drop_replicate) simp
qed

section \<open>Bars\<close>

lemma foldl_keeps:
  assumes "\<And>x b. x \<in> set xs \<Longrightarrow> length b = length buf \<Longrightarrow> keeps lo hi b (f x b)"
    and "keeps lo hi buf r"
  shows "keeps lo hi buf (foldl (\<lambda>r x. Option.bind r (f x)) r xs)"
  using assms
proof (induction xs arbitrary: r)
  case (Cons x xs)
  show ?case
    unfolding foldl_Cons
  proof (rule Cons.IH)
    show "keeps lo hi buf (Option.bind r (f x))"
      using Cons.prems by (intro keeps_bind) auto
  qed (use Cons.prems in auto)
qed simp

lemma clear_dot_keeps:
  assumes "int lo \<le> pos + x div 8" "pos + x div 8 < int hi" "hi \<le> length buf"
  shows "keeps lo hi buf (clear_dot pos x buf)"
proof -
  have "keeps lo hi buf (update_byte buf (nat (pos + x div 8)) f)" for f
    using assms by (intro update_byte_keeps) linarith+
  moreover have "\<not> pos + x div 8 < 0" using assms(1) by linarith
  ultimately show ?thesis by (simp add: clear_dot_def Let_def drop_bit_3)
qed

lemma fb_set_keeps: "lo \<le> p \<Longrightarrow> p + n \<le> hi \<Longrightarrow> hi \<le> length buf \<Longrightarrow> keeps lo hi buf (fb_set p n v buf)"
  by (simp add: fb_set_def kept_def)

text \<open>A 16-bit reading is at most 23 bytes to the left of its row.\<close>

lemma bar_coordinate_range:
  assumes "unat v < 2 ^ 16"
  shows "bar_coordinate v div 8 \<ge> -23" "bar_coordinate v div 8 \<le> 36" "bar_coordinate v \<le> 295"
proof -
  have "unat v < 65536" using assms by simp
  moreover have "uint v = int (unat v)" by simp
  ultimately have u: "uint v < 65536" "0 \<le> uint v" by linarith+
  have "- 2147483648 \<le> uint v - 180" "uint v - 180 < 2147483648" using u by linarith+
  then have "signed_take_bit 31 (uint v - 180) = uint v - 180"
    by (intro signed_take_bit_int_eq_self) (simp_all only: power_numeral pow.simps sqr.simps num.simps, simp_all)
  moreover have "v - 180 = word_of_int (uint v - 180)" by simp
  moreover have "sint (word_of_int k :: u32) = signed_take_bit 31 k" for k
    by (simp only: signed_of_int) simp
  ultimately have "sint (v - 180) = uint v - 180" by metis
  then have "-180 \<le> bar_coordinate v" "bar_coordinate v \<le> 295"
    unfolding bar_coordinate_def using u by linarith+
  then show "bar_coordinate v div 8 \<ge> -23" "bar_coordinate v div 8 \<le> 36" "bar_coordinate v \<le> 295"
    by linarith+
qed

lemma draw_bar_keeps:
  assumes "unat v < 2 ^ 16" "unat up < 2 ^ 16" "unat down < 2 ^ 16" "y < 8" "125 * 37 \<le> length buf"
  shows "keeps (100 * 37) (125 * 37) buf (draw_bar 296 v up down y buf)"
proof -
  let ?K = "keeps (100 * 37) (125 * 37)" and ?pos = "(102 + y * 3) * 37"
  note r = bar_coordinate_range [OF assms(1)] bar_coordinate_range [OF assms(2)] bar_coordinate_range [OF assms(3)]
  have p: "102 * 37 \<le> ?pos" "?pos \<le> 123 * 37" using assms(4) by simp_all
  have dot: "?K b (clear_dot q x b)"
    if "length b = length buf" "101 * 37 \<le> q" "q \<le> 124 * 37" "-23 \<le> x div 8" "x div 8 \<le> 36" for b q x
    using that assms(5) by (intro clear_dot_keeps) linarith+
  have bar: "?K b (foldl (\<lambda>r x. Option.bind r (clear_dot (int ?pos) (int x))) (Some b) (rev [0..<nat (bar_coordinate v + 1)]))"
    if "length b = length buf" for b
  proof (rule foldl_keeps)
    fix x c assume x: "x \<in> set (rev [0..<nat (bar_coordinate v + 1)])" and c: "length (c :: u8 list) = length b"
    then have "int x \<le> 295" using r(3) by auto
    then show "?K c (clear_dot (int ?pos) (int x) c)" using p c that by (intro dot) linarith+
  qed simp
  have set: "?K buf (fb_set (?pos - 37) (37 * 3) 0xff buf)"
    using p assms(5) by (intro fb_set_keeps) linarith+
  have pi: "102 * 37 \<le> int ?pos" "int ?pos \<le> 123 * 37" using p by linarith+
  have dots: "?K b (clear_dot (int ?pos - int 37) (bar_coordinate up) b)" "?K b (clear_dot (int ?pos) (bar_coordinate up) b)"
      "?K b (clear_dot (int ?pos) (bar_coordinate down) b)" "?K b (clear_dot (int ?pos + int 37) (bar_coordinate down) b)"
    if "length b = length buf" for b
    using pi r that by (intro dot; linarith)+
  have w: "296 div 8 = (37 :: nat)" by simp
  show ?thesis
    unfolding draw_bar_def Let_def w
    by (rule keeps_bind [OF set], rule keeps_bind [OF bar], assumption, rule keeps_bind [OF dots(1)], simp,
      rule keeps_bind [OF dots(2)], simp, rule keeps_bind [OF dots(3)], simp, rule dots(4), simp)
qed

text \<open>C24:
  The bars of the touch controller, for any 16-bit readings and baselines: drawing never leaves the frame
  buffer, and only the rows 100 to 124, below the text, change.
\<close>

theorem bars_stay_below_text:
  assumes "\<And>i. i < 8 \<Longrightarrow> unat (data ! i) < 2 ^ 16 \<and> unat (up ! i) < 2 ^ 16 \<and> unat (down ! i) < 2 ^ 16"
    and "125 * 37 \<le> length buf"
  shows "\<exists>buf'. draw_bars 296 data up down buf = Some buf' \<and> length buf' = length buf \<and>
    take (100 * 37) buf' = take (100 * 37) buf \<and> drop (125 * 37) buf' = drop (125 * 37) buf"
proof -
  have "keeps (100 * 37) (125 * 37) buf (draw_bars 296 data up down buf)"
    unfolding draw_bars_def
    by (rule foldl_keeps, rule draw_bar_keeps) (use assms in auto)
  then show ?thesis by (auto simp: kept_def)
qed

lemma bars_stay_below_text_witness:
  "\<exists>buf'. draw_bars 296 (replicate 8 0) (replicate 8 0xffff) (replicate 8 200) (replicate 37888 0xff) = Some buf' \<and>
    length buf' = 37888 \<and> take 3700 buf' = replicate 3700 0xff \<and> drop 4625 buf' = replicate 33263 0xff"
proof -
  have h: "unat (replicate 8 (0 :: u32) ! i) < 2 ^ 16 \<and> unat (replicate 8 (0xffff :: u32) ! i) < 2 ^ 16 \<and>
      unat (replicate 8 (200 :: u32) ! i) < 2 ^ 16" if "i < 8" for i
    using that by (simp only: nth_replicate) simp
  from bars_stay_below_text [OF h, of "replicate 37888 0xff"] show ?thesis by simp
qed

end
