(* ===== verification/Infrared.thy ===== *)
theory Infrared
  imports Badge_Infrared
begin

text \<open>
  The two infrared tasks of components/badge/badge_infrared.c, and what one badge receives of what another
  one sends.
\<close>

section \<open>Items in memory\<close>

text \<open>The bit fields of \<open>rmt_item32_t\<close>, lowest first.\<close>

definition rmt_item_of :: "nat \<Rightarrow> rmt_item32" where
  "rmt_item_of n = \<lparr>level0 = bit n 15, duration0 = n mod 2 ^ 15, level1 = bit n 31, duration1 = n div 2 ^ 16 mod 2 ^ 15\<rparr>"

definition rmt_item_val :: "rmt_item32 \<Rightarrow> nat" where
  "rmt_item_val i = duration0 i + of_bool (level0 i) * 2 ^ 15 + (duration1 i + of_bool (level1 i) * 2 ^ 15) * 2 ^ 16"

definition rmt_items_of :: "u8 list \<Rightarrow> rmt_item32 list" where
  "rmt_items_of bs = map (\<lambda>i. rmt_item_of (le_bytes (take 4 (drop (4 * i) bs)))) [0..<length bs div 4]"

section \<open>The tasks\<close>

text \<open>The receive task ends when nothing arrives in time; the frames it has reported, and the state.\<close>

partial_function (option) nec_rx_loop :: "int \<Rightarrow> fw \<Rightarrow> ((u16 \<times> u16) list \<times> fw) option" where
  "nec_rx_loop rb s =
     (let ((item, bs), s) = ext_bytes ''xRingbufferReceive'' [rb, 1000] s
      in if item = 0 then Some ([], s)
         else let s = snd (ext ''vRingbufferReturnItem'' [rb, item] s)
              in do { (frames, s) \<leftarrow> nec_rx_loop rb s; Some (nec_rx_frames (rmt_items_of bs) 0 @ frames, s) })"

definition rmt_example_nec_rx_task :: "fw \<Rightarrow> ((u16 \<times> u16) list \<times> fw) option" where
  "rmt_example_nec_rx_task s = do {
     (frames, s) \<leftarrow>
       (if defined_in s ''PIN_NUM_IR_RX''
        then let s = nec_rx_init s;
                 ((_, h), s) = ext_bytes ''rmt_get_ringbuf_handle'' [0] s;
                 rb = int (le_bytes (take 4 h));
                 s = snd (ext ''rmt_rx_start'' [0, 1] s)
             in if rb \<noteq> 0 then nec_rx_loop rb s else Some ([], s)
        else Some ([], s));
     Some (frames, snd (ext ''vTaskDelete'' [0] s))
   }"

text \<open>One round of the endless loop of the transmit task; a failed allocation is not noticed and \<open>memset\<close> writes to 0.\<close>

abbreviation RMT_TX_DATA_NUM :: nat where "RMT_TX_DATA_NUM \<equiv> 100"

definition nec_tx_round :: "fw \<Rightarrow> fw option" where
  "nec_tx_round s =
     (let item_num = NEC_DATA_ITEM_NUM * RMT_TX_DATA_NUM;
          (item, s) = ext ''malloc'' [int (4 * item_num)] s
      in if item = 0 then None
         else let items = nec_tx_items item_num 0x4242 0x1337;
                  s = snd (ext ''rmt_write_items'' (map (\<lambda>i. int (rmt_item_val i)) items) s);
                  s = snd (ext ''rmt_wait_tx_done'' [1, portMAX_DELAY] s);
                  s = snd (ext ''free'' [item] s)
              in Some (snd (ext ''vTaskDelay'' [2000 div macro s ''portTICK_PERIOD_MS''] s)))"

text \<open>What the transmit task does before its loop; without a transmitter it ends.\<close>

definition rmt_example_nec_tx_start :: "fw \<Rightarrow> fw" where
  "rmt_example_nec_tx_start s =
     (if defined_in s ''PIN_NUM_IR_TX'' then nec_tx_init (snd (ext ''vTaskDelay'' [10] s))
      else snd (ext ''vTaskDelete'' [0] s))"

section \<open>Received frames\<close>

text \<open>The receiver inverts the levels; a duration is measured with an error of at most 39 ticks, almost 49 microseconds.\<close>

definition heard_as :: "rmt_item32 \<Rightarrow> rmt_item32 \<Rightarrow> bool" where
  "heard_as a b \<longleftrightarrow> level0 b = (\<not> level0 a) \<and> level1 b = (\<not> level1 a) \<and>
     \<bar>int (duration0 b) - int (duration0 a)\<bar> \<le> 39 \<and> \<bar>int (duration1 b) - int (duration1 a)\<bar> \<le> 39"

lemma in_range_39:
  assumes "\<bar>int d - int t\<bar> \<le> 39" "t = us div 10 * 8" "10 dvd us" "us \<ge> 200" "us \<le> 10000"
  shows "nec_check_in_range d us NEC_BIT_MARGIN"
proof -
  obtain k where k: "us = 10 * k" using assms(3) by (auto simp: dvd_def)
  have d: "d \<le> 8 * k + 39" "8 * k \<le> d + 39" using assms(1,2) k by auto
  then have m: "d mod 0x8000 = d" using assms(5) k by simp
  define q where "q = d * 10 div 8"
  have q: "8 * q \<le> d * 10" "d * 10 < 8 * q + 8" unfolding q_def by linarith+
  have "q < us + 50" "int q > int us - int 50" using d q k by linarith+
  then show ?thesis unfolding nec_check_in_range_def nec_item_duration_def m q_def [symmetric] by simp
qed

lemma heard_header: "heard_as nec_fill_item_header b \<Longrightarrow> nec_header_if b"
  by (auto simp: heard_as_def nec_header_if_def nec_item_if_def nec_fill_item_header_def nec_fill_item_level_def intro!: in_range_39)

lemma heard_one: "heard_as nec_fill_item_bit_one b \<Longrightarrow> nec_bit_one_if b"
  by (auto simp: heard_as_def nec_bit_one_if_def nec_item_if_def nec_fill_item_bit_one_def nec_fill_item_level_def intro!: in_range_39)

lemma heard_zero: "heard_as nec_fill_item_bit_zero b \<Longrightarrow> nec_bit_zero_if b"
  by (auto simp: heard_as_def nec_bit_zero_if_def nec_item_if_def nec_fill_item_bit_zero_def nec_fill_item_level_def intro!: in_range_39)

lemma heard_zero_not_one: "heard_as nec_fill_item_bit_zero b \<Longrightarrow> \<not> nec_bit_one_if b"
  by (auto simp: heard_as_def nec_bit_one_if_def nec_item_if_def nec_fill_item_bit_zero_def nec_fill_item_level_def
      nec_check_in_range_def nec_item_duration_def)

lemma heard_end_not_header: "heard_as nec_fill_item_end b \<Longrightarrow> \<not> nec_header_if b"
  by (auto simp: heard_as_def nec_header_if_def nec_item_if_def nec_fill_item_end_def nec_fill_item_level_def
      nec_check_in_range_def nec_item_duration_def)

text \<open>The bits from \<open>j\<close> on.\<close>

lemma nec_parse_bits_heard:
  assumes "list_all2 heard_as (map (\<lambda>j. if bit v j then nec_fill_item_bit_one else nec_fill_item_bit_zero) [j..<16]) items" "j \<le> 16"
  shows "\<exists>w. nec_parse_bits items j acc = Some w \<and> (\<forall>k. bit w k \<longleftrightarrow> bit acc k \<or> j \<le> k \<and> bit (v :: u16) k)"
  using assms
proof (induction "16 - j" arbitrary: j items acc)
  case 0
  have "\<not> bit v k" if "16 \<le> k" for k using bit_imp_le_length [of v k] that by auto
  then show ?case using 0 by auto
next
  case (Suc n)
  then have j: "[j..<16] = j # [Suc j..<16]" "j < 16" by (simp_all add: upt_conv_Cons)
  obtain item rest where items: "items = item # rest"
      "heard_as (if bit v j then nec_fill_item_bit_one else nec_fill_item_bit_zero) item"
      "list_all2 heard_as (map (\<lambda>j. if bit v j then nec_fill_item_bit_one else nec_fill_item_bit_zero) [Suc j..<16]) rest"
    using Suc.prems(1) unfolding j(1) list.map list_all2_Cons1 by blast
  have one: "bit (acc OR push_bit j 1 :: u16) k \<longleftrightarrow> bit acc k \<or> k = j" for k
  proof -
    have "LENGTH(16) = 16" by simp
    then show ?thesis using j(2) by (auto simp only: bit_or_iff bit_push_1)
  qed
  let ?acc = "if bit v j then acc OR push_bit j 1 else acc"
  have "n = 16 - Suc j" using Suc.hyps(2) by simp
  from Suc.hyps(1) [OF this items(3), of ?acc] j(2)
  obtain w where w: "nec_parse_bits rest (Suc j) ?acc = Some w" "\<forall>k. bit w k \<longleftrightarrow> bit ?acc k \<or> Suc j \<le> k \<and> bit v k" by auto
  have "nec_parse_bits items j acc = Some w"
    using items(2) w(1) heard_one heard_zero heard_zero_not_one by (cases "bit v j") (simp_all add: items(1))
  moreover have "bit ?acc k \<or> Suc j \<le> k \<and> bit v k \<longleftrightarrow> bit acc k \<or> j \<le> k \<and> bit v k" for k
    by (cases "bit v j"; cases "k = j") (auto simp only: one if_True if_False le_eq_less_or_eq Suc_le_eq)
  ultimately show ?case using w(2) by blast
qed

lemma nec_parse_bits_whole:
  assumes "list_all2 heard_as (nec_build_bits v) items"
  shows "nec_parse_bits items 0 0 = Some v"
proof -
  obtain w where "nec_parse_bits items 0 0 = Some w" "\<forall>k. bit w k \<longleftrightarrow> bit v k"
    using nec_parse_bits_heard [of v 0 items 0] assms by (auto simp: nec_build_bits_def)
  then show ?thesis by (simp add: bit_eq_iff)
qed

lemma length_nec_build_bits [simp]: "length (nec_build_bits v) = 16"
  by (simp add: nec_build_bits_def)

text \<open>C22:
  What another badge sends is received: when the receiver hears the items of a frame with inverted levels and times
  that are off by no more than 39 ticks, the address and the command are those that were sent.  Whatever follows in
  the same buffer is not reported, a second frame included: the search goes on at the end mark of the first one.
\<close>

theorem sent_frame_is_received:
  assumes "nec_build_items room addr cmd = Some sent" and "list_all2 heard_as sent heard"
  shows "nec_parse_items (heard @ later) = Some (32, addr, cmd) \<and> nec_rx_frames (heard @ later) 0 = [(addr, cmd)]"
proof -
  have sent: "sent = nec_fill_item_header # nec_build_bits addr @ nec_build_bits cmd @ [nec_fill_item_end]"
    using assms(1) by (auto simp: nec_build_items_def split: if_splits)
  obtain h as cs e where heard: "heard = h # as @ cs @ [e]" "heard_as nec_fill_item_header h"
      "list_all2 heard_as (nec_build_bits addr) as" "list_all2 heard_as (nec_build_bits cmd) cs" "heard_as nec_fill_item_end e"
    using assms(2) unfolding sent by (auto simp: list_all2_Cons1 list_all2_append1)
  have l: "length as = 16" "length cs = 16" using heard(3,4) by (auto dest!: list_all2_lengthD)
  have parse: "nec_parse_items (heard @ later) = Some (32, addr, cmd)"
    using l heard_header [OF heard(2)] nec_parse_bits_whole [OF heard(3)] nec_parse_bits_whole [OF heard(4)]
    by (simp add: nec_parse_items_def heard(1))
  have "nec_parse_items (drop 33 (heard @ later)) = None"
    using l heard_end_not_header [OF heard(5)] by (simp add: nec_parse_items_def heard(1))
  then have "nec_rx_frames (heard @ later) 33 = []" by (simp add: nec_rx_frames.simps [of _ 33])
  then have "nec_rx_frames (heard @ later) 0 = [(addr, cmd)]"
    using parse by (simp add: nec_rx_frames.simps [of _ 0])
  then show ?thesis using parse by simp
qed

lemma sent_frame_is_received_witness:
  "\<exists>sent heard. nec_build_items 34 0x4242 0x1337 = Some sent \<and> length heard = 34 \<and>
    nec_parse_items (heard @ heard) = Some (32, 0x4242, 0x1337) \<and> nec_rx_frames (heard @ heard) 0 = [(0x4242, 0x1337)]"
proof -
  obtain sent where s: "nec_build_items 34 0x4242 0x1337 = Some sent" by (simp add: nec_build_items_def)
  define hear where "hear i = \<lparr>level0 = \<not> level0 i, duration0 = duration0 i + 7, level1 = \<not> level1 i, duration1 = duration1 i + 39\<rparr>"
    for i :: rmt_item32
  have "list_all2 heard_as sent (map hear sent)"
    by (simp add: list_all2_map2 list_all2_same heard_as_def hear_def)
  from sent_frame_is_received [OF s this, of "map hear sent"] s show ?thesis
    by (intro exI [of _ sent] exI [of _ "map hear sent"]) (auto simp: nec_build_items_def)
qed

end
