(* ===== verification/Modbadge.thy ===== *)
theory Modbadge
  imports First_Run Ymodem
begin

text \<open>
  The \<open>badge\<close> module of MicroPython (components/micropython/esp32/modbadge.c): what scripts call.

  An argument has the type the code converts it to (\<open>mp_obj_get_int\<close>, \<open>mp_obj_str_get_str\<close>); a conversion
  that raises is not modelled, nor is an exhausted heap of MicroPython.  Strings contain no zero.  A function answers an exception or an object with the
  new state; \<open>None\<close> is an access outside an object, an abort, or a call that does not return.
\<close>

section \<open>Objects and exceptions\<close>

datatype mp_exc = AttributeError string | ValueError string | OSError int

datatype mp_obj =
    mp_none
  | mp_int int
  | mp_bool bool
  | mp_str "u8 list"
  | mp_bytes "u8 list"
  | mp_tuple "mp_obj list"
  | mp_list "mp_obj list"
  | mp_dict "(string \<times> mp_obj) list"

type_synonym py = "((mp_exc + mp_obj) \<times> fw) option"

definition raise :: "mp_exc \<Rightarrow> fw \<Rightarrow> py" where
  "raise e s = Some (Inl e, s)"

definition ret :: "mp_obj \<Rightarrow> fw \<Rightarrow> py" where
  "ret x s = Some (Inr x, s)"

abbreviation MP_EIO :: int where "MP_EIO \<equiv> 5"

section \<open>Configuration\<close>

definition nvs_check_namespace :: "string \<Rightarrow> mp_exc option" where
  "nvs_check_namespace namespace =
     (if length namespace = 0 \<or> length namespace > 15 then Some (AttributeError ''Invalid namespace'') else None)"

definition nvs_check_namespace_key :: "string \<Rightarrow> string \<Rightarrow> mp_exc option" where
  "nvs_check_namespace_key namespace key =
     (case nvs_check_namespace namespace of
        Some e \<Rightarrow> Some e
      | None \<Rightarrow> if length key = 0 \<or> length key > 15 then Some (AttributeError ''Invalid key'') else None)"

text \<open>The rest of a function, unless a check has raised.\<close>

definition unless_raised :: "mp_exc option \<Rightarrow> (fw \<Rightarrow> py) \<Rightarrow> fw \<Rightarrow> py" where
  "unless_raised check f s = (case check of Some e \<Rightarrow> raise e s | None \<Rightarrow> f s)"

definition none_or_error :: "string \<Rightarrow> (esp_err \<times> 'a option) \<times> fw \<Rightarrow> py" where
  "none_or_error msg r = (let ((err, _), s) = r in if err \<noteq> ESP_OK then raise (ValueError msg) s else ret mp_none s)"

definition nvs_erase_all_py :: "string \<Rightarrow> fw \<Rightarrow> py" where
  "nvs_erase_all_py namespace =
     unless_raised (nvs_check_namespace namespace) (\<lambda>s.
       none_or_error ''Failed to erase all keys in nvs'' (badge_nvs_erase_all namespace s))"

definition nvs_erase_key_py :: "string \<Rightarrow> string \<Rightarrow> fw \<Rightarrow> py" where
  "nvs_erase_key_py namespace key =
     unless_raised (nvs_check_namespace_key namespace key) (\<lambda>s.
       none_or_error ''Failed to erase key in nvs'' (badge_nvs_erase_key namespace key s))"

text \<open>\<open>dflt\<close> is the optional third argument.\<close>

definition or_default :: "mp_obj option \<Rightarrow> mp_obj" where
  "or_default dflt = (case dflt of Some x \<Rightarrow> x | None \<Rightarrow> mp_none)"

definition nvs_get_str_py :: "string \<Rightarrow> string \<Rightarrow> mp_obj option \<Rightarrow> fw \<Rightarrow> py" where
  "nvs_get_str_py namespace key dflt =
     unless_raised (nvs_check_namespace_key namespace key) (\<lambda>s.
       let ((err, v), s) = badge_nvs_get_str namespace key 256 s
       in if err \<noteq> ESP_OK then ret (or_default dflt) s
          else case v of
              Some (len, value) \<Rightarrow> if len = 0 then None else ret (mp_str (take (len - 1) (fill_buffer 256 value))) s
            | None \<Rightarrow> None)"

definition nvs_set_str_py :: "string \<Rightarrow> string \<Rightarrow> string \<Rightarrow> fw \<Rightarrow> py" where
  "nvs_set_str_py namespace key value =
     unless_raised (nvs_check_namespace_key namespace key) (\<lambda>s.
       if length value > 255 then raise (AttributeError ''Value string too long'') s
       else none_or_error ''Failed to store data in nvs'' (badge_nvs_set_str namespace key value s))"

definition nvs_get_u8_py :: "string \<Rightarrow> string \<Rightarrow> mp_obj option \<Rightarrow> fw \<Rightarrow> py" where
  "nvs_get_u8_py namespace key dflt =
     unless_raised (nvs_check_namespace_key namespace key) (\<lambda>s.
       let ((err, v), s) = badge_nvs_get_u8 namespace key s
       in if err \<noteq> ESP_OK then ret (or_default dflt) s
          else ret (mp_int (case v of Some value \<Rightarrow> uint value | None \<Rightarrow> 0)) s)"

definition nvs_set_u8_py :: "string \<Rightarrow> string \<Rightarrow> int \<Rightarrow> fw \<Rightarrow> py" where
  "nvs_set_u8_py namespace key value =
     unless_raised (nvs_check_namespace_key namespace key) (\<lambda>s.
       if value < 0 \<or> value > 255 then raise (AttributeError ''Value out of range'') s
       else none_or_error ''Failed to store data in nvs'' (badge_nvs_set_u8 namespace key (word_of_int value) s))"

definition nvs_get_u16_py :: "string \<Rightarrow> string \<Rightarrow> mp_obj option \<Rightarrow> fw \<Rightarrow> py" where
  "nvs_get_u16_py namespace key dflt =
     unless_raised (nvs_check_namespace_key namespace key) (\<lambda>s.
       let ((err, v), s) = badge_nvs_get_u16 namespace key s
       in if err \<noteq> ESP_OK then ret (or_default dflt) s
          else ret (mp_int (case v of Some value \<Rightarrow> uint value | None \<Rightarrow> 0)) s)"

definition nvs_set_u16_py :: "string \<Rightarrow> string \<Rightarrow> int \<Rightarrow> fw \<Rightarrow> py" where
  "nvs_set_u16_py namespace key value =
     unless_raised (nvs_check_namespace_key namespace key) (\<lambda>s.
       if value < 0 \<or> value > 65535 then raise (AttributeError ''Value out of range'') s
       else none_or_error ''Failed to store data in nvs'' (badge_nvs_set_u16 namespace key (word_of_int value) s))"

section \<open>I2C and touch\<close>

definition i2c_check :: "int \<Rightarrow> int \<Rightarrow> mp_exc option" where
  "i2c_check addr reg =
     (if addr < 0 \<or> addr > 127 then Some (AttributeError ''I2C address out of range'')
      else if reg < 0 \<or> reg > 255 then Some (AttributeError ''I2C register out of range'')
      else None)"

definition i2c_read_reg_py :: "int \<Rightarrow> int \<Rightarrow> int \<Rightarrow> fw \<Rightarrow> py" where
  "i2c_read_reg_py addr reg len =
     unless_raised (i2c_check addr reg) (\<lambda>s.
       if len < 0 then raise (AttributeError ''requested negative amount of bytes'') s
       else do {
         ((res, value), s) \<leftarrow> badge_i2c_read_reg (word_of_int addr) (word_of_int reg) (nat len) s;
         if res \<noteq> ESP_OK then raise (OSError MP_EIO) s else ret (mp_bytes value) s
       })"

definition i2c_write_reg_py :: "int \<Rightarrow> int \<Rightarrow> bool \<Rightarrow> u8 list \<Rightarrow> fw \<Rightarrow> py" where
  "i2c_write_reg_py addr reg is_bytes data =
     unless_raised (i2c_check addr reg) (\<lambda>s.
       if \<not> is_bytes then raise (AttributeError ''Data should be a bytestring'') s
       else if length data \<noteq> 1 then raise (AttributeError ''Data-lengths other than 1 byte are not supported'') s
       else do {
         (res, s) \<leftarrow> badge_i2c_write_reg (word_of_int addr) (word_of_int reg) (hd data) s;
         if res \<noteq> ESP_OK then raise (OSError MP_EIO) s else ret mp_none s
       })"

definition touch_dict :: "badge_mpr121_touch_info \<Rightarrow> nat \<Rightarrow> mp_obj" where
  "touch_dict info i =
     mp_dict [(''data'', mp_int (uint (touch_data info ! i))), (''baseline'', mp_int (uint (touch_baseline info ! i))),
              (''touch'', mp_int (uint (touch_touch info ! i))), (''release'', mp_int (uint (touch_release info ! i)))]"

definition mpr121_get_touch_info_py :: "fw \<Rightarrow> py" where
  "mpr121_get_touch_info_py s = do {
     (res, s) \<leftarrow> badge_mpr121_get_touch_info s;
     case res of Inl _ \<Rightarrow> raise (OSError MP_EIO) s | Inr info \<Rightarrow> ret (mp_list (map (touch_dict info) [0..<8])) s
   }"

section \<open>Display and pictures\<close>

definition mp_call :: "fw option \<Rightarrow> py" where
  "mp_call r = Option.bind r (ret mp_none)"

definition has_epd :: "fw \<Rightarrow> bool" where
  "has_epd s = defined_in s ''PIN_NUM_EPD_RESET''"

definition eink_init_py :: "fw \<Rightarrow> py" where
  "eink_init_py s =
     mp_call (if has_epd s then map_option snd (badge_eink_init (eink_type_of (BADGE_EINK_DEFAULT s)) s) else Some s)"

definition eink_deep_sleep_py :: "fw \<Rightarrow> py" where
  "eink_deep_sleep_py s = mp_call (if has_epd s then badge_eink_deep_sleep s else Some s)"

definition eink_wakeup_py :: "fw \<Rightarrow> py" where
  "eink_wakeup_py s = mp_call (if has_epd s then badge_eink_wakeup s else Some s)"

definition eink_busy_py :: "fw \<Rightarrow> py" where
  "eink_busy_py s = (if has_epd s then let (b, s) = badge_eink_dev_is_busy s in ret (mp_bool b) s else ret (mp_bool False) s)"

definition eink_busy_wait_py :: "fw \<Rightarrow> py" where
  "eink_busy_wait_py s = mp_call (if has_epd s then badge_eink_dev_busy_wait s else Some s)"

text \<open>The name of a file in the file system of the ESP-IDF.\<close>

definition resolve_name :: "u8 list \<Rightarrow> fw \<Rightarrow> (mp_exc + u8 list) \<times> fw" where
  "resolve_name filename s =
     (let ((res, fullname), s) = physicalPathN filename s
      in (if res \<noteq> 0 \<or> length fullname = 0 then Inl (ValueError ''Error resolving file name'') else Inr fullname, s))"

definition native_path_py :: "u8 list \<Rightarrow> fw \<Rightarrow> py" where
  "native_path_py filename s =
     (case resolve_name filename s of (Inl e, s) \<Rightarrow> raise e s | (Inr fullname, s) \<Rightarrow> ret (mp_str fullname) s)"

text \<open>A picture is given as its bytes or as the name of a file.\<close>

datatype png_arg = Png_bytes "u8 list" | Png_file "u8 list"

text \<open>
  The memory from \<open>&badge_fb[pos]\<close> on.  For a negative \<open>pos\<close> it starts with bytes that are not part of the
  buffer; a write that changes one of them is an access outside the buffer.
\<close>

definition fb_from :: "int \<Rightarrow> u8 list \<Rightarrow> u8 list" where
  "fb_from pos buf = (if pos \<ge> 0 then drop (nat pos) buf else replicate (nat (- pos)) 0 @ buf)"

definition fb_put :: "int \<Rightarrow> u8 list \<Rightarrow> u8 list \<Rightarrow> u8 list option" where
  "fb_put pos buf dst =
     (if pos \<ge> 0 then Some (take (nat pos) buf @ dst)
      else if take (nat (- pos)) dst = replicate (nat (- pos)) 0 then Some (drop (nat (- pos)) dst) else None)"

definition png_result :: "'a cres \<Rightarrow> mp_obj \<Rightarrow> fw \<Rightarrow> py" where
  "png_result res x s =
     (case res of
        Ret _ \<Rightarrow> ret x s
      | Err e \<Rightarrow> raise (ValueError (''failed to load image: res = '' @ dec_int e)) s
      | _ \<Rightarrow> None)"

definition load_at :: "(nat \<Rightarrow> bool) \<Rightarrow> 's reader \<Rightarrow> 's \<Rightarrow> int \<Rightarrow> int \<Rightarrow> bool \<Rightarrow> u8 list \<Rightarrow> unit cres \<times> 's lib_png_reader \<times> u8 list" where
  "load_at mem rd p x y lcd buf =
     (let w = int (fb_width lcd)
      in lib_png_load_image rd lib_crc32 mem (word_of_int (if x < 0 then - x else 0)) (word_of_int (if y < 0 then - y else 0))
           (word_of_int (w - x)) (word_of_int (int (fb_height lcd) - y)) (word_of_int w) (lib_png_new p) (fb_from (y * w + x) buf))"

text \<open>Opening the source: the reader of a file, or of the bytes; \<open>Inl\<close> is the exception.\<close>

definition could_not_open :: "u8 list \<Rightarrow> mp_exc" where
  "could_not_open filename = ValueError (''Could not open file '' @ [CHR 0x27] @ map (\<lambda>b. char_of (unat b)) filename @ [CHR 0x27] @ ''!'')"

definition open_source :: "png_arg \<Rightarrow> fw \<Rightarrow> (mp_exc + int \<times> int) \<times> fw" where
  "open_source arg s =
     (case arg of
        Png_bytes bs \<Rightarrow>
          let (mr, s) = ext ''malloc'' [2] s in (if mr = 0 then Inl (ValueError ''out of memory!'') else Inr (0, mr), s)
      | Png_file filename \<Rightarrow>
          (case resolve_name filename s of
             (Inl e, s) \<Rightarrow> (Inl e, s)
           | (Inr fullname, s) \<Rightarrow>
               let (fd, s) = ext ''open'' (0 # map uint fullname @ [0]) s
               in if fd = -1 then (Inl (could_not_open filename), s)
                  else let (fr, s) = ext ''malloc'' [1024] s
                       in (if fr = 0 then Inl (could_not_open filename) else Inr (fd, fr), s)))"

definition close_source :: "png_arg \<Rightarrow> int \<times> int \<Rightarrow> fw \<Rightarrow> fw" where
  "close_source arg h s =
     (case arg of Png_bytes _ \<Rightarrow> snd (ext ''free'' [snd h] s) | Png_file _ \<Rightarrow> lib_file_destroy (fst h) (snd h) s)"

definition with_png_reader :: "png_arg \<Rightarrow> (int \<Rightarrow> fw \<Rightarrow> (('a cres \<times> mp_obj) \<times> fw) option) \<Rightarrow> fw \<Rightarrow> py" where
  "with_png_reader arg body s =
     (case open_source arg s of
        (Inl e, s) \<Rightarrow> raise e s
      | (Inr h, s) \<Rightarrow>
          let (pr, s) = ext ''malloc'' [0] s
          in if pr = 0 then raise (ValueError ''out of memory.'') (close_source arg h s)
             else do {
               ((res, x), s) \<leftarrow> body (fst h) s;
               png_result res x (close_source arg h s)
             })"

definition eink_png_py :: "(nat \<Rightarrow> bool) \<Rightarrow> int \<Rightarrow> int \<Rightarrow> png_arg \<Rightarrow> fw \<Rightarrow> py" where
  "eink_png_py mem x y arg s =
     (let lcd = has_erc s; pos = y * int (fb_width lcd) + x
      in if x \<ge> int (fb_width lcd) \<or> y \<ge> int (fb_height lcd) then raise (ValueError ''PNG too large!'') s
         else with_png_reader arg (\<lambda>fd s. do {
           buf \<leftarrow> badge_fb s;
           let (res, s, dst) =
             (case arg of
                Png_bytes bs \<Rightarrow> (case load_at mem lib_mem_read (lib_mem_new bs) x y lcd buf of (res, _, dst) \<Rightarrow> (res, s, dst))
              | Png_file _ \<Rightarrow>
                  (case load_at mem (lib_file_read os_read) (lib_file_new (fd, s) 1024) x y lcd buf of
                     (res, pr, dst) \<Rightarrow> (res, png_fw pr, dst)));
           buf \<leftarrow> fb_put pos buf dst;
           Some ((res, mp_none), s\<lparr>badge_fb := Some buf\<rparr>)
         }) s)"

definition png_tuple :: "lib_png_ihdr \<Rightarrow> mp_obj" where
  "png_tuple h = mp_tuple [mp_int (uint (ih_width h)), mp_int (uint (ih_height h)), mp_int (uint (bit_depth h)), mp_int (uint (color_type h))]"

definition eink_png_info_py :: "png_arg \<Rightarrow> fw \<Rightarrow> py" where
  "eink_png_info_py arg =
     with_png_reader arg (\<lambda>fd s.
       case arg of
         Png_bytes bs \<Rightarrow>
           (case lib_png_read_header lib_mem_read lib_crc32 (lib_png_new (lib_mem_new bs)) of
              (res, pr) \<Rightarrow> Some ((res, png_tuple (ihdr pr)), s))
       | Png_file _ \<Rightarrow>
           (case lib_png_read_header (lib_file_read os_read) lib_crc32 (lib_png_new (lib_file_new (fd, s) 1024)) of
              (res, pr) \<Rightarrow> Some ((res, png_tuple (ihdr pr)), png_fw pr)))"

definition eink_display_raw_py :: "bool \<Rightarrow> u8 list \<Rightarrow> int \<Rightarrow> fw \<Rightarrow> py" where
  "eink_display_raw_py is_bytes buffer flags s =
     (let size = fb_width (has_erc s) * fb_height (has_erc s)
      in if \<not> is_bytes then raise (AttributeError ''First argument should be a bytestring'') s
         else if length buffer \<noteq> (if bit flags 0 then size else size div 8)
         then raise (AttributeError ''First argument has wrong length'') s
         else mp_call (badge_eink_display (Some buffer) flags s))"

definition lcd_display_raw_py :: "bool \<Rightarrow> u8 list \<Rightarrow> fw \<Rightarrow> py" where
  "lcd_display_raw_py is_bytes buffer s =
     (if \<not> is_bytes then raise (AttributeError ''First argument should be a bytestring'') s
      else if length buffer \<noteq> 128 * 64 div 8 then raise (AttributeError ''First argument has wrong length'') s
      else mp_call (map_option snd (badge_erc12864_write buffer s)))"

definition lcd_set_rotation_py :: "int \<Rightarrow> fw \<Rightarrow> py" where
  "lcd_set_rotation_py rotation s = ret mp_none (badge_erc12864_set_rotation (rotation \<noteq> 0) s)"

section \<open>Power, LEDs, vibrator, co-processor\<close>

text \<open>A function whose result is returned as a number.\<close>

definition mp_number :: "(int \<times> fw) option \<Rightarrow> py" where
  "mp_number r = Option.bind r (\<lambda>(v, s). ret (mp_int v) s)"

definition power_init_py :: "fw \<Rightarrow> py" where
  "power_init_py s = mp_call (map_option snd (badge_power_init s))"

definition battery_charge_status_py :: "fw \<Rightarrow> py" where
  "battery_charge_status_py s = Option.bind (badge_battery_charge_status s) (\<lambda>(b, s). ret (mp_bool b) s)"

definition battery_volt_sense_py :: "fw \<Rightarrow> py" where
  "battery_volt_sense_py s = mp_number (badge_battery_volt_sense s)"

definition usb_volt_sense_py :: "fw \<Rightarrow> py" where
  "usb_volt_sense_py s = mp_number (badge_usb_volt_sense s)"

definition power_leds_enable_py :: "fw \<Rightarrow> py" where
  "power_leds_enable_py s = mp_number (badge_power_leds_enable s)"

definition power_leds_disable_py :: "fw \<Rightarrow> py" where
  "power_leds_disable_py s = mp_number (badge_power_leds_disable s)"

definition power_sdcard_enable_py :: "fw \<Rightarrow> py" where
  "power_sdcard_enable_py s = mp_number (badge_power_sdcard_enable s)"

definition power_sdcard_disable_py :: "fw \<Rightarrow> py" where
  "power_sdcard_disable_py s = mp_number (badge_power_sdcard_disable s)"

definition leds_init_py :: "fw \<Rightarrow> py" where
  "leds_init_py s = mp_call (map_option snd (badge_leds_init s))"

definition leds_enable_py :: "fw \<Rightarrow> py" where
  "leds_enable_py s = mp_number (badge_leds_enable s)"

definition leds_disable_py :: "fw \<Rightarrow> py" where
  "leds_disable_py s = mp_number (badge_leds_disable s)"

text \<open>A second argument that differs from the length only prints a message.\<close>

definition leds_send_data_py :: "u8 list \<Rightarrow> fw \<Rightarrow> py" where
  "leds_send_data_py colours s = mp_number (badge_leds_send_data colours s)"

definition vibrator_init_py :: "fw \<Rightarrow> py" where
  "vibrator_init_py s = mp_call (map_option snd (badge_vibrator_init s))"

definition vibrator_activate_py :: "int \<Rightarrow> fw \<Rightarrow> py" where
  "vibrator_activate_py p s = mp_call (badge_vibrator_activate (word_of_int p) s)"

definition vibrator_set_py :: "int \<Rightarrow> fw \<Rightarrow> py" where
  "vibrator_set_py v s = mp_call (badge_vibrator_set (v \<noteq> 0) s)"

definition backlight_py :: "int \<Rightarrow> fw \<Rightarrow> py" where
  "backlight_py v s = mp_call (map_option snd (badge_disobey_samd_write_backlight (word_of_int v) s))"

definition led_py :: "int \<Rightarrow> int \<Rightarrow> int \<Rightarrow> int \<Rightarrow> fw \<Rightarrow> py" where
  "led_py led r g b s =
     mp_call (map_option snd (badge_disobey_samd_write_led (word_of_int led) (word_of_int r) (word_of_int g) (word_of_int b) s))"

definition buzzer_py :: "int \<Rightarrow> int \<Rightarrow> fw \<Rightarrow> py" where
  "buzzer_py freq duration s = mp_call (map_option snd (badge_disobey_samd_write_buzzer (word_of_int freq) (word_of_int duration) s))"

definition off_py :: "fw \<Rightarrow> py" where
  "off_py s = mp_call (map_option snd (badge_disobey_samd_write_off s))"

definition read_usb_py :: "fw \<Rightarrow> py" where
  "read_usb_py s = mp_number (badge_disobey_samd_read_usb s)"

definition read_battery_py :: "fw \<Rightarrow> py" where
  "read_battery_py s = mp_number (badge_disobey_samd_read_battery s)"

definition read_touch_py :: "fw \<Rightarrow> py" where
  "read_touch_py s = mp_number (badge_disobey_samd_read_touch s)"

definition read_state_py :: "fw \<Rightarrow> py" where
  "read_state_py s = mp_number (badge_disobey_samd_read_state s)"

definition safe_mode_py :: "bool \<Rightarrow> fw \<Rightarrow> py" where
  "safe_mode_py in_safe_mode = ret (mp_bool in_safe_mode)"

definition firmware_build_py :: "fw \<Rightarrow> py" where
  "firmware_build_py s = ret (mp_int (macro s ''CONFIG_SHA_BADGE_FIRMWARE_BUILD'')) s"

definition firmware_name_py :: "string \<Rightarrow> fw \<Rightarrow> py" where
  "firmware_name_py name = ret (mp_str (str_bytes name))"

section \<open>The partition table\<close>

definition partitions_16MB_bin :: "u8 list" where
  "partitions_16MB_bin =
    [0xaa, 0x50, 0x01, 0x02, 0x00, 0x90, 0x00, 0x00, 0x00, 0x40, 0x00, 0x00, 0x6e, 0x76, 0x73, 0x00, 0x00, 0x00, 0x00, 0x00,
     0x00, 0x00, 0x00, 0x00, 0x00, 0x00, 0x00, 0x00, 0x00, 0x00, 0x00, 0x00, 0xaa, 0x50, 0x01, 0x00, 0x00, 0xd0, 0x00, 0x00,
     0x00, 0x20, 0x00, 0x00, 0x6f, 0x74, 0x61, 0x64, 0x61, 0x74, 0x61, 0x00, 0x00, 0x00, 0x00, 0x00, 0x00, 0x00, 0x00, 0x00,
     0x00, 0x00, 0x00, 0x00, 0xaa, 0x50, 0x01, 0x01, 0x00, 0xf0, 0x00, 0x00, 0x00, 0x10, 0x00, 0x00, 0x70, 0x68, 0x79, 0x5f,
     0x69, 0x6e, 0x69, 0x74, 0x00, 0x00, 0x00, 0x00, 0x00, 0x00, 0x00, 0x00, 0x00, 0x00, 0x00, 0x00, 0xaa, 0x50, 0x00, 0x10,
     0x00, 0x00, 0x01, 0x00, 0x00, 0x00, 0x18, 0x00, 0x6f, 0x74, 0x61, 0x5f, 0x30, 0x00, 0x00, 0x00, 0x00, 0x00, 0x00, 0x00,
     0x00, 0x00, 0x00, 0x00, 0x00, 0x00, 0x00, 0x00, 0xaa, 0x50, 0x00, 0x11, 0x00, 0x00, 0x19, 0x00, 0x00, 0x00, 0x18, 0x00,
     0x6f, 0x74, 0x61, 0x5f, 0x31, 0x00, 0x00, 0x00, 0x00, 0x00, 0x00, 0x00, 0x00, 0x00, 0x00, 0x00, 0x00, 0x00, 0x00, 0x00,
     0xaa, 0x50, 0x01, 0x81, 0x00, 0x00, 0x31, 0x00, 0x00, 0x00, 0xcf, 0x00, 0x6c, 0x6f, 0x63, 0x66, 0x64, 0x00, 0x00, 0x00,
     0x00, 0x00, 0x00, 0x00, 0x00, 0x00, 0x00, 0x00, 0x00, 0x00, 0x00, 0x00]"

abbreviation PARTITIONS_LOCATION :: nat where "PARTITIONS_LOCATION \<equiv> 0x8000"

text \<open>A read into \<open>check\<close>; a failed read may have filled a part of it.\<close>

definition read_partitions :: "u8 list \<Rightarrow> fw \<Rightarrow> (esp_err \<times> u8 list) \<times> fw" where
  "read_partitions check s =
     (let ((err, bs), s) = ext_bytes ''spi_flash_read'' [int PARTITIONS_LOCATION, 192] s
      in ((err, take 192 (bs @ drop (length bs) check)), s))"

definition remove_bpp_partition :: "int \<Rightarrow> fw \<Rightarrow> bool \<times> fw" where
  "remove_bpp_partition key s =
     (let ((err, check), s) = read_partitions (replicate 192 0) s in
      if err \<noteq> ESP_OK then (False, s)
      else if check = partitions_16MB_bin then (True, s)
      else if key \<noteq> 0x35C3 then (False, s)
      else
        let (err, s) = ext ''spi_flash_erase_sector'' [int (PARTITIONS_LOCATION div SPI_FLASH_SEC_SIZE)] s;
            s = (if err \<noteq> ESP_OK then s
                 else snd (ext ''spi_flash_write'' (int PARTITIONS_LOCATION # map uint partitions_16MB_bin) s));
            ((err, check), s) = read_partitions check s
        in (check = partitions_16MB_bin, s))"

end
