(* ===== verification/Modbadge_Proofs.thy ===== *)
theory Modbadge_Proofs
  imports Modbadge Locfd_Proofs
begin

text \<open>
  Scripts and the configuration: what is stored through the \<open>badge\<close> module is read back, whatever else happens
  to other keys.  The NVS library is specified by what a history of calls has stored.
\<close>

section \<open>What a history of calls has stored\<close>





section \<open>Sessions\<close>











section \<open>What the configuration functions do\<close>











section \<open>Scripts\<close>



























section \<open>What is stored is read\<close>


















end
