(* ===== verification/Modbadge_Scripts.thy ===== *)
theory Modbadge_Scripts
  imports Modbadge
begin

text \<open>
  What scripts can do to the hardware through the \<open>badge\<close> module: the update of the partition table, specified by
  the contents of the flash that a history of calls leaves, and reads from the I2C bus.
\<close>

section \<open>The contents of the flash\<close>

text \<open>
  The first 192 bytes of the sector of the partition table, when they are known: erasing sets every bit, writing
  clears bits, and an operation that fails leaves the contents unknown.
\<close>

fun table_at :: "u8 list \<Rightarrow> environment \<Rightarrow> ext_call list \<Rightarrow> u8 list option" where
  "table_at ini e [] = Some ini"
| "table_at ini e (Ext f args # tr) =
     (if f = ''spi_flash_erase_sector'' \<and> args = [8] then
        (if fst (e (Ext f args # tr)) = ESP_OK then Some (replicate 192 (- 1)) else None)
      else if f = ''spi_flash_write'' \<and> args \<noteq> [] \<and> hd args = int PARTITIONS_LOCATION \<and> length args = 193 then
        (if fst (e (Ext f args # tr)) = ESP_OK
         then map_option (\<lambda>old. map2 and old (map word_of_int (tl args))) (table_at ini e tr) else None)
      else table_at ini e tr)"

abbreviation table_read :: ext_call where
  "table_read \<equiv> Ext ''spi_flash_read'' [int PARTITIONS_LOCATION, 192]"

text \<open>The documented behaviour of a read: when it succeeds it answers the contents.\<close>

definition flash_reads :: "u8 list \<Rightarrow> environment \<Rightarrow> bool" where
  "flash_reads ini e \<longleftrightarrow> (\<forall>tr t. table_at ini e tr = Some t \<longrightarrow>
     fst (e (table_read # tr)) = ESP_OK \<longrightarrow> snd (e (table_read # tr)) = t)"

definition table_of :: "u8 list \<Rightarrow> fw \<Rightarrow> u8 list option" where
  "table_of ini s = table_at ini (env s) (trace s)"

lemma length_partitions [simp]: "length partitions_16MB_bin = 192"
  by (simp add: partitions_16MB_bin_def)

lemma read_partitions_keeps:
  "env (snd (read_partitions check s)) = env s" "table_of ini (snd (read_partitions check s)) = table_of ini s"
  by (simp_all add: read_partitions_def table_of_def ext_bytes_def Let_def case_prod_beta)

lemma read_partitions_contents:
  assumes "flash_reads ini (env s)" "table_of ini s = Some t" "length t = 192"
    and "fst (fst (read_partitions check s)) = ESP_OK"
  shows "snd (fst (read_partitions check s)) = t"
  using assms by (simp add: flash_reads_def read_partitions_def table_of_def ext_bytes_def Let_def case_prod_beta)

lemma read_partitions_ok: "fst (fst (read_partitions check s)) = fst (env s (table_read # trace s))"
  by (simp add: read_partitions_def ext_bytes_def Let_def case_prod_beta)

lemma erased_and: "length xs = n \<Longrightarrow> map2 and (replicate n (- 1 :: u8)) xs = xs"
  by (induction xs arbitrary: n) auto

definition rewritten :: "fw \<Rightarrow> fw" where
  "rewritten s = (let (err, s) = ext ''spi_flash_erase_sector'' [int (PARTITIONS_LOCATION div SPI_FLASH_SEC_SIZE)] s
     in if err \<noteq> ESP_OK then s else snd (ext ''spi_flash_write'' (int PARTITIONS_LOCATION # map uint partitions_16MB_bin) s))"

lemma partitions_sector: "int (PARTITIONS_LOCATION div SPI_FLASH_SEC_SIZE) = 8"
  by (simp add: SPI_FLASH_SEC_SIZE_def)

lemma table_of_rewritten:
  "table_of ini (rewritten s) \<in> {None, Some partitions_16MB_bin}"
  "(\<And>tr. fst (env s tr) = ESP_OK) \<Longrightarrow> table_of ini (rewritten s) = Some partitions_16MB_bin" "env (rewritten s) = env s"
  by (simp_all add: rewritten_def partitions_sector table_of_def Let_def case_prod_beta comp_def erased_and)

text \<open>The update runs only with the key on a table that differs; otherwise nothing but a read happens.\<close>

lemma remove_bpp_partition_cases:
  assumes "remove_bpp_partition key s = (ok, s')"
  obtains "s' = snd (read_partitions (replicate 192 0) s)"
      "ok \<longleftrightarrow> fst (fst (read_partitions (replicate 192 0) s)) = ESP_OK \<and> snd (fst (read_partitions (replicate 192 0) s)) = partitions_16MB_bin"
      "ok \<or> key \<noteq> 0x35C3 \<or> fst (fst (read_partitions (replicate 192 0) s)) \<noteq> ESP_OK"
  | s1 check where "key = 0x35C3" "fst (fst (read_partitions (replicate 192 0) s)) = ESP_OK"
      "check = snd (fst (read_partitions (replicate 192 0) s))" "check \<noteq> partitions_16MB_bin"
      "s1 = rewritten (snd (read_partitions (replicate 192 0) s))"
      "s' = snd (read_partitions check s1)" "ok \<longleftrightarrow> snd (fst (read_partitions check s1)) = partitions_16MB_bin"
  using assms unfolding remove_bpp_partition_def Let_def case_prod_beta rewritten_def
  by (auto split: if_split_asm)

text \<open>C25:
  The update of the partition table, which may leave a badge that does not start, touches the flash only with the
  key and when the table is not the new one; it never leaves known contents other than the old or the new table,
  answers True for the new one only (when the reads succeed), and succeeds with a flash that works.
\<close>

theorem partition_update_is_guarded:
  assumes "flash_reads ini (env s)" and "table_of ini s = Some t" and "length t = 192"
    and "remove_bpp_partition key s = (ok, s')"
  shows "(key \<noteq> 0x35C3 \<or> t = partitions_16MB_bin \<longrightarrow> table_of ini s' = Some t) \<and>
    table_of ini s' \<in> {None, Some t, Some partitions_16MB_bin} \<and>
    ((\<forall>tr. fst (env s (table_read # tr)) = ESP_OK) \<longrightarrow> ok \<longrightarrow> table_of ini s' \<in> {None, Some partitions_16MB_bin}) \<and>
    ((\<forall>tr. fst (env s tr) = ESP_OK) \<longrightarrow> key = 0x35C3 \<longrightarrow> ok \<and> table_of ini s' = Some partitions_16MB_bin)"
  using assms(4)
proof (cases rule: remove_bpp_partition_cases)
  case 1
  let ?p = "read_partitions (replicate 192 0) s"
  have t: "table_of ini s' = Some t" using 1(1) assms(2) by (simp add: read_partitions_keeps)
  have r: "fst (fst ?p) = ESP_OK \<Longrightarrow> snd (fst ?p) = t" by (rule read_partitions_contents [OF assms(1-3)])
  have "fst (fst ?p) = ESP_OK" if "\<forall>tr. fst (env s tr) = ESP_OK"
    using that by (simp add: read_partitions_ok)
  then show ?thesis using 1 t r by auto
next
  case (2 s1 check)
  let ?s0 = "snd (read_partitions (replicate 192 0) s)"
  have "check = t" using read_partitions_contents [OF assms(1-3) 2(2)] 2(3) by simp
  then have d: "t \<noteq> partitions_16MB_bin" using 2(4) by simp
  have e: "env s1 = env s" using 2(5) by (simp add: table_of_rewritten read_partitions_keeps)
  have t1: "table_of ini s' = table_of ini s1" using 2(6) by (simp add: read_partitions_keeps)
  have n: "table_of ini s1 \<in> {None, Some partitions_16MB_bin}" unfolding 2(5) by (rule table_of_rewritten(1))
  have "ok \<and> table_of ini s1 = Some partitions_16MB_bin" if "\<forall>tr. fst (env s tr) = ESP_OK"
  proof -
    have t2: "table_of ini s1 = Some partitions_16MB_bin"
      using table_of_rewritten(2) [of ?s0] that 2(5) by (simp add: read_partitions_keeps)
    have "fst (fst (read_partitions check s1)) = ESP_OK" using that e by (simp add: read_partitions_ok)
    then show ?thesis using read_partitions_contents [of ini s1 partitions_16MB_bin check] assms(1) e t2 2(7) by simp
  qed
  then show ?thesis using n t1 d 2(1) by auto
qed

text \<open>A flash that works, with an empty table.\<close>

definition working_flash :: environment where
  "working_flash tr = (case tr of
     Ext f args # tr \<Rightarrow>
       (0, if f = ''spi_flash_read'' then the (table_at (replicate 192 0) (\<lambda>_. (0, [])) tr) else [])
   | [] \<Rightarrow> (0, []))"

lemma working_flash_ok: "fst (working_flash tr) = 0"
  by (simp add: working_flash_def split: list.split ext_call.split)

lemma table_at_working: "table_at ini working_flash tr = table_at ini (\<lambda>_. (0, [])) tr"
proof (induction tr)
  case (Cons c tr)
  then show ?case by (cases c) (simp add: working_flash_ok)
qed simp

lemma partition_update_is_guarded_witness:
  "fst (remove_bpp_partition 0x35C3 (power_on working_flash Map.empty)) \<and>
   table_of (replicate 192 0) (snd (remove_bpp_partition 0x35C3 (power_on working_flash Map.empty))) = Some partitions_16MB_bin"
proof -
  let ?s = "power_on working_flash Map.empty"
  have "flash_reads (replicate 192 0) (env ?s)"
    by (simp add: flash_reads_def table_at_working power_on_def) (simp add: working_flash_def)
  moreover have "table_of (replicate 192 0) ?s = Some (replicate 192 0)" by (simp add: table_of_def power_on_def)
  moreover have "fst (env ?s tr) = ESP_OK" for tr
    by (simp add: power_on_def working_flash_ok)
  ultimately show ?thesis
    using partition_update_is_guarded [of "replicate 192 0" ?s "replicate 192 0" "0x35C3"] by (metis length_replicate prod.collapse)
qed

section \<open>Reads from the I2C bus\<close>





end
