(* ===== verification/Spec2Isabelle.thy ===== *)
theory Spec2Isabelle
  imports Checksums Readers Inflate_Safety Png_Proofs Redundancy_Total Ota_Proofs Locfd_Proofs Ymodem_Transfer Rtcmem First_Run_Proofs Infrared Modbadge_Proofs Modbadge_Scripts
begin

text \<open>
  The firmware of the HackerHotel 2019 badge (ESP32): what its own C code does and why it is right.

  \<^bold>\<open>The program.\<close>  After a reset \<open>app_main\<close> (src/main/main.c) lets \<open>badge_check_first_run\<close> run the self test of a new
  badge, initialises the drivers of src/components/badge through \<open>badge_init\<close>, and starts what a byte in the memory
  that survives deep sleep selects: MicroPython, the update over HTTPS (src/components/badge-ota) or the self test
  (src/components/badge-first-run).  The drivers share two buses, I2C (\<open>badge_i2c.c\<close>) and VSPI (\<open>badge_spi.c\<close>); the
  port expander or the touch controller sits between some of them and their pins, and the pin header
  (\<open>badge_pins.h\<close>) decides which.  Events of the touch controllers and buttons end in the queue of \<open>badge_input.c\<close>.
  Pictures come from the PNG library (src/components/png), the archive unpacked by the self test goes through its
  deflate decoder, text through src/components/graph, and the graphics library uGFX, a submodule, draws through
  src/components/ugfx-glue.  src/components/redundancy is an erasure code; src/components/micropython/esp32 adds the
  YModem file transfer, the access to the memory that survives deep sleep and the \<open>badge\<close> module, through which
  scripts use the drivers, to MicroPython.

  \<^bold>\<open>How the code is modelled.\<close>  Two styles, by what a component does.

  \<^item> The PNG library, the erasure code and the unpacking of the archive compute on buffers.  Their functions answer a
    \<open>cres\<close> of Badge_Prelude: \<open>Ret\<close> a value, \<open>Err\<close> a negative error code, \<open>Oob\<close> an access outside an
    object, \<open>Spin\<close> a loop that does not return.  A theorem that excludes \<open>Oob\<close> is a memory-safety theorem and one that
    excludes \<open>Spin\<close> a termination theorem.  Where bytes come from is a function pointer in the code and the type
    \<open>reader\<close> here; the locale \<open>byte_source\<close> says what its users rely on.
  \<^item> The drivers, the updater, the self test and the MicroPython modules call the ESP-IDF, FreeRTOS, the TLS library, the
    file system and the hardware, none of which is in the repository.  Such a call is \<open>ext\<close> or \<open>ext_bytes\<close> (Badge_World):
    it is added to \<open>trace\<close>, and its answer is an arbitrary function \<open>env\<close> of the whole history, so every theorem holds
    for every behaviour of the outside world.  The state \<open>fw\<close> has one field per static variable of the C files,
    \<open>config\<close> is the set of macros of the build, and \<open>None\<close> is an \<open>assert\<close> or \<open>abort\<close>, an access outside an array, or a
    loop that does not return.  In Ota and First_Run \<open>Some (None, s)\<close> is the early end of a task.

  Machine integers are words of the width of the C type where wrap-around can matter and \<open>int\<close> or \<open>nat\<close> where the code
  keeps them in range.  Loops are structural recursion or recursion with a measure.  Loops that may wait for ever are
  \<open>partial_function (option)\<close>; the endless loops of tasks are modelled by their round.  Fuel occurs once: the
  inversion of the erasure code (\<open>gbf_inv_loop\<close>) gets 16 rounds, one per bit of an element, and Redundancy_Field shows
  that every nonzero element is inverted within them.

  \<^bold>\<open>Theories and sources.\<close>

  \<^item> Badge_Prelude: the C integer types, \<open>cres\<close> with its rules, \<open>loop_c\<close>, lemmas on lists and bits.
  \<^item> Checksums (png/adler32.c, crc32.c), Readers (mem_reader.c, file_reader.c, flash_reader.c), Inflate_Bits,
    Inflate_Huffman, Inflate (deflate_reader.c), Png_Chunks, Png_Decode (png_reader.c).  Inflate_Safety proves that the
    decoder is safe and returns on every input; Inflate_Huffman, that decoding is canonical; Png_Proofs, that the
    filters are those of the specification, that the interlacing passes partition the image, and pixel bounds.
  \<^item> Redundancy (redundancy.c) with Redundancy_Field (the arithmetic is polynomial arithmetic), Redundancy_Code (linear
    algebra) and Redundancy_Total (it is a field, so decoding succeeds for distinct nonzero vectors).
  \<^item> Badge_World, and one theory per driver: Badge_Input (badge_base.c, badge_input.c, badge_gpiobutton.c), Badge_I2c,
    Badge_Fxl6408 (with the locale \<open>cached_register\<close>, interpreted for the seven registers), Badge_Mpr121, Badge_Touch
    (badge_cpt112s.c, badge_disobey_samd.c), Badge_Spi (badge_spi.c, badge_eink_dev.c and the bus functions of the
    LEDs), Badge_Lut, Badge_Eink, Badge_Display (badge_erc12864.c, badge_fb.c), Badge_Power (power, LEDs, vibrator, SD
    card), Badge_Nvs, Badge_Infrared with Infrared (its tasks and their round trip), Badge_Pins, Badge_Main (badge.c, main.c).
  \<^item> Graphics (graphics.c and the uGFX glue): drawing and reading of pixels in every orientation.
  \<^item> Ota (badge_ota.c), Ota_Response (what a response as a whole says, and that reading it in pieces agrees), Ota_Safety
    (what the task does to the flash), Ota_Proofs (the properties and an example of a whole update).
  \<^item> Locfd (\<open>badge_init_locfd\<close>), Locfd_Proofs (the files and directories of the archive are created); Font (components/graph),
    First_Run (the rest of badge_first_run.c), First_Run_Proofs (the screen of the self test).
  \<^item> Ymodem (modymodem.c), Ymodem_Proofs (the checksum; packets on the line), Ymodem_Transfer (whole transfers); Rtcmem
    (esprtcmem.c and the functions of modesp.c on it).
  \<^item> Modbadge (modbadge.c); Modbadge_Proofs (a stored value of the configuration is read back), Modbadge_Scripts (the
    update of the partition table, reads from the I2C bus).  The NVS library and the flash are specified there by what
    the history of calls has stored.

  \<^bold>\<open>Left out.\<close>  Log output, and data that is only printed.  The floating-point percentage of the updater is an
  argument.  Fresh heap memory with unspecified contents is zero.  MicroPython and its cross compiler, zlib, curl, libssh2,
  littlefs, ed25519, espmqtt, the audio and GPS components and the file system image builders are third-party code taken over
  into the repository, which the firmware's own code calls or which runs on the build host; they are not modelled.
\<close>

end
